theory Spec2Isabelle
  imports Main "HOL-Library.Sublist"
begin

section \<open>JavaScript values of the parsed document\<close>

text \<open>
  \<^verbatim>\<open>build\<close> reads the OpenAPI document with \<^verbatim>\<open>Bun.file(srcFile).json()\<close>, so every value
  it touches is a JSON value. An object is the list of its own properties in the order
  \<^verbatim>\<open>Object.entries\<close> enumerates them, each key once; a property read that finds nothing is
  \<^verbatim>\<open>undefined\<close>, here \<open>None\<close>.

  A number is held as the text \<^verbatim>\<open>String\<close> gives it: \<^verbatim>\<open>2\<close> is \<open>JNum ''2''\<close>, \<^verbatim>\<open>0.5\<close> is
  \<open>JNum ''0.5''\<close>, \<^verbatim>\<open>1e21\<close> is \<open>JNum ''1e+21''\<close>, and \<^verbatim>\<open>-0\<close> is \<open>JNum ''0''\<close> like \<^verbatim>\<open>0\<close>. \<^verbatim>\<open>build\<close>
  never computes with a number of the document: it prints it (\<^verbatim>\<open>String\<close>, a template
  literal and \<^verbatim>\<open>JSON.stringify\<close> all give that text), tests it for zero and compares it
  with \<^verbatim>\<open>===\<close>, and two numbers of a parsed document are equal exactly when their texts
  are.

  A string is the list of its code units, which are taken to be below 256 (the
  characters of Latin-1); the character classes of the regular expressions are the
  ASCII ones the source writes.
\<close>

datatype json =
    JNull
  | JBool bool
  | JNum string
  | JStr string
  | JArr "json list"
  | JObj "(string \<times> json) list"

text \<open>
  \<open>TypeError\<close> is the exception the program raises. \<open>Unsupported\<close> is not an outcome of
  the program: a function of the model returns it on the few inputs on which it does
  not follow the source (an upper case outside Latin-1, an enumeration named
  \<^verbatim>\<open>__proto__\<close>, a \<^verbatim>\<open>components.parameters\<close> that is not an object), so that a result \<open>Inr\<close>
  or \<open>Inl TypeError\<close> of the model is always the result of the program.
\<close>

datatype error = TypeError | Unsupported

abbreviation dq :: string where
  "dq \<equiv> [CHR 0x22]"

abbreviation nl :: string where
  "nl \<equiv> [CHR 0x0A]"

text \<open>\<^verbatim>\<open>v.key\<close> on a value that is not \<^verbatim>\<open>null\<close>: only an object has the keys read here.\<close>

fun jprop :: "json \<Rightarrow> string \<Rightarrow> json option" where
  "jprop (JObj kvs) k = map_of kvs k"
| "jprop _ k = None"

text \<open>\<^verbatim>\<open>v?.key\<close>, and \<^verbatim>\<open>v.key\<close> behind a guard \<^verbatim>\<open>v &&\<close>.\<close>

fun oprop :: "json option \<Rightarrow> string \<Rightarrow> json option" where
  "oprop None k = None"
| "oprop (Some v) k = jprop v k"

fun truthy :: "json option \<Rightarrow> bool" where
  "truthy None = False"
| "truthy (Some JNull) = False"
| "truthy (Some (JBool b)) = b"
| "truthy (Some (JNum n)) = (n \<noteq> ''0'')"
| "truthy (Some (JStr s)) = (s \<noteq> [])"
| "truthy (Some (JArr xs)) = True"
| "truthy (Some (JObj kvs)) = True"

text \<open>\<^verbatim>\<open>a || b\<close> as a value.\<close>

definition js_or :: "json option \<Rightarrow> json option \<Rightarrow> json option" where
  "js_or a b = (if truthy a then a else b)"

text \<open>A value that is used only when it is truthy.\<close>

definition as_truthy :: "json option \<Rightarrow> json option" where
  "as_truthy v = (if truthy v then v else None)"

text \<open>\<^verbatim>\<open>typeof v === "object"\<close> for a value that passed \<^verbatim>\<open>!v\<close>: an array or an object.\<close>

fun is_object_like :: "json option \<Rightarrow> bool" where
  "is_object_like (Some (JArr xs)) = True"
| "is_object_like (Some (JObj kvs)) = True"
| "is_object_like _ = False"

fun isObject :: "json option \<Rightarrow> bool" where
  "isObject (Some (JObj kvs)) = True"
| "isObject _ = False"

text \<open>\<^verbatim>\<open>v === w\<close>: primitives compare by value, arrays and objects by identity, and two
  nodes of a parsed document are never the same object.\<close>

fun strict_eq :: "json \<Rightarrow> json \<Rightarrow> bool" where
  "strict_eq JNull JNull = True"
| "strict_eq (JBool a) (JBool b) = (a = b)"
| "strict_eq (JNum a) (JNum b) = (a = b)"
| "strict_eq (JStr a) (JStr b) = (a = b)"
| "strict_eq _ _ = False"

subsection \<open>Numbers and strings as text\<close>

definition digit_char :: "nat \<Rightarrow> char" where
  "digit_char d = char_of (48 + d)"

fun show_nat_fuel :: "nat \<Rightarrow> nat \<Rightarrow> string" where
  "show_nat_fuel 0 n = [digit_char (n mod 10)]"
| "show_nat_fuel (Suc f) n =
     (if n < 10 then [digit_char n] else show_nat_fuel f (n div 10) @ [digit_char (n mod 10)])"

text \<open>A number of \<open>n\<close> has at most \<open>n + 1\<close> digits, so the fuel never runs out.\<close>

definition show_nat :: "nat \<Rightarrow> string" where
  "show_nat n = show_nat_fuel n n"

definition is_upper :: "char \<Rightarrow> bool" where
  "is_upper c = (65 \<le> (of_char c :: nat) \<and> (of_char c :: nat) \<le> 90)"

definition is_lower :: "char \<Rightarrow> bool" where
  "is_lower c = (97 \<le> (of_char c :: nat) \<and> (of_char c :: nat) \<le> 122)"

definition is_digit :: "char \<Rightarrow> bool" where
  "is_digit c = (48 \<le> (of_char c :: nat) \<and> (of_char c :: nat) \<le> 57)"

text \<open>\<^verbatim>\<open>\w\<close>\<close>

definition is_word_char :: "char \<Rightarrow> bool" where
  "is_word_char c = (is_upper c \<or> is_lower c \<or> is_digit c \<or> c = CHR ''_'')"

text \<open>The upper case of a word character.\<close>

definition to_upper_char :: "char \<Rightarrow> char" where
  "to_upper_char c = (if is_lower c then char_of ((of_char c :: nat) - 32) else c)"

text \<open>
  \<^verbatim>\<open>s.toUpperCase()\<close> maps every character by the Unicode table: in Latin-1 the letters
  \<^verbatim>\<open>a\<close> to \<^verbatim>\<open>z\<close> and those from U+00E0 to U+00FE (U+00F7, the division sign, is not one)
  lose 32, the sharp s (U+00DF) becomes \<^verbatim>\<open>SS\<close>, and the micro sign (U+00B5) and the y with
  diaeresis (U+00FF) have their upper case outside Latin-1, where the model has no
  character: \<open>None\<close>.
\<close>

definition upper_char :: "char \<Rightarrow> string option" where
  "upper_char c =
     (let n = (of_char c :: nat) in
      if 97 \<le> n \<and> n \<le> 122 then Some [char_of (n - 32)]
      else if n = 223 then Some ''SS''
      else if n = 181 \<or> n = 255 then None
      else if 224 \<le> n \<and> n \<le> 254 \<and> n \<noteq> 247 then Some [char_of (n - 32)]
      else Some [c])"

fun toUpperCase :: "string \<Rightarrow> string option" where
  "toUpperCase [] = Some []"
| "toUpperCase (c # cs) =
     (case upper_char c of
        None \<Rightarrow> None
      | Some u \<Rightarrow> map_option (\<lambda>r. u @ r) (toUpperCase cs))"

text \<open>\<^verbatim>\<open>s.toLowerCase()\<close>: the letters \<^verbatim>\<open>A\<close> to \<^verbatim>\<open>Z\<close> and those from U+00C0 to U+00DE (U+00D7,
  the multiplication sign, is not one) gain 32.\<close>

definition to_lower_char :: "char \<Rightarrow> char" where
  "to_lower_char c =
     (let n = (of_char c :: nat) in
      if (65 \<le> n \<and> n \<le> 90) \<or> (192 \<le> n \<and> n \<le> 222 \<and> n \<noteq> 215) then char_of (n + 32)
      else c)"

definition toLowerCase :: "string \<Rightarrow> string" where
  "toLowerCase s = map to_lower_char s"

text \<open>\<^verbatim>\<open>xs.join(sep)\<close> on strings.\<close>

fun join :: "string \<Rightarrow> string list \<Rightarrow> string" where
  "join sep [] = []"
| "join sep [x] = x"
| "join sep (x # y # ys) = x @ sep @ join sep (y # ys)"

definition hex_digit :: "nat \<Rightarrow> char" where
  "hex_digit d = (if d < 10 then char_of (48 + d) else char_of (87 + d))"

text \<open>One character of a string under \<^verbatim>\<open>JSON.stringify\<close>.\<close>

definition escape_char :: "char \<Rightarrow> string" where
  "escape_char c =
     (if c = CHR 0x22 then [CHR 0x5C, CHR 0x22]
      else if c = CHR 0x5C then [CHR 0x5C, CHR 0x5C]
      else if c = CHR 0x08 then [CHR 0x5C, CHR ''b'']
      else if c = CHR 0x0C then [CHR 0x5C, CHR ''f'']
      else if c = CHR 0x0A then [CHR 0x5C, CHR ''n'']
      else if c = CHR 0x0D then [CHR 0x5C, CHR ''r'']
      else if c = CHR 0x09 then [CHR 0x5C, CHR ''t'']
      else if (of_char c :: nat) < 32
        then [CHR 0x5C, CHR ''u'', CHR ''0'', CHR ''0'',
              hex_digit ((of_char c :: nat) div 16), hex_digit ((of_char c :: nat) mod 16)]
      else [c])"

definition quote :: "string \<Rightarrow> string" where
  "quote s = dq @ concat (map escape_char s) @ dq"

text \<open>\<^verbatim>\<open>JSON.stringify(v)\<close> with no indentation.\<close>

fun json_stringify :: "json \<Rightarrow> string"
  and stringify_elems :: "json list \<Rightarrow> string list"
  and stringify_members :: "(string \<times> json) list \<Rightarrow> string list" where
  "json_stringify JNull = ''null''"
| "json_stringify (JBool b) = (if b then ''true'' else ''false'')"
| "json_stringify (JNum n) = n"
| "json_stringify (JStr s) = quote s"
| "json_stringify (JArr xs) = ''['' @ join '','' (stringify_elems xs) @ '']''"
| "json_stringify (JObj kvs) = ''{'' @ join '','' (stringify_members kvs) @ ''}''"
| "stringify_elems [] = []"
| "stringify_elems (x # xs) = json_stringify x # stringify_elems xs"
| "stringify_members [] = []"
| "stringify_members ((k, v) # kvs) = (quote k @ '':'' @ json_stringify v) # stringify_members kvs"

text \<open>
  \<^verbatim>\<open>String(v)\<close>, which is also what a template literal \<^verbatim>\<open>${v}\<close> inserts, what
  \<^verbatim>\<open>regex.test(v)\<close> tests and the key that \<^verbatim>\<open>obj[v]\<close> reads. The conversion of an object
  calls its method \<^verbatim>\<open>toString\<close>; an own property of that name of a parsed document is
  never a function, and the conversion then raises. An array converts its elements.
  \<open>printable\<close> says that the conversion returns; \<open>to_str\<close> is the text it returns.
\<close>

fun printable :: "json \<Rightarrow> bool"
  and printable_elems :: "json list \<Rightarrow> bool" where
  "printable (JObj kvs) = (map_of kvs ''toString'' = None)"
| "printable (JArr xs) = printable_elems xs"
| "printable v = True"
| "printable_elems [] = True"
| "printable_elems (x # xs) = (printable x \<and> printable_elems xs)"

fun printable_opt :: "json option \<Rightarrow> bool" where
  "printable_opt None = True"
| "printable_opt (Some v) = printable v"

fun to_str :: "json \<Rightarrow> string"
  and to_str_elems :: "json list \<Rightarrow> string list" where
  "to_str JNull = ''null''"
| "to_str (JBool b) = (if b then ''true'' else ''false'')"
| "to_str (JNum n) = n"
| "to_str (JStr s) = s"
| "to_str (JArr xs) = join '','' (to_str_elems xs)"
| "to_str (JObj kvs) = ''[object Object]''"
| "to_str_elems [] = []"
| "to_str_elems (x # xs) = (if x = JNull then [] else to_str x) # to_str_elems xs"

fun template :: "json option \<Rightarrow> string" where
  "template None = ''undefined''"
| "template (Some v) = to_str v"

text \<open>\<^verbatim>\<open>v[i]\<close> for a number \<open>i\<close>.\<close>

fun js_index :: "json \<Rightarrow> nat \<Rightarrow> json option" where
  "js_index (JArr xs) i = (if i < length xs then Some (xs ! i) else None)"
| "js_index (JStr s) i = (if i < length s then Some (JStr [s ! i]) else None)"
| "js_index (JObj kvs) i = map_of kvs (show_nat i)"
| "js_index _ i = None"

text \<open>\<^verbatim>\<open>Object.entries(v)\<close> for a value that is neither \<^verbatim>\<open>null\<close> nor \<^verbatim>\<open>undefined\<close>.\<close>

fun object_entries :: "json \<Rightarrow> (string \<times> json) list" where
  "object_entries (JObj kvs) = kvs"
| "object_entries (JArr xs) = zip (map show_nat [0..<length xs]) xs"
| "object_entries (JStr s) = zip (map show_nat [0..<length s]) (map (\<lambda>c. JStr [c]) s)"
| "object_entries _ = []"

definition object_values :: "json \<Rightarrow> json list" where
  "object_values v = map snd (object_entries v)"

section \<open>Helpers of \<^verbatim>\<open>build\<close>\<close>

text \<open>\<^verbatim>\<open>n.replace(/[^\w]+/g, "_")\<close>: the flag says whether a run of other characters
  is being replaced.\<close>

fun squash :: "bool \<Rightarrow> string \<Rightarrow> string" where
  "squash r [] = []"
| "squash r (c # cs) =
     (if is_word_char c then c # squash False cs
      else if r then squash True cs
      else CHR ''_'' # squash True cs)"

definition toTypeName :: "string \<Rightarrow> string" where
  "toTypeName n =
     (let t = squash False n
      in case t of [] \<Rightarrow> [] | c # cs \<Rightarrow> if is_digit c then CHR ''_'' # t else t)"

text \<open>\<^verbatim>\<open>/^[A-Za-z_$][A-Za-z0-9_$]*$/.test(name)\<close>\<close>

definition is_ident_start :: "char \<Rightarrow> bool" where
  "is_ident_start c = (is_upper c \<or> is_lower c \<or> c = CHR ''_'' \<or> c = CHR ''$'')"

definition is_ident :: "string \<Rightarrow> bool" where
  "is_ident s =
     (case s of [] \<Rightarrow> False
      | c # cs \<Rightarrow> is_ident_start c \<and> list_all (\<lambda>d. is_ident_start d \<or> is_digit d) cs)"

text \<open>\<^verbatim>\<open>safeKey\<close> and \<^verbatim>\<open>enumKey\<close> have the same body; the result is only ever inserted
  into a template literal, so the model returns the inserted text. The argument is
  \<^verbatim>\<open>v.varnames[i]\<close>, which may be missing.\<close>

fun safeKey :: "json option \<Rightarrow> string" where
  "safeKey None = ''undefined''"
| "safeKey (Some v) = (if is_ident (to_str v) then to_str v else json_stringify v)"

definition enumKey :: "json option \<Rightarrow> string" where
  "enumKey name = safeKey name"

section \<open>Collecting the enumerations\<close>

record enum_def =
  evalues :: "json list"
  varnames :: json
  descriptions :: json
  etype :: "json option"
  doc :: "json option"

text \<open>\<^verbatim>\<open>typeof v === "string" ? v.toUpperCase() : String(v)\<close>\<close>

fun default_varname :: "json \<Rightarrow> error + json" where
  "default_varname (JStr s) =
     (case toUpperCase s of Some u \<Rightarrow> Inr (JStr u) | None \<Rightarrow> Inl Unsupported)"
| "default_varname v = (if printable v then Inr (JStr (to_str v)) else Inl TypeError)"

text \<open>\<^verbatim>\<open>xs.map(f)\<close> for a function that may fail.\<close>

fun map_result :: "('a \<Rightarrow> error + 'b) \<Rightarrow> 'a list \<Rightarrow> error + 'b list" where
  "map_result f [] = Inr []"
| "map_result f (x # xs) =
     (case f x of
        Inl e \<Rightarrow> Inl e
      | Inr y \<Rightarrow> (case map_result f xs of Inl e \<Rightarrow> Inl e | Inr ys \<Rightarrow> Inr (y # ys)))"

text \<open>\<^verbatim>\<open>ent.hasOwnProperty("const")\<close>: \<^verbatim>\<open>null\<close> has no properties, and an own property
  named \<^verbatim>\<open>hasOwnProperty\<close> of a parsed document is never a function.\<close>

fun hasOwnConst :: "json \<Rightarrow> error + bool" where
  "hasOwnConst JNull = Inl TypeError"
| "hasOwnConst (JObj kvs) =
     (if map_of kvs ''hasOwnProperty'' \<noteq> None then Inl TypeError
      else Inr (map_of kvs ''const'' \<noteq> None))"
| "hasOwnConst _ = Inr False"

text \<open>\<^verbatim>\<open>xs.every(hasOwnConst)\<close> stops at the first entry that fails the test.\<close>

fun every_hasOwnConst :: "json list \<Rightarrow> error + bool" where
  "every_hasOwnConst [] = Inr True"
| "every_hasOwnConst (x # xs) =
     (case hasOwnConst x of
        Inl e \<Rightarrow> Inl e
      | Inr b \<Rightarrow> if b then every_hasOwnConst xs else Inr False)"

text \<open>The value of an entry of \<^verbatim>\<open>oneOf\<close> that has passed the test above.\<close>

definition const_of :: "json \<Rightarrow> json" where
  "const_of ent = (case jprop ent ''const'' of Some v \<Rightarrow> v | None \<Rightarrow> JNull)"

text \<open>\<^verbatim>\<open>e.title || (typeof e.const === "string" ? e.const.toUpperCase() : String(e.const))\<close>\<close>

definition oneOf_varname :: "json \<Rightarrow> error + json" where
  "oneOf_varname ent =
     (case as_truthy (jprop ent ''title'') of
        Some t \<Rightarrow> Inr t
      | None \<Rightarrow> default_varname (const_of ent))"

definition oneOf_description :: "json \<Rightarrow> json" where
  "oneOf_description ent =
     (case js_or (jprop ent ''description'') (Some (JStr [])) of
        Some v \<Rightarrow> v | None \<Rightarrow> JNull)"

text \<open>One iteration of the loop over \<^verbatim>\<open>components.schemas\<close>: the entry the definition
  contributes to \<^verbatim>\<open>enums\<close>, if any.\<close>

definition enum_of_def :: "json \<Rightarrow> error + enum_def option" where
  "enum_of_def d =
     (if d = JNull then Inl TypeError
      else case jprop d ''enum'' of
        Some (JArr (v # vs)) \<Rightarrow>
          (case (case as_truthy (jprop d ''x-enum-varnames'') of
                   Some w \<Rightarrow> Inr w
                 | None \<Rightarrow> map_sum id JArr (map_result default_varname (v # vs))) of
             Inl e \<Rightarrow> Inl e
           | Inr names \<Rightarrow>
               Inr (Some \<lparr> evalues = v # vs,
                          varnames = names,
                          descriptions =
                            (case as_truthy (jprop d ''x-enum-descriptions'') of
                               Some w \<Rightarrow> w | None \<Rightarrow> JArr []),
                          etype = jprop d ''type'',
                          doc = js_or (jprop d ''description'') (jprop d ''title'') \<rparr>))
      | _ \<Rightarrow>
        (case jprop d ''oneOf'' of
           Some (JArr (x # xs)) \<Rightarrow>
             (case every_hasOwnConst (x # xs) of
                Inl e \<Rightarrow> Inl e
              | Inr False \<Rightarrow> Inr None
              | Inr True \<Rightarrow>
                  (case map_result oneOf_varname (x # xs) of
                     Inl e \<Rightarrow> Inl e
                   | Inr names \<Rightarrow>
                       Inr (Some \<lparr> evalues = map const_of (x # xs),
                                  varnames = JArr names,
                                  descriptions = JArr (map oneOf_description (x # xs)),
                                  etype = jprop d ''type'',
                                  doc = js_or (jprop d ''description'') (jprop d ''title'') \<rparr>)))
         | _ \<Rightarrow> Inr None))"

text \<open>The loop: \<^verbatim>\<open>enums[key] = ...\<close> adds a property to the table, except for the key
  \<^verbatim>\<open>__proto__\<close>, where the assignment replaces the prototype of the table instead, which
  the model does not follow.\<close>

fun collect_enums :: "(string \<times> json) list \<Rightarrow> error + (string \<times> enum_def) list" where
  "collect_enums [] = Inr []"
| "collect_enums ((key, d) # rest) =
     (case enum_of_def d of
        Inl e \<Rightarrow> Inl e
      | Inr None \<Rightarrow> collect_enums rest
      | Inr (Some ed) \<Rightarrow>
          if key = ''__proto__'' then Inl Unsupported
          else (case collect_enums rest of
                  Inl e \<Rightarrow> Inl e
                | Inr es \<Rightarrow> Inr ((key, ed) # es)))"

section \<open>Printing the enumerations\<close>

text \<open>The body of the loop of \<^verbatim>\<open>printEnum\<close>, from index \<open>i\<close> on.\<close>

fun printEnum_members :: "enum_def \<Rightarrow> nat \<Rightarrow> json list \<Rightarrow> string" where
  "printEnum_members e i [] = []"
| "printEnum_members e i (v # vs) =
     (if truthy (js_index (descriptions e) i)
      then ''  /** '' @ template (js_index (descriptions e) i) @ '' */'' @ nl else [])
     @ ''  '' @ enumKey (js_index (varnames e) i) @ '' = '' @ json_stringify v @ '','' @ nl
     @ printEnum_members e (Suc i) vs"

definition printEnum :: "string \<Rightarrow> enum_def \<Rightarrow> string" where
  "printEnum key e =
     ''/**'' @ nl
     @ (if truthy (doc e) then '' * '' @ template (doc e) @ nl else '' * '' @ key @ nl)
     @ '' */'' @ nl
     @ ''export const enum '' @ toTypeName key @ '' {'' @ nl
     @ printEnum_members e 0 (evalues e)
     @ ''}'' @ nl"

text \<open>The runtime mirror of one enumeration, as the assembly loop appends it to
  \<^verbatim>\<open>outputJs\<close>.\<close>

fun jsEnum_members :: "enum_def \<Rightarrow> nat \<Rightarrow> json list \<Rightarrow> string" where
  "jsEnum_members e i [] = []"
| "jsEnum_members e i (v # vs) =
     ''  '' @ safeKey (js_index (varnames e) i) @ '': '' @ json_stringify v @ '','' @ nl
     @ jsEnum_members e (Suc i) vs"

definition jsEnum :: "string \<Rightarrow> enum_def \<Rightarrow> string" where
  "jsEnum k v =
     ''export const '' @ toTypeName k @ '' = {'' @ nl
     @ jsEnum_members v 0 (evalues v)
     @ ''};'' @ nl @ nl"

text \<open>What \<^verbatim>\<open>printEnum\<close> converts to a string: the comment \<^verbatim>\<open>e.doc\<close> and the descriptions when
  they are truthy, and every member name; the mirror converts the member names.\<close>

definition printEnum_returns :: "enum_def \<Rightarrow> bool" where
  "printEnum_returns e =
     (printable_opt (as_truthy (doc e)) \<and>
      list_all (\<lambda>i. printable_opt (as_truthy (js_index (descriptions e) i)) \<and>
                     printable_opt (js_index (varnames e) i))
        [0..<length (evalues e)])"

definition jsEnum_returns :: "enum_def \<Rightarrow> bool" where
  "jsEnum_returns e =
     list_all (\<lambda>i. printable_opt (js_index (varnames e) i)) [0..<length (evalues e)]"

text \<open>The loop that opens the assembly of the output: \<^verbatim>\<open>output\<close> receives the declaration
  of an enumeration under the usage filter, \<^verbatim>\<open>outputJs\<close> receives its mirror.\<close>

fun assemble_enums ::
  "(string \<times> enum_def) list \<Rightarrow> string set \<Rightarrow> string \<times> string \<Rightarrow> error + string \<times> string" where
  "assemble_enums [] used (output, outputJs) = Inr (output, outputJs)"
| "assemble_enums ((k, v) # rest) used (output, outputJs) =
     (if (used = {} \<or> k \<in> used) \<and> \<not> printEnum_returns v then Inl TypeError
      else if \<not> jsEnum_returns v then Inl TypeError
      else
        assemble_enums rest used
          (if used = {} \<or> k \<in> used then output @ printEnum k v @ nl else output,
           outputJs @ jsEnum k v))"

section \<open>Usage tracking\<close>

text \<open>
  The sets \<^verbatim>\<open>usedComponents\<close> and \<^verbatim>\<open>usedEnums\<close>, and \<^verbatim>\<open>visited\<close>, which holds the schema
  nodes the marking has entered. A node of the parsed document is one object, known by
  the place it has in the document: the list of keys that leads to it.
\<close>

type_synonym loc = "string list"

record state =
  usedComponents :: "string set"
  usedEnums :: "string set"
  visited :: "loc set"

definition init_state :: state where
  "init_state = \<lparr> usedComponents = {}, usedEnums = {}, visited = {} \<rparr>"

text \<open>What the helpers read of the enclosing \<^verbatim>\<open>build\<close>: the table \<^verbatim>\<open>enums\<close> and the
  values \<^verbatim>\<open>openapi.components?.schemas\<close> and \<^verbatim>\<open>openapi.components?.parameters\<close>.\<close>

record ctx =
  enums :: "(string \<times> enum_def) list"
  schemas :: "json option"
  parameters :: "json option"

text \<open>
  \<^verbatim>\<open>enums\<close>, \<^verbatim>\<open>paramGroups\<close> and the objects of the document are plain objects: a read
  \<^verbatim>\<open>obj[name]\<close> that finds no own property finds the member of \<^verbatim>\<open>Object.prototype\<close> of that
  name, if there is one. These are the names of the members.
\<close>

definition object_prototype_names :: "string list" where
  "object_prototype_names =
     [''constructor'', ''hasOwnProperty'', ''isPrototypeOf'', ''propertyIsEnumerable'',
      ''toLocaleString'', ''toString'', ''valueOf'', ''__proto__'', ''__defineGetter__'',
      ''__defineSetter__'', ''__lookupGetter__'', ''__lookupSetter__'']"

text \<open>
  What \<^verbatim>\<open>enums[name]\<close> is: an enumeration of the table; the function \<^verbatim>\<open>Object\<close> for the
  name \<^verbatim>\<open>constructor\<close>, whose property \<^verbatim>\<open>values\<close> is the function \<^verbatim>\<open>Object.values\<close>; another
  member of \<^verbatim>\<open>Object.prototype\<close> (a function, or for \<^verbatim>\<open>__proto__\<close> the prototype itself),
  which is truthy and has no property \<^verbatim>\<open>values\<close>, \<^verbatim>\<open>varnames\<close> or \<^verbatim>\<open>doc\<close>; or \<^verbatim>\<open>undefined\<close>.
\<close>

datatype enum_slot = Own enum_def | Object_function | Prototype_member | Missing

definition enums_at :: "ctx \<Rightarrow> string \<Rightarrow> enum_slot" where
  "enums_at c name =
     (case map_of (enums c) name of
        Some e \<Rightarrow> Own e
      | None \<Rightarrow>
          if name = ''constructor'' then Object_function
          else if name \<in> set object_prototype_names then Prototype_member
          else Missing)"

text \<open>\<^verbatim>\<open>if (enums[name]) usedEnums.add(name)\<close>\<close>

definition markEnumUse :: "ctx \<Rightarrow> string \<Rightarrow> state \<Rightarrow> state" where
  "markEnumUse c name st =
     (if enums_at c name \<noteq> Missing then st\<lparr>usedEnums := insert name (usedEnums st)\<rparr> else st)"

definition markComponent :: "ctx \<Rightarrow> string \<Rightarrow> state \<Rightarrow> state" where
  "markComponent c name st =
     markEnumUse c name (st\<lparr>usedComponents := insert name (usedComponents st)\<rparr>)"

section \<open>Resolving references\<close>

text \<open>The last part of \<^verbatim>\<open>ref.split("/")\<close>.\<close>

definition last_segment :: "string \<Rightarrow> string" where
  "last_segment r = rev (takeWhile (\<lambda>c. c \<noteq> CHR ''/'') (rev r))"

text \<open>\<^verbatim>\<open>resolveRef\<close> is called with a truthy \<^verbatim>\<open>$ref\<close>; a value that is not a string has no
  method \<^verbatim>\<open>split\<close>.\<close>

fun resolveRef :: "json \<Rightarrow> error + string" where
  "resolveRef (JStr r) = Inr (toTypeName (last_segment r))"
| "resolveRef _ = Inl TypeError"

text \<open>
  A member of \<^verbatim>\<open>Object.prototype\<close> that a read \<^verbatim>\<open>parameters[name]\<close> finds is handed to
  \<^verbatim>\<open>collectParam\<close>, which reads its properties \<^verbatim>\<open>schema\<close>, \<^verbatim>\<open>content\<close>, \<^verbatim>\<open>in\<close>, \<^verbatim>\<open>name\<close> and
  \<^verbatim>\<open>required\<close>. A function has of these only \<^verbatim>\<open>name\<close> (\<^verbatim>\<open>Object\<close> for \<^verbatim>\<open>constructor\<close>, its own
  name for the others) and the prototype has none, so the member is handed on as the
  object with these properties.
\<close>

definition inherited_member :: "string \<Rightarrow> json option" where
  "inherited_member name =
     (if name = ''constructor'' then Some (JObj [(''name'', JStr ''Object'')])
      else if name = ''__proto__'' then Some (JObj [])
      else if name \<in> set object_prototype_names then Some (JObj [(''name'', JStr name)])
      else None)"

text \<open>\<^verbatim>\<open>resolveParameterRef\<close>, that is \<^verbatim>\<open>openapi.components?.parameters?.[name] ?? null\<close> for the
  last part of the pointer: the name is not passed through \<^verbatim>\<open>toTypeName\<close>. The members
  that an array, a string, a number or \<^verbatim>\<open>true\<close> in the place of the object would have
  are not followed.\<close>

fun resolveParameterRef :: "ctx \<Rightarrow> json \<Rightarrow> error + json option" where
  "resolveParameterRef c (JStr r) =
     (case parameters c of
        None \<Rightarrow> Inr None
      | Some JNull \<Rightarrow> Inr None
      | Some (JObj kvs) \<Rightarrow>
          (case map_of kvs (last_segment r) of
             Some JNull \<Rightarrow> Inr None
           | Some v \<Rightarrow> Inr (Some v)
           | None \<Rightarrow> Inr (inherited_member (last_segment r)))
      | Some _ \<Rightarrow> Inl Unsupported)"
| "resolveParameterRef c _ = Inl TypeError"

text \<open>\<^verbatim>\<open>toTypeName(e.varnames[idx]!)\<close>: \<^verbatim>\<open>replace\<close> is a method of strings only.\<close>

fun toTypeName_js :: "json option \<Rightarrow> error + string" where
  "toTypeName_js (Some (JStr s)) = Inr (toTypeName s)"
| "toTypeName_js _ = Inl TypeError"

section \<open>Mapping inline literals to the enumerations\<close>

fun find_index :: "('a \<Rightarrow> bool) \<Rightarrow> 'a list \<Rightarrow> nat option" where
  "find_index P [] = None"
| "find_index P (x # xs) =
     (if P x then Some 0 else map_option Suc (find_index P xs))"

text \<open>\<^verbatim>\<open>/CommandOptionType/i.test(name)\<close>\<close>

fun is_infix :: "string \<Rightarrow> string \<Rightarrow> bool" where
  "is_infix p [] = (p = [])"
| "is_infix p (c # cs) = (prefix p (c # cs) \<or> is_infix p cs)"

definition is_generic :: "string \<Rightarrow> bool" where
  "is_generic name = is_infix ''commandoptiontype'' (toLowerCase name)"

text \<open>\<^verbatim>\<open>e.values.length === values.length && e.values.every((v, i) => v === values[i])\<close>\<close>

definition exact_match :: "enum_def \<Rightarrow> json list \<Rightarrow> bool" where
  "exact_match e vs = (length (evalues e) = length vs \<and> list_all2 strict_eq (evalues e) vs)"

text \<open>\<^verbatim>\<open>`${toTypeName(name)}.${toTypeName(e.varnames[idx]!)}`\<close>\<close>

definition qualified_member :: "string \<Rightarrow> enum_def \<Rightarrow> nat \<Rightarrow> error + string" where
  "qualified_member name e idx =
     (case toTypeName_js (js_index (varnames e) idx) of
        Inl err \<Rightarrow> Inl err
      | Inr m \<Rightarrow> Inr (toTypeName name @ ''.'' @ m))"

text \<open>The first loop of \<^verbatim>\<open>mapEnumForEnum\<close>: the name of the first enumeration whose
  values are exactly the given ones.\<close>

fun find_exact :: "(string \<times> enum_def) list \<Rightarrow> json list \<Rightarrow> string option" where
  "find_exact [] vs = None"
| "find_exact ((name, e) # rest) vs =
     (if exact_match e vs then Some name else find_exact rest vs)"

text \<open>Its second loop: the first enumeration that holds the literal and whose name does
  not match the pattern, with the index of the literal.\<close>

fun find_member_skipping ::
  "(string \<times> enum_def) list \<Rightarrow> json \<Rightarrow> (string \<times> enum_def \<times> nat) option" where
  "find_member_skipping [] val = None"
| "find_member_skipping ((name, e) # rest) val =
     (case find_index (\<lambda>v. strict_eq v val) (evalues e) of
        None \<Rightarrow> find_member_skipping rest val
      | Some idx \<Rightarrow>
          if is_generic name then find_member_skipping rest val
          else Some (name, e, idx))"

definition mapEnumForEnum ::
  "ctx \<Rightarrow> json list \<Rightarrow> state \<Rightarrow> error + (string option \<times> state)" where
  "mapEnumForEnum c vs st =
     (case find_exact (enums c) vs of
        Some name \<Rightarrow> Inr (Some (toTypeName name), markEnumUse c name st)
      | None \<Rightarrow>
          (case vs of
             [val] \<Rightarrow>
               (case find_member_skipping (enums c) val of
                  None \<Rightarrow> Inr (None, st)
                | Some (name, e, idx) \<Rightarrow>
                    (case qualified_member name e idx of
                       Inl err \<Rightarrow> Inl err
                     | Inr t \<Rightarrow> Inr (Some t, markEnumUse c name st)))
           | _ \<Rightarrow> Inr (None, st)))"

text \<open>The loop of \<^verbatim>\<open>mapEnumForConst\<close>: the first enumeration that holds the value.\<close>

fun find_member :: "(string \<times> enum_def) list \<Rightarrow> json \<Rightarrow> (string \<times> enum_def \<times> nat) option" where
  "find_member [] val = None"
| "find_member ((name, e) # rest) val =
     (case find_index (\<lambda>v. strict_eq v val) (evalues e) of
        None \<Rightarrow> find_member rest val
      | Some idx \<Rightarrow> Some (name, e, idx))"

definition mapEnumForConst ::
  "ctx \<Rightarrow> json \<Rightarrow> state \<Rightarrow> error + (string option \<times> state)" where
  "mapEnumForConst c val st =
     (case find_member (enums c) val of
        None \<Rightarrow> Inr (None, st)
      | Some (name, e, idx) \<Rightarrow>
          (case qualified_member name e idx of
             Inl err \<Rightarrow> Inl err
           | Inr t \<Rightarrow> Inr (Some t, markEnumUse c name st)))"

text \<open>\<^verbatim>\<open>inlineEnum ?? mappedEnum?.values\<close> for the definition a reference names: an array,
  the function \<^verbatim>\<open>Object.values\<close>, or \<^verbatim>\<open>undefined\<close>.\<close>

datatype candidates = Candidates "json list" | Values_function | No_candidates

definition candidateValues :: "ctx \<Rightarrow> string \<Rightarrow> candidates" where
  "candidateValues c refName =
     (case oprop (oprop (schemas c) refName) ''enum'' of
        Some (JArr xs) \<Rightarrow> Candidates xs
      | _ \<Rightarrow>
          (case enums_at c refName of
             Own e \<Rightarrow> Candidates (evalues e)
           | Object_function \<Rightarrow> Values_function
           | _ \<Rightarrow> No_candidates))"

text \<open>The loop of \<^verbatim>\<open>mapEnumFromAllOf\<close> over the entries of an array \<^verbatim>\<open>allOf\<close>. A function
  has no method \<^verbatim>\<open>includes\<close>, which \<^verbatim>\<open>values.every\<close> calls once for each value; and a member
  of \<^verbatim>\<open>Object.prototype\<close> has no array \<^verbatim>\<open>values\<close> to search.\<close>

fun mapEnumFromAllOf_loop ::
  "ctx \<Rightarrow> json list \<Rightarrow> json list \<Rightarrow> state \<Rightarrow> error + (string option \<times> state)" where
  "mapEnumFromAllOf_loop c vs [] st = Inr (None, st)"
| "mapEnumFromAllOf_loop c vs (entry # rest) st =
     (if \<not> is_object_like (Some entry) \<or> \<not> truthy (jprop entry ''$ref'')
      then mapEnumFromAllOf_loop c vs rest st
      else
        (case resolveRef (case jprop entry ''$ref'' of Some r \<Rightarrow> r | None \<Rightarrow> JNull) of
           Inl err \<Rightarrow> Inl err
         | Inr refName \<Rightarrow>
             (case candidateValues c refName of
                No_candidates \<Rightarrow> mapEnumFromAllOf_loop c vs rest st
              | Values_function \<Rightarrow>
                  if vs = [] then Inr (Some (toTypeName refName), markEnumUse c refName st)
                  else Inl TypeError
              | Candidates cands \<Rightarrow>
                  if \<not> list_all (\<lambda>v. list_ex (strict_eq v) cands) vs
                  then mapEnumFromAllOf_loop c vs rest st
                  else
                    (let st' = markEnumUse c refName st in
                     case vs of
                       [val] \<Rightarrow>
                         (case enums_at c refName of
                            Own mappedEnum \<Rightarrow>
                              (case find_index (\<lambda>v. strict_eq v val) (evalues mappedEnum) of
                                 Some idx \<Rightarrow>
                                   (case qualified_member refName mappedEnum idx of
                                      Inl err \<Rightarrow> Inl err
                                    | Inr t \<Rightarrow> Inr (Some t, st'))
                               | None \<Rightarrow> Inr (Some (toTypeName refName), st'))
                          | Missing \<Rightarrow> Inr (Some (toTypeName refName), st')
                          | _ \<Rightarrow> Inl TypeError)
                     | _ \<Rightarrow> Inr (Some (toTypeName refName), st')))))"

fun mapEnumFromAllOf ::
  "ctx \<Rightarrow> json list \<Rightarrow> json option \<Rightarrow> state \<Rightarrow> error + (string option \<times> state)" where
  "mapEnumFromAllOf c vs (Some (JArr allOf)) st = mapEnumFromAllOf_loop c vs allOf st"
| "mapEnumFromAllOf c vs _ st = Inr (None, st)"

text \<open>The loop of \<^verbatim>\<open>mapEnumFromRefs\<close>; every caller passes a value that is defined, so
  \<^verbatim>\<open>e.values.findIndex\<close> is called, which a member of \<^verbatim>\<open>Object.prototype\<close> does not have.\<close>

fun mapEnumFromRefs_loop ::
  "ctx \<Rightarrow> json list \<Rightarrow> json \<Rightarrow> state \<Rightarrow> error + (string option \<times> state)" where
  "mapEnumFromRefs_loop c [] val st = Inr (None, st)"
| "mapEnumFromRefs_loop c (entry # rest) val st =
     (if \<not> is_object_like (Some entry) \<or> \<not> truthy (jprop entry ''$ref'')
      then mapEnumFromRefs_loop c rest val st
      else
        (case resolveRef (case jprop entry ''$ref'' of Some r \<Rightarrow> r | None \<Rightarrow> JNull) of
           Inl err \<Rightarrow> Inl err
         | Inr refName \<Rightarrow>
             (case enums_at c refName of
                Missing \<Rightarrow> mapEnumFromRefs_loop c rest val st
              | Own e \<Rightarrow>
                  (let st' = markEnumUse c refName st in
                   case find_index (\<lambda>v. strict_eq v val) (evalues e) of
                     Some idx \<Rightarrow>
                       (case qualified_member refName e idx of
                          Inl err \<Rightarrow> Inl err
                        | Inr t \<Rightarrow> Inr (Some t, st'))
                   | None \<Rightarrow> Inr (Some (toTypeName refName), st'))
              | _ \<Rightarrow> Inl TypeError)))"

fun mapEnumFromRefs ::
  "ctx \<Rightarrow> json option \<Rightarrow> json \<Rightarrow> state \<Rightarrow> error + (string option \<times> state)" where
  "mapEnumFromRefs c (Some (JArr allOf)) val st = mapEnumFromRefs_loop c allOf val st"
| "mapEnumFromRefs c _ val st = Inr (None, st)"

section \<open>Schema to type text\<close>

text \<open>
  \<^verbatim>\<open>typeFromSchema\<close> keeps a memo \<^verbatim>\<open>schemaCache\<close> keyed by the schema object. A parsed
  document is a tree, so an object is met again only when the same node is rendered a
  second time; the memo then returns the text the first call returned, and the marks
  of that call are in the usage sets already (nothing is ever removed from them). The
  objects built on the way (\<^verbatim>\<open>{ type: schema.type }\<close>, \<^verbatim>\<open>{ ...schema, type: "object" }\<close>,
  \<^verbatim>\<open>{}\<close>) are new each time and never found in the memo. The model therefore computes
  the text at every call and has no memo.
\<close>

fun as_array :: "json option \<Rightarrow> json list option" where
  "as_array (Some (JArr xs)) = Some xs"
| "as_array _ = None"

text \<open>A result used as a condition, \<^verbatim>\<open>if (mapped)\<close>: \<^verbatim>\<open>null\<close> and the empty string fail.\<close>

fun str_truthy :: "string option \<Rightarrow> string option" where
  "str_truthy None = None"
| "str_truthy (Some s) = (if s = [] then None else Some s)"

text \<open>\<^verbatim>\<open>{ ...schema, type: t }\<close> on the properties of an object.\<close>

fun spread_type :: "(string \<times> json) list \<Rightarrow> json \<Rightarrow> (string \<times> json) list" where
  "spread_type [] t = [(''type'', t)]"
| "spread_type ((k, v) # kvs) t =
     (if k = ''type'' then (k, t) # kvs else (k, v) # spread_type kvs t)"

text \<open>\<^verbatim>\<open>schema.items || {}\<close>\<close>

definition items_or_empty :: "json \<Rightarrow> json" where
  "items_or_empty schema =
     (case as_truthy (jprop schema ''items'') of Some i \<Rightarrow> i | None \<Rightarrow> JObj [])"

text \<open>\<^verbatim>\<open>itemType.includes("|") ? `(${itemType})[]` : `${itemType}[]`\<close>\<close>

definition wrap_array :: "string \<Rightarrow> string" where
  "wrap_array itemType =
     (if CHR ''|'' \<in> set itemType then ''('' @ itemType @ '')[]'' else itemType @ ''[]'')"

text \<open>The branch of a truthy \<^verbatim>\<open>$ref\<close>.\<close>

definition ref_branch :: "ctx \<Rightarrow> json \<Rightarrow> state \<Rightarrow> error + (string \<times> state)" where
  "ref_branch c r st =
     (case resolveRef r of
        Inl e \<Rightarrow> Inl e
      | Inr t \<Rightarrow> Inr (t, markComponent c t st))"

text \<open>\<^verbatim>\<open>schema.allOf ? mapEnumFromAllOf(values, schema.allOf) : null\<close>\<close>

definition allOf_lookup ::
  "ctx \<Rightarrow> json \<Rightarrow> json list \<Rightarrow> state \<Rightarrow> error + (string option \<times> state)" where
  "allOf_lookup c schema vs st =
     (if truthy (jprop schema ''allOf'') then mapEnumFromAllOf c vs (jprop schema ''allOf'') st
      else Inr (None, st))"

text \<open>The branch of an array \<^verbatim>\<open>enum\<close>.\<close>

definition enum_branch ::
  "ctx \<Rightarrow> json \<Rightarrow> json list \<Rightarrow> state \<Rightarrow> error + (string \<times> state)" where
  "enum_branch c schema vs st =
     (case mapEnumForEnum c vs st of
        Inl e \<Rightarrow> Inl e
      | Inr (mapped, st1) \<Rightarrow>
          (case str_truthy mapped of
             Some t \<Rightarrow> Inr (t, st1)
           | None \<Rightarrow>
               (case allOf_lookup c schema vs st1 of
                  Inl e \<Rightarrow> Inl e
                | Inr (mappedAllOf, st2) \<Rightarrow>
                    (case str_truthy mappedAllOf of
                       Some t \<Rightarrow> Inr (t, st2)
                     | None \<Rightarrow> Inr (join '' | '' (map json_stringify vs), st2)))))"

text \<open>The branch of a \<^verbatim>\<open>const\<close> that is defined.\<close>

definition const_branch ::
  "ctx \<Rightarrow> json \<Rightarrow> json \<Rightarrow> state \<Rightarrow> error + (string \<times> state)" where
  "const_branch c schema v st =
     (case mapEnumForConst c v st of
        Inl e \<Rightarrow> Inl e
      | Inr (mapped, st1) \<Rightarrow>
          (case str_truthy mapped of
             Some t \<Rightarrow> Inr (t, st1)
           | None \<Rightarrow>
               (case allOf_lookup c schema [v] st1 of
                  Inl e \<Rightarrow> Inl e
                | Inr (mappedAllOf, st2) \<Rightarrow>
                    (case str_truthy mappedAllOf of
                       Some t \<Rightarrow> Inr (t, st2)
                     | None \<Rightarrow> Inr (json_stringify v, st2)))))"

text \<open>The last \<^verbatim>\<open>switch\<close> on \<^verbatim>\<open>schema.type\<close> and the line after it.\<close>

definition primitive_type :: "json option \<Rightarrow> string" where
  "primitive_type t =
     (if t = Some (JStr ''string'') then ''string''
      else if t = Some (JStr ''integer'') \<or> t = Some (JStr ''number'') then ''number''
      else if t = Some (JStr ''boolean'') then ''boolean''
      else if t = Some (JStr ''null'') then ''null''
      else if t = Some (JStr ''object'') then ''Record<string, unknown>''
      else ''unknown'')"

subsection \<open>One property of an object schema\<close>

definition isTypeLike :: "string \<Rightarrow> bool" where
  "isTypeLike propName =
     (propName = ''type'' \<or> propName = ''component_type'' \<or> propName = ''trigger_type'')"

text \<open>\<^verbatim>\<open>propSchema.allOf || []\<close>\<close>

definition allOf_or_empty :: "json \<Rightarrow> json option" where
  "allOf_or_empty propSchema = js_or (jprop propSchema ''allOf'') (Some (JArr []))"

text \<open>\<^verbatim>\<open>mappedAll || mappedRefOnly || mapEnumForConst(v) || mapEnumForEnum(vs)\<close>, where the
  last call is made for an \<^verbatim>\<open>enum\<close> only: both of the first two lookups are made before
  the chain is read.\<close>

definition type_like_lookup ::
  "ctx \<Rightarrow> json \<Rightarrow> json \<Rightarrow> json list option \<Rightarrow> state \<Rightarrow> error + (string option \<times> state)" where
  "type_like_lookup c propSchema v vs st =
     (case mapEnumFromAllOf c [v] (allOf_or_empty propSchema) st of
        Inl e \<Rightarrow> Inl e
      | Inr (mappedAll, st1) \<Rightarrow>
          (case mapEnumFromRefs c (allOf_or_empty propSchema) v st1 of
             Inl e \<Rightarrow> Inl e
           | Inr (mappedRefOnly, st2) \<Rightarrow>
               (case str_truthy mappedAll of
                  Some t \<Rightarrow> Inr (Some t, st2)
                | None \<Rightarrow>
                    (case str_truthy mappedRefOnly of
                       Some t \<Rightarrow> Inr (Some t, st2)
                     | None \<Rightarrow>
                         (case mapEnumForConst c v st2 of
                            Inl e \<Rightarrow> Inl e
                          | Inr (m3, st3) \<Rightarrow>
                              (case str_truthy m3 of
                                 Some t \<Rightarrow> Inr (Some t, st3)
                               | None \<Rightarrow>
                                   (case vs of
                                      None \<Rightarrow> Inr (None, st3)
                                    | Some ws \<Rightarrow>
                                        (case mapEnumForEnum c ws st3 of
                                           Inl e \<Rightarrow> Inl e
                                         | Inr (m4, st4) \<Rightarrow> Inr (str_truthy m4, st4)))))))))"

text \<open>A one-value \<^verbatim>\<open>enum\<close> of the property schema.\<close>

definition single_enum :: "json \<Rightarrow> json option" where
  "single_enum propSchema =
     (case as_array (jprop propSchema ''enum'') of Some [v] \<Rightarrow> Some v | _ \<Rightarrow> None)"

text \<open>The chain of tests at the head of the loop over the properties: the text an
  enumeration lookup gives for the property, or nothing, in which case the property is
  rendered by \<^verbatim>\<open>typeFromSchema(propSchema)\<close>.\<close>

definition prop_mapped ::
  "ctx \<Rightarrow> string \<Rightarrow> json \<Rightarrow> state \<Rightarrow> error + (string option \<times> state)" where
  "prop_mapped c propName propSchema st =
     (if single_enum propSchema \<noteq> None \<and> truthy (jprop propSchema ''allOf'') then
        (case mapEnumFromAllOf c (case single_enum propSchema of Some v \<Rightarrow> [v] | None \<Rightarrow> [])
                (jprop propSchema ''allOf'') st of
           Inl e \<Rightarrow> Inl e
         | Inr (m, st1) \<Rightarrow> Inr (str_truthy m, st1))
      else if jprop propSchema ''const'' \<noteq> None \<and> truthy (jprop propSchema ''allOf'') then
        (case mapEnumFromAllOf c (case jprop propSchema ''const'' of Some v \<Rightarrow> [v] | None \<Rightarrow> [])
                (jprop propSchema ''allOf'') st of
           Inl e \<Rightarrow> Inl e
         | Inr (m, st1) \<Rightarrow> Inr (str_truthy m, st1))
      else if isTypeLike propName \<and> single_enum propSchema \<noteq> None then
        (case single_enum propSchema of
           Some v \<Rightarrow> type_like_lookup c propSchema v (Some [v]) st
         | None \<Rightarrow> Inr (None, st))
      else if isTypeLike propName \<and> jprop propSchema ''const'' \<noteq> None then
        (case jprop propSchema ''const'' of
           Some v \<Rightarrow> type_like_lookup c propSchema v None st
         | None \<Rightarrow> Inr (None, st))
      else Inr (None, st))"

text \<open>\<^verbatim>\<open>required.includes(propName)\<close> for \<^verbatim>\<open>required = schema.required || []\<close>: arrays and
  strings have the method.\<close>

fun required_includes :: "json \<Rightarrow> string \<Rightarrow> error + bool" where
  "required_includes (JArr xs) propName = Inr (list_ex (\<lambda>x. strict_eq x (JStr propName)) xs)"
| "required_includes (JStr s) propName = Inr (is_infix propName s)"
| "required_includes _ propName = Inl TypeError"

text \<open>\<^verbatim>\<open>s.replace(/\n/g, ' ')\<close>, a method of strings only.\<close>

fun flatten_doc :: "json \<Rightarrow> error + string" where
  "flatten_doc (JStr s) = Inr (map (\<lambda>ch. if ch = CHR 0x0A then CHR '' '' else ch) s)"
| "flatten_doc _ = Inl TypeError"

text \<open>What one property appends to \<^verbatim>\<open>out\<close>, given its type text: \<^verbatim>\<open>propSchema.nullable\<close> is
  read with no guard and fails on \<^verbatim>\<open>null\<close>.\<close>

definition prop_line :: "json \<Rightarrow> string \<Rightarrow> json \<Rightarrow> string \<Rightarrow> error + string" where
  "prop_line required propName propSchema tsType =
     (case required_includes required propName of
        Inl e \<Rightarrow> Inl e
      | Inr inc \<Rightarrow>
          if propSchema = JNull then Inl TypeError
          else
            (case (case as_truthy (js_or (jprop propSchema ''description'') (jprop propSchema ''title'')) of
                     None \<Rightarrow> Inr []
                   | Some d \<Rightarrow>
                       (case flatten_doc d of
                          Inl e \<Rightarrow> Inl e
                        | Inr t \<Rightarrow> Inr (''  /** '' @ t @ '' */'' @ nl))) of
               Inl e \<Rightarrow> Inl e
             | Inr doc_text \<Rightarrow>
                 Inr (doc_text @ ''  '' @ propName @ (if inc then [] else ''?'') @ '': '' @ tsType
                      @ (if truthy (jprop propSchema ''nullable'') then '' | null'' else [])
                      @ '';'' @ nl)))"

subsection \<open>A measure for the recursion\<close>

fun weight :: "json \<Rightarrow> nat"
  and weights :: "json list \<Rightarrow> nat"
  and weight_members :: "(string \<times> json) list \<Rightarrow> nat" where
  "weight JNull = 0"
| "weight (JBool b) = 0"
| "weight (JNum n) = 0"
| "weight (JStr s) = length s"
| "weight (JArr xs) = Suc (weights xs)"
| "weight (JObj kvs) = Suc (weight_members kvs)"
| "weights [] = 0"
| "weights (x # xs) = weight x + weights xs"
| "weight_members [] = 0"
| "weight_members ((k, v) # kvs) = weight v + weight_members kvs"

lemma weight_map_of: "map_of kvs k = Some v \<Longrightarrow> weight v \<le> weight_members kvs"
  by (induction kvs) (auto split: if_splits)

lemma weight_map_of2:
  "map_of kvs k = Some v \<Longrightarrow> map_of kvs k' = Some v' \<Longrightarrow> k \<noteq> k' \<Longrightarrow>
   weight v + weight v' \<le> weight_members kvs"
proof (induction kvs)
  case Nil
  then show ?case by simp
next
  case (Cons p kvs)
  obtain a b where p: "p = (a, b)" by (cases p)
  show ?case
  proof (cases "a = k")
    case True
    with Cons.prems p have "b = v" "map_of kvs k' = Some v'" by auto
    with weight_map_of [of kvs k' v'] p show ?thesis by simp
  next
    case False
    show ?thesis
    proof (cases "a = k'")
      case True
      with Cons.prems p False have "b = v'" "map_of kvs k = Some v" by auto
      with weight_map_of [of kvs k v] p show ?thesis by simp
    next
      case nk: False
      with Cons False p show ?thesis by auto
    qed
  qed
qed

lemma weight_jprop: "jprop (JObj kvs) k = Some v \<Longrightarrow> weight v < weight (JObj kvs)"
  using weight_map_of [of kvs k v] by simp

lemma weight_as_truthy: "as_truthy (jprop (JObj kvs) k) = Some v \<Longrightarrow> weight v < weight (JObj kvs)"
  by (auto simp: as_truthy_def dest: weight_map_of split: if_splits)

lemma weight_spread_mono:
  "weight t < weight t' \<Longrightarrow> weight_members (spread_type kvs t) < weight_members (spread_type kvs t')"
  by (induction kvs) auto

lemma weight_spread_same:
  "map_of kvs ''type'' = Some t \<Longrightarrow> weight_members (spread_type kvs t) = weight_members kvs"
  by (induction kvs) (auto split: if_splits)

lemma weight_spread_ge: "weight t \<le> weight_members (spread_type kvs t)"
  by (induction kvs) auto

lemma map_of_spread_other:
  "k \<noteq> ''type'' \<Longrightarrow> map_of (spread_type kvs t) k = map_of kvs k"
  by (induction kvs) auto

lemma weights_zip_index: "length ks = length xs \<Longrightarrow> weight_members (zip ks xs) = weights xs"
  by (induction ks xs rule: list_induct2) auto

lemma weights_chars: "weights (map (\<lambda>c. JStr [c]) s) = length s"
  by (induction s) auto

lemma weight_object_entries: "weight_members (object_entries v) \<le> weight v"
  by (cases v) (simp_all add: weights_zip_index weights_chars)

lemma weights_member: "x \<in> set xs \<Longrightarrow> weight x \<le> weights xs"
  by (induction xs) auto


subsection \<open>The recursion of \<^verbatim>\<open>typeFromSchema\<close>\<close>

text \<open>\<^verbatim>\<open>schema.properties || {}\<close> and \<^verbatim>\<open>schema.required || []\<close>\<close>

definition properties_or_empty :: "(string \<times> json) list \<Rightarrow> json" where
  "properties_or_empty kvs =
     (case as_truthy (map_of kvs ''properties'') of Some p \<Rightarrow> p | None \<Rightarrow> JObj [])"

definition required_or_empty :: "(string \<times> json) list \<Rightarrow> json" where
  "required_or_empty kvs =
     (case as_truthy (map_of kvs ''required'') of Some r \<Rightarrow> r | None \<Rightarrow> JArr [])"

lemma weight_properties_or_empty:
  "weight_members (object_entries (properties_or_empty kvs)) < Suc (weight_members kvs)"
proof (cases "as_truthy (map_of kvs ''properties'')")
  case None
  then show ?thesis by (simp add: properties_or_empty_def)
next
  case (Some p)
  then have "map_of kvs ''properties'' = Some p"
    by (simp add: as_truthy_def split: if_splits)
  then have "weight p \<le> weight_members kvs" by (rule weight_map_of)
  with weight_object_entries [of p] Some show ?thesis
    by (simp add: properties_or_empty_def)
qed

lemma weight_items_or_empty:
  "map_of kvs ''type'' = Some (JStr ''array'') \<Longrightarrow>
   weight (items_or_empty (JObj kvs)) < Suc (weight_members kvs)"
proof (cases "as_truthy (map_of kvs ''items'')")
  case None
  assume "map_of kvs ''type'' = Some (JStr ''array'')"
  from weight_map_of [OF this] None show ?thesis by (simp add: items_or_empty_def)
next
  case (Some i)
  then have "map_of kvs ''items'' = Some i"
    by (simp add: as_truthy_def split: if_splits)
  from weight_map_of [OF this] Some show ?thesis by (simp add: items_or_empty_def)
qed

lemma weight_items_or_empty_spread:
  "weight (items_or_empty (JObj kvs)) < Suc (weight_members (spread_type kvs (JArr (t # ts))))"
proof (cases "as_truthy (map_of kvs ''items'')")
  case None
  with weight_spread_ge [of "JArr (t # ts)" kvs] show ?thesis by (simp add: items_or_empty_def)
next
  case (Some i)
  then have "map_of kvs ''items'' = Some i"
    by (simp add: as_truthy_def split: if_splits)
  then have "map_of (spread_type kvs (JArr (t # ts))) ''items'' = Some i"
    by (simp add: map_of_spread_other)
  from weight_map_of [OF this] Some show ?thesis by (simp add: items_or_empty_def)
qed

lemma weight_type_only:
  "as_array (map_of kvs k) = Some [] \<Longrightarrow> as_truthy (map_of kvs ''type'') = Some t \<Longrightarrow>
   k \<noteq> ''type'' \<Longrightarrow> weight t < weight_members kvs"
proof -
  assume a: "as_array (map_of kvs k) = Some []" and t: "as_truthy (map_of kvs ''type'') = Some t"
    and k: "k \<noteq> ''type''"
  from a have "map_of kvs k = Some (JArr [])"
    by (cases "map_of kvs k" rule: as_array.cases) auto
  moreover from t have "map_of kvs ''type'' = Some t"
    by (simp add: as_truthy_def split: if_splits)
  ultimately have "weight (JArr []) + weight t \<le> weight_members kvs"
    using k by (rule weight_map_of2)
  then show ?thesis by simp
qed

lemma weight_array_elems:
  "as_array (map_of kvs k) = Some xs \<Longrightarrow> weights xs < weight_members kvs"
proof -
  assume "as_array (map_of kvs k) = Some xs"
  then have "map_of kvs k = Some (JArr xs)"
    by (cases "map_of kvs k" rule: as_array.cases) auto
  from weight_map_of [OF this] show ?thesis by simp
qed

lemma weight_spread_le:
  "weight t \<le> weight t' \<Longrightarrow> weight_members (spread_type kvs t) \<le> weight_members (spread_type kvs t')"
  by (induction kvs) auto

lemma weight_object_member:
  "map_of kvs k = Some (JObj x) \<Longrightarrow> weight_members x < weight_members kvs"
  using weight_map_of [of kvs k "JObj x"] by simp

lemma weight_spread_array_same:
  "as_array (map_of kvs ''type'') = Some ts \<Longrightarrow>
   weight_members (spread_type kvs (JArr ts)) = weight_members kvs"
proof -
  assume "as_array (map_of kvs ''type'') = Some ts"
  then have "map_of kvs ''type'' = Some (JArr ts)"
    by (cases "map_of kvs ''type''" rule: as_array.cases) auto
  then show ?thesis by (rule weight_spread_same)
qed

lemma weight_array_elems_Suc:
  "as_array (map_of kvs k) = Some xs \<Longrightarrow> weights xs < Suc (weight_members kvs)"
  using weight_array_elems [of kvs k xs] by simp

lemma weight_spread_tail:
  "weight_members (spread_type kvs (JArr ts)) < weight_members (spread_type kvs (JArr (t # ts))) \<or>
   weight_members (spread_type kvs (JArr ts)) = weight_members (spread_type kvs (JArr (t # ts)))"
  using weight_spread_le [of "JArr ts" "JArr (t # ts)" kvs] by auto

lemma weight_spread_object:
  "weight_members (spread_type kvs (JStr ''object''))
     < weight_members (spread_type kvs (JArr (JStr ''object'' # ts)))"
  by (rule weight_spread_mono) simp

lemma zero_less_or_zero: "0 < (n::nat) \<or> n = 0"
  by arith


lemma weight_composition:
  "as_array (map_of kvs k) = Some xs \<Longrightarrow> k \<noteq> ''type'' \<Longrightarrow>
   Suc (weights xs + (case as_truthy (map_of kvs ''type'') of None \<Rightarrow> 0 | Some t \<Rightarrow> weight t))
     < weight_members kvs \<or>
   Suc (weights xs + (case as_truthy (map_of kvs ''type'') of None \<Rightarrow> 0 | Some t \<Rightarrow> weight t))
     = weight_members kvs"
proof -
  assume a: "as_array (map_of kvs k) = Some xs" and k: "k \<noteq> ''type''"
  from a have m: "map_of kvs k = Some (JArr xs)"
    by (cases "map_of kvs k" rule: as_array.cases) auto
  show ?thesis
  proof (cases "as_truthy (map_of kvs ''type'')")
    case None
    with weight_map_of [OF m] show ?thesis by auto
  next
    case (Some t)
    then have "map_of kvs ''type'' = Some t"
      by (simp add: as_truthy_def split: if_splits)
    from weight_map_of2 [OF m this k] Some show ?thesis by auto
  qed
qed

function (sequential) typeFromSchema :: "ctx \<Rightarrow> json \<Rightarrow> state \<Rightarrow> error + (string \<times> state)"
  and typeFromComposition ::
    "ctx \<Rightarrow> (string \<times> json) list \<Rightarrow> string \<Rightarrow> json list \<Rightarrow> state \<Rightarrow> error + (string \<times> state)"
  and typeFromKind :: "ctx \<Rightarrow> (string \<times> json) list \<Rightarrow> state \<Rightarrow> error + (string \<times> state)"
  and typeFromObject :: "ctx \<Rightarrow> (string \<times> json) list \<Rightarrow> state \<Rightarrow> error + (string \<times> state)"
  and typeFromSchemas :: "ctx \<Rightarrow> json list \<Rightarrow> state \<Rightarrow> error + (string list \<times> state)"
  and typeFromProps ::
    "ctx \<Rightarrow> json \<Rightarrow> (string \<times> json) list \<Rightarrow> state \<Rightarrow> error + (string \<times> state)"
  and typeFromTypes ::
    "ctx \<Rightarrow> (string \<times> json) list \<Rightarrow> json list \<Rightarrow> state \<Rightarrow> error + (string list \<times> state)"
where
  "typeFromSchema c (JObj kvs) st =
     (case as_truthy (map_of kvs ''$ref'') of
        Some r \<Rightarrow> ref_branch c r st
      | None \<Rightarrow>
     (case as_array (map_of kvs ''enum'') of
        Some vs \<Rightarrow> enum_branch c (JObj kvs) vs st
      | None \<Rightarrow>
     (case map_of kvs ''const'' of
        Some v \<Rightarrow> const_branch c (JObj kvs) v st
      | None \<Rightarrow>
     (case as_array (map_of kvs ''oneOf'') of
        Some xs \<Rightarrow> typeFromComposition c kvs '' | '' xs st
      | None \<Rightarrow>
     (case as_array (map_of kvs ''anyOf'') of
        Some xs \<Rightarrow> typeFromComposition c kvs '' | '' xs st
      | None \<Rightarrow>
     (case as_array (map_of kvs ''allOf'') of
        Some xs \<Rightarrow> typeFromComposition c kvs '' & '' xs st
      | None \<Rightarrow> typeFromKind c kvs st))))))"
| "typeFromSchema c (JArr xs) st = Inr (''unknown'', st)"
| "typeFromSchema c v st = Inr (''any'', st)"
| "typeFromComposition c kvs sep xs st =
     (if xs = [] then
        (case as_truthy (map_of kvs ''type'') of
           Some t \<Rightarrow> typeFromSchema c (JObj [(''type'', t)]) st
         | None \<Rightarrow> Inr (''unknown'', st))
      else
        (case typeFromSchemas c xs st of
           Inl e \<Rightarrow> Inl e
         | Inr (ts, st1) \<Rightarrow> Inr (join sep ts, st1)))"
| "typeFromKind c kvs st =
     (if map_of kvs ''type'' = Some (JStr ''array'') then
        (case typeFromSchema c (items_or_empty (JObj kvs)) st of
           Inl e \<Rightarrow> Inl e
         | Inr (itemType, st1) \<Rightarrow> Inr (wrap_array itemType, st1))
      else if map_of kvs ''type'' = Some (JStr ''object'') \<or> truthy (map_of kvs ''properties'')
        then typeFromObject c kvs st
      else
        (case as_array (map_of kvs ''type'') of
           Some ts \<Rightarrow>
             (case typeFromTypes c kvs ts st of
                Inl e \<Rightarrow> Inl e
              | Inr (mapped, st1) \<Rightarrow> Inr (join '' | '' mapped, st1))
         | None \<Rightarrow> Inr (primitive_type (map_of kvs ''type''), st)))"
| "typeFromObject c kvs st =
     (case typeFromProps c (required_or_empty kvs) (object_entries (properties_or_empty kvs)) st of
        Inl e \<Rightarrow> Inl e
      | Inr (body, st1) \<Rightarrow>
          (case map_of kvs ''additionalProperties'' of
             Some (JBool True) \<Rightarrow>
               Inr (''{'' @ nl @ body @ ''  [key: string]: unknown;'' @ nl @ ''}'', st1)
           | Some (JObj aps) \<Rightarrow>
               (case typeFromSchema c (JObj aps) st1 of
                  Inl e \<Rightarrow> Inl e
                | Inr (apType, st2) \<Rightarrow>
                    Inr (''{'' @ nl @ body @ ''  [key: string]: '' @ apType @ '';'' @ nl @ ''}'', st2))
           | _ \<Rightarrow> Inr (''{'' @ nl @ body @ ''}'', st1)))"
| "typeFromSchemas c [] st = Inr ([], st)"
| "typeFromSchemas c (x # xs) st =
     (case typeFromSchema c x st of
        Inl e \<Rightarrow> Inl e
      | Inr (t, st1) \<Rightarrow>
          (case typeFromSchemas c xs st1 of
             Inl e \<Rightarrow> Inl e
           | Inr (ts, st2) \<Rightarrow> Inr (t # ts, st2)))"
| "typeFromProps c required [] st = Inr ([], st)"
| "typeFromProps c required ((propName, propSchema) # rest) st =
     (case prop_mapped c propName propSchema st of
        Inl e \<Rightarrow> Inl e
      | Inr (mapped, st1) \<Rightarrow>
          (case (case mapped of
                   Some t \<Rightarrow> Inr (t, st1)
                 | None \<Rightarrow> typeFromSchema c propSchema st1) of
             Inl e \<Rightarrow> Inl e
           | Inr (tsType, st2) \<Rightarrow>
               (case prop_line required propName propSchema tsType of
                  Inl e \<Rightarrow> Inl e
                | Inr line \<Rightarrow>
                    (case typeFromProps c required rest st2 of
                       Inl e \<Rightarrow> Inl e
                     | Inr (body, st3) \<Rightarrow> Inr (line @ body, st3)))))"
| "typeFromTypes c kvs [] st = Inr ([], st)"
| "typeFromTypes c kvs (t # ts) st =
     (case (if t = JStr ''string'' then Inr (''string'', st)
            else if t = JStr ''integer'' \<or> t = JStr ''number'' then Inr (''number'', st)
            else if t = JStr ''boolean'' then Inr (''boolean'', st)
            else if t = JStr ''null'' then Inr (''null'', st)
            else if t = JStr ''array'' then
              (case typeFromSchema c (items_or_empty (JObj kvs)) st of
                 Inl e \<Rightarrow> Inl e
               | Inr (itemType, st1) \<Rightarrow> Inr (wrap_array itemType, st1))
            else if t = JStr ''object'' then
              typeFromSchema c (JObj (spread_type kvs (JStr ''object''))) st
            else Inr (''unknown'', st)) of
        Inl e \<Rightarrow> Inl e
      | Inr (x, st1) \<Rightarrow>
          (case typeFromTypes c kvs ts st1 of
             Inl e \<Rightarrow> Inl e
           | Inr (xs, st2) \<Rightarrow> Inr (x # xs, st2)))"
  by pat_completeness auto

termination
  apply (relation "measures
     [\<lambda>x. case x of
          Inl (Inl (c, s, st)) \<Rightarrow> weight s
        | Inl (Inr (Inl (c, kvs, sep, xs, st))) \<Rightarrow>
            Suc (Suc (weights xs +
              (case as_truthy (map_of kvs ''type'') of None \<Rightarrow> 0 | Some t \<Rightarrow> weight t)))
        | Inl (Inr (Inr (c, kvs, st))) \<Rightarrow> weight (JObj kvs)
        | Inr (Inl (Inl (c, kvs, st))) \<Rightarrow> weight (JObj kvs)
        | Inr (Inl (Inr (c, xs, st))) \<Rightarrow> weights xs
        | Inr (Inr (Inl (c, r, ps, st))) \<Rightarrow> weight_members ps
        | Inr (Inr (Inr (c, kvs, ts, st))) \<Rightarrow> weight (JObj (spread_type kvs (JArr ts))),
      \<lambda>x. case x of
          Inl (Inl (c, s, st)) \<Rightarrow> 3
        | Inl (Inr (Inl (c, kvs, sep, xs, st))) \<Rightarrow> 0
        | Inl (Inr (Inr (c, kvs, st))) \<Rightarrow> 2
        | Inr (Inl (Inl (c, kvs, st))) \<Rightarrow> 1
        | Inr (Inl (Inr (c, xs, st))) \<Rightarrow> 4
        | Inr (Inr (Inl (c, r, ps, st))) \<Rightarrow> 4
        | Inr (Inr (Inr (c, kvs, ts, st))) \<Rightarrow> 0,
      \<lambda>x. case x of
          Inr (Inl (Inr (c, xs, st))) \<Rightarrow> length xs
        | Inr (Inr (Inl (c, r, ps, st))) \<Rightarrow> length ps
        | Inr (Inr (Inr (c, kvs, ts, st))) \<Rightarrow> length ts
        | _ \<Rightarrow> 0]")
  apply (simp_all add: weight_items_or_empty weight_properties_or_empty weight_object_member
      weight_spread_array_same weight_array_elems_Suc weight_composition
      weight_items_or_empty_spread weight_spread_object weight_spread_tail zero_less_or_zero)
  done

section \<open>Schema to validator text\<close>

abbreviation pure :: string where
  "pure \<equiv> ''/* @__PURE__ */ ''"

definition zPrimitive :: "json option \<Rightarrow> string" where
  "zPrimitive t =
     (if t = Some (JStr ''string'') then pure @ ''z.string()''
      else if t = Some (JStr ''number'') \<or> t = Some (JStr ''integer'') then pure @ ''z.number()''
      else if t = Some (JStr ''boolean'') then pure @ ''z.boolean()''
      else if t = Some (JStr ''null'') then pure @ ''z.null()''
      else pure @ ''z.unknown()'')"

definition applyChecks :: "string \<Rightarrow> string list \<Rightarrow> string" where
  "applyChecks expr checks =
     (if checks \<noteq> [] then expr @ ''.check('' @ join '', '' checks @ '')'' else expr)"

text \<open>\<^verbatim>\<open>if (typeof schema.key === "number") checks.push(`/* @__PURE__ */ z.name(${schema.key})`)\<close>\<close>

definition number_check :: "json \<Rightarrow> string \<Rightarrow> string \<Rightarrow> string list" where
  "number_check schema key name =
     (case jprop schema key of
        Some (JNum n) \<Rightarrow> [pure @ ''z.'' @ name @ ''('' @ n @ '')'']
      | _ \<Rightarrow> [])"

definition applyStringConstraints :: "string \<Rightarrow> json \<Rightarrow> string" where
  "applyStringConstraints expr schema =
     applyChecks expr
       (number_check schema ''minLength'' ''minLength''
        @ number_check schema ''maxLength'' ''maxLength''
        @ (case jprop schema ''pattern'' of
             Some (JStr p) \<Rightarrow> [pure @ ''z.regex('' @ pure @ ''new RegExp('' @ quote p @ ''))'']
           | _ \<Rightarrow> []))"

definition applyNumberConstraints :: "string \<Rightarrow> json \<Rightarrow> string" where
  "applyNumberConstraints expr schema =
     applyChecks expr
       (number_check schema ''multipleOf'' ''multipleOf''
        @ number_check schema ''minimum'' ''minimum''
        @ number_check schema ''maximum'' ''maximum''
        @ number_check schema ''exclusiveMinimum'' ''gt''
        @ number_check schema ''exclusiveMaximum'' ''lt'')"

definition buildNumberBase :: "json \<Rightarrow> string" where
  "buildNumberBase schema =
     (if jprop schema ''format'' = Some (JStr ''int32'') then pure @ ''z.int32()''
      else if jprop schema ''format'' = Some (JStr ''uint32'') then pure @ ''z.uint32()''
      else pure @ ''z.number()'')"

definition applyArrayConstraints :: "string \<Rightarrow> json \<Rightarrow> string" where
  "applyArrayConstraints expr schema =
     applyChecks expr
       (number_check schema ''minItems'' ''minLength''
        @ number_check schema ''maxItems'' ''maxLength'')"

fun is_string :: "json \<Rightarrow> bool" where
  "is_string (JStr s) = True"
| "is_string _ = False"

definition zEnumSchema :: "json list \<Rightarrow> string" where
  "zEnumSchema vs =
     (if list_all is_string vs
      then pure @ ''z.enum(['' @ join '', '' (map json_stringify vs) @ ''])''
      else pure @ ''z.union(['' @
           join '', '' (map (\<lambda>v. pure @ ''z.literal('' @ json_stringify v @ '')'') vs) @ ''])'')"

text \<open>The branch of \<^verbatim>\<open>type === "string"\<close>.\<close>

definition zod_string :: "json \<Rightarrow> string" where
  "zod_string schema =
     (let str = applyStringConstraints (pure @ ''z.string()'') schema;
          format = jprop schema ''format''
      in if format = Some (JStr ''email'') then str @ ''.check('' @ pure @ ''z.email())''
         else if format = Some (JStr ''uri'') \<or> format = Some (JStr ''url'')
           then str @ ''.check('' @ pure @ ''z.url())''
         else if format = Some (JStr ''uuid'') then str @ ''.check('' @ pure @ ''z.uuid())''
         else if format = Some (JStr ''date-time'')
           then str @ ''.check('' @ pure @ ''z.iso.datetime())''
         else str)"

text \<open>The object branch once the entries and the text \<^verbatim>\<open>ap\<close> are known.\<close>

definition zod_object :: "json \<Rightarrow> string list \<Rightarrow> string option \<Rightarrow> string" where
  "zod_object schema entries ap =
     (let body = (if entries \<noteq> [] then ''{ '' @ join '', '' entries @ '' }'' else ''{}'');
          baseObj0 = (if truthy (jprop schema ''required'')
                      then pure @ ''z.strictObject('' @ body @ '')''
                      else pure @ ''z.object('' @ body @ '')'');
          objChecks = number_check schema ''minProperties'' ''minLength''
                      @ number_check schema ''maxProperties'' ''maxLength'';
          baseObj = (if objChecks \<noteq> [] then applyChecks baseObj0 objChecks else baseObj0)
      in case ap of
           None \<Rightarrow> baseObj
         | Some a \<Rightarrow>
             if entries = [] then a
             else pure @ ''z.intersection('' @ baseObj @ '', '' @ a @ '')'')"

text \<open>An empty \<^verbatim>\<open>oneOf\<close>, \<^verbatim>\<open>anyOf\<close> or \<^verbatim>\<open>allOf\<close>:
  \<^verbatim>\<open>schema.type ? zPrimitive(schema.type) : "/* @__PURE__ */ z.undefined()"\<close>\<close>

definition zod_empty_composition :: "(string \<times> json) list \<Rightarrow> string" where
  "zod_empty_composition kvs =
     (if truthy (map_of kvs ''type'') then zPrimitive (map_of kvs ''type'')
      else pure @ ''z.undefined()'')"

lemma weight_spread_elem:
  "weight_members (spread_type kvs t) < weight_members (spread_type kvs (JArr (t # ts)))"
  by (rule weight_spread_mono) simp

function (sequential) zodFromSchema :: "ctx \<Rightarrow> json \<Rightarrow> state \<Rightarrow> error + (string \<times> state)"
  and zodFromKind :: "ctx \<Rightarrow> (string \<times> json) list \<Rightarrow> state \<Rightarrow> error + (string \<times> state)"
  and zodFromObject :: "ctx \<Rightarrow> (string \<times> json) list \<Rightarrow> state \<Rightarrow> error + (string \<times> state)"
  and zodFromSchemas :: "ctx \<Rightarrow> json list \<Rightarrow> state \<Rightarrow> error + (string list \<times> state)"
  and zodFromProps :: "ctx \<Rightarrow> (string \<times> json) list \<Rightarrow> state \<Rightarrow> error + (string list \<times> state)"
  and zodFromTypes ::
    "ctx \<Rightarrow> (string \<times> json) list \<Rightarrow> json list \<Rightarrow> state \<Rightarrow> error + (string list \<times> state)"
where
  "zodFromSchema c (JObj kvs) st =
     (case as_truthy (map_of kvs ''$ref'') of
        Some r \<Rightarrow>
          (case resolveRef r of
             Inl e \<Rightarrow> Inl e
           | Inr t \<Rightarrow> Inr (pure @ ''z.lazy(() => '' @ t @ ''Schema)'', markComponent c t st))
      | None \<Rightarrow>
     (case as_array (map_of kvs ''enum'') of
        Some vs \<Rightarrow> Inr (if vs \<noteq> [] then zEnumSchema vs else pure @ ''z.unknown()'', st)
      | None \<Rightarrow>
     (case map_of kvs ''const'' of
        Some v \<Rightarrow> Inr (pure @ ''z.literal('' @ json_stringify v @ '')'', st)
      | None \<Rightarrow>
     (case as_array (map_of kvs ''oneOf'') of
        Some xs \<Rightarrow>
          (if xs = [] then Inr (zod_empty_composition kvs, st)
           else
             (case zodFromSchemas c xs st of
                Inl e \<Rightarrow> Inl e
              | Inr (zs, st1) \<Rightarrow> Inr (pure @ ''z.union(['' @ join '', '' zs @ ''])'', st1)))
      | None \<Rightarrow>
     (case as_array (map_of kvs ''anyOf'') of
        Some xs \<Rightarrow>
          (if xs = [] then Inr (zod_empty_composition kvs, st)
           else
             (case zodFromSchemas c xs st of
                Inl e \<Rightarrow> Inl e
              | Inr (zs, st1) \<Rightarrow> Inr (pure @ ''z.union(['' @ join '', '' zs @ ''])'', st1)))
      | None \<Rightarrow>
     (case as_array (map_of kvs ''allOf'') of
        Some xs \<Rightarrow>
          (if xs = [] then Inr (zod_empty_composition kvs, st)
           else
             (case zodFromSchemas c xs st of
                Inl e \<Rightarrow> Inl e
              | Inr (zs, st1) \<Rightarrow> Inr (pure @ ''z.intersection('' @ join '', '' zs @ '')'', st1)))
      | None \<Rightarrow>
     (case as_array (map_of kvs ''type'') of
        Some ts \<Rightarrow>
          (case zodFromTypes c kvs ts st of
             Inl e \<Rightarrow> Inl e
           | Inr (variants, st1) \<Rightarrow>
               Inr (pure @ ''z.union(['' @ join '', '' variants @ ''])'', st1))
      | None \<Rightarrow> zodFromKind c kvs st)))))))"
| "zodFromSchema c v st = Inr (pure @ ''z.unknown()'', st)"
| "zodFromKind c kvs st =
     (if map_of kvs ''type'' = Some (JStr ''array'') then
        (case zodFromSchema c (items_or_empty (JObj kvs)) st of
           Inl e \<Rightarrow> Inl e
         | Inr (item, st1) \<Rightarrow>
             Inr (applyArrayConstraints (pure @ ''z.array('' @ item @ '')'') (JObj kvs), st1))
      else if map_of kvs ''type'' = Some (JStr ''object'') \<or> truthy (map_of kvs ''properties'')
        then zodFromObject c kvs st
      else if map_of kvs ''type'' = Some (JStr ''string'') then Inr (zod_string (JObj kvs), st)
      else if map_of kvs ''type'' = Some (JStr ''number'') \<or> map_of kvs ''type'' = Some (JStr ''integer'')
        then Inr (applyNumberConstraints (buildNumberBase (JObj kvs)) (JObj kvs), st)
      else if truthy (map_of kvs ''type'') then Inr (zPrimitive (map_of kvs ''type''), st)
      else Inr (pure @ ''z.unknown()'', st))"
| "zodFromObject c kvs st =
     (case zodFromProps c (object_entries (properties_or_empty kvs)) st of
        Inl e \<Rightarrow> Inl e
      | Inr (entries, st1) \<Rightarrow>
          (case map_of kvs ''additionalProperties'' of
             Some (JBool True) \<Rightarrow>
               Inr (zod_object (JObj kvs) entries
                      (Some (pure @ ''z.record('' @ pure @ ''z.unknown())'')), st1)
           | Some (JObj aps) \<Rightarrow>
               (case zodFromSchema c (JObj aps) st1 of
                  Inl e \<Rightarrow> Inl e
                | Inr (a, st2) \<Rightarrow>
                    Inr (zod_object (JObj kvs) entries
                           (Some (pure @ ''z.record('' @ pure @ ''z.string(), '' @ a @ '')'')), st2))
           | _ \<Rightarrow> Inr (zod_object (JObj kvs) entries None, st1)))"
| "zodFromSchemas c [] st = Inr ([], st)"
| "zodFromSchemas c (x # xs) st =
     (case zodFromSchema c x st of
        Inl e \<Rightarrow> Inl e
      | Inr (z, st1) \<Rightarrow>
          (case zodFromSchemas c xs st1 of
             Inl e \<Rightarrow> Inl e
           | Inr (zs, st2) \<Rightarrow> Inr (z # zs, st2)))"
| "zodFromProps c [] st = Inr ([], st)"
| "zodFromProps c ((k, v) # rest) st =
     (case zodFromSchema c v st of
        Inl e \<Rightarrow> Inl e
      | Inr (z, st1) \<Rightarrow>
          (case zodFromProps c rest st1 of
             Inl e \<Rightarrow> Inl e
           | Inr (zs, st2) \<Rightarrow>
               Inr ((quote k @ '': '' @ z @ (if truthy (jprop v ''nullable'') then ''.nullable()'' else []))
                    # zs, st2)))"
| "zodFromTypes c kvs [] st = Inr ([], st)"
| "zodFromTypes c kvs (t # ts) st =
     (case (if t = JStr ''null'' then Inr (pure @ ''z.null()'', st)
            else zodFromSchema c (JObj (spread_type kvs t)) st) of
        Inl e \<Rightarrow> Inl e
      | Inr (z, st1) \<Rightarrow>
          (case zodFromTypes c kvs ts st1 of
             Inl e \<Rightarrow> Inl e
           | Inr (zs, st2) \<Rightarrow> Inr (z # zs, st2)))"
  by pat_completeness auto

termination
  apply (relation "measures
     [\<lambda>x. case x of
          Inl (Inl (c, s, st)) \<Rightarrow> weight s
        | Inl (Inr (Inl (c, kvs, st))) \<Rightarrow> weight (JObj kvs)
        | Inl (Inr (Inr (c, kvs, st))) \<Rightarrow> weight (JObj kvs)
        | Inr (Inl (c, xs, st)) \<Rightarrow> weights xs
        | Inr (Inr (Inl (c, ps, st))) \<Rightarrow> weight_members ps
        | Inr (Inr (Inr (c, kvs, ts, st))) \<Rightarrow> weight (JObj (spread_type kvs (JArr ts))),
      \<lambda>x. case x of
          Inl (Inl (c, s, st)) \<Rightarrow> 3
        | Inl (Inr (Inl (c, kvs, st))) \<Rightarrow> 2
        | Inl (Inr (Inr (c, kvs, st))) \<Rightarrow> 1
        | Inr (Inl (c, xs, st)) \<Rightarrow> 4
        | Inr (Inr (Inl (c, ps, st))) \<Rightarrow> 4
        | Inr (Inr (Inr (c, kvs, ts, st))) \<Rightarrow> 0,
      \<lambda>x. case x of
          Inr (Inl (c, xs, st)) \<Rightarrow> length xs
        | Inr (Inr (Inl (c, ps, st))) \<Rightarrow> length ps
        | Inr (Inr (Inr (c, kvs, ts, st))) \<Rightarrow> length ts
        | _ \<Rightarrow> 0]")
  apply (simp_all add: weight_items_or_empty weight_properties_or_empty weight_object_member
      weight_spread_array_same weight_array_elems_Suc weight_spread_elem weight_spread_tail
      zero_less_or_zero)
  done


section \<open>Paths: choosing a content type\<close>

definition content_order :: "string list" where
  "content_order =
     [''application/json'', ''application/merge-patch+json'', ''multipart/form-data'',
      ''application/x-www-form-urlencoded'', ''image/png'']"

text \<open>\<^verbatim>\<open>entry && entry.schema\<close> as a condition, with the schema it finds.\<close>

definition carried_schema :: "json option \<Rightarrow> json option" where
  "carried_schema entry = (if truthy entry then as_truthy (oprop entry ''schema'') else None)"

text \<open>The first loop of \<^verbatim>\<open>pickContentType\<close>, over \<^verbatim>\<open>order\<close>.\<close>

fun first_by_order :: "(string \<times> json) list \<Rightarrow> string list \<Rightarrow> (string \<times> json) option" where
  "first_by_order content [] = None"
| "first_by_order content (ct # cts) =
     (case carried_schema (map_of content ct) of
        Some s \<Rightarrow> Some (ct, s)
      | None \<Rightarrow> first_by_order content cts)"

text \<open>Its second loop, over the entries of the content map.\<close>

fun first_available :: "(string \<times> json) list \<Rightarrow> (string \<times> json) option" where
  "first_available [] = None"
| "first_available ((ct, entry) # rest) =
     (case carried_schema (Some entry) of
        Some s \<Rightarrow> Some (ct, s)
      | None \<Rightarrow> first_available rest)"

text \<open>The schema and content type \<^verbatim>\<open>pickContentType\<close> settles on.\<close>

definition chosen_content :: "(string \<times> json) list \<Rightarrow> (string \<times> json) option" where
  "chosen_content content =
     (case first_by_order content content_order of
        Some r \<Rightarrow> Some r
      | None \<Rightarrow> first_available content)"

text \<open>\<^verbatim>\<open>pickContentType\<close> returns \<^verbatim>\<open>{ type, contentType }\<close>, here a pair.\<close>

definition pickContentType ::
  "ctx \<Rightarrow> json option \<Rightarrow> state \<Rightarrow> error + ((string \<times> string) \<times> state)" where
  "pickContentType c content st =
     (case content of
        Some (JObj kvs) \<Rightarrow>
          (case chosen_content kvs of
             Some (ct, s) \<Rightarrow>
               (case typeFromSchema c s st of
                  Inl e \<Rightarrow> Inl e
                | Inr (t, st1) \<Rightarrow> Inr ((t, ct), st1))
           | None \<Rightarrow> Inr ((''unknown'', ''unknown''), st))
      | _ \<Rightarrow> Inr ((''unknown'', ''unknown''), st))"

section \<open>Paths: parameters\<close>

record param =
  pname :: "json option"
  ptype :: string
  prequired :: "json option"

record paramGroups =
  path_group :: "param list"
  query_group :: "param list"
  header_group :: "param list"
  cookie_group :: "param list"

definition empty_groups :: paramGroups where
  "empty_groups = \<lparr> path_group = [], query_group = [], header_group = [], cookie_group = [] \<rparr>"

text \<open>\<^verbatim>\<open>paramGroups[key]?.push(entry)\<close>: a key that is not a group finds nothing, or a
  member of \<^verbatim>\<open>Object.prototype\<close>, which has no method \<^verbatim>\<open>push\<close>.\<close>

definition push_param :: "string \<Rightarrow> param \<Rightarrow> paramGroups \<Rightarrow> error + paramGroups" where
  "push_param key entry g =
     (if key = ''path'' then Inr (g\<lparr>path_group := path_group g @ [entry]\<rparr>)
      else if key = ''query'' then Inr (g\<lparr>query_group := query_group g @ [entry]\<rparr>)
      else if key = ''header'' then Inr (g\<lparr>header_group := header_group g @ [entry]\<rparr>)
      else if key = ''cookie'' then Inr (g\<lparr>cookie_group := cookie_group g @ [entry]\<rparr>)
      else if key \<in> set object_prototype_names then Inl TypeError
      else Inr g)"

text \<open>\<^verbatim>\<open>p.schema || (p.content && Object.values(p.content)[0]?.schema)\<close>\<close>

definition param_schema :: "json \<Rightarrow> json option" where
  "param_schema p =
     (if truthy (jprop p ''schema'') then jprop p ''schema''
      else if truthy (jprop p ''content'') then
        (case jprop p ''content'' of
           Some cnt \<Rightarrow>
             (case object_values cnt of
                [] \<Rightarrow> None
              | v # vs \<Rightarrow> jprop v ''schema'')
         | None \<Rightarrow> None)
      else jprop p ''content'')"

text \<open>\<^verbatim>\<open>p.in || "path"\<close> as a property key.\<close>

definition param_location :: "json \<Rightarrow> string" where
  "param_location p =
     (case as_truthy (jprop p ''in'') of Some l \<Rightarrow> to_str l | None \<Rightarrow> ''path'')"

text \<open>\<^verbatim>\<open>collectParam\<close>: the key \<^verbatim>\<open>p.in || "path"\<close> is converted to a string when it is read.\<close>

definition collectParam ::
  "ctx \<Rightarrow> json option \<Rightarrow> paramGroups \<times> state \<Rightarrow> error + (paramGroups \<times> state)" where
  "collectParam c p gs =
     (case as_truthy p of
        None \<Rightarrow> Inr gs
      | Some pv \<Rightarrow>
          (case (case as_truthy (param_schema pv) of
                   Some s \<Rightarrow> typeFromSchema c s (snd gs)
                 | None \<Rightarrow> Inr (''unknown'', snd gs)) of
             Inl e \<Rightarrow> Inl e
           | Inr (t, st1) \<Rightarrow>
               if \<not> printable_opt (as_truthy (jprop pv ''in'')) then Inl TypeError
               else
                 (case push_param (param_location pv)
                         \<lparr> pname = jprop pv ''name'', ptype = t, prequired = jprop pv ''required'' \<rparr>
                         (fst gs) of
                    Inl e \<Rightarrow> Inl e
                  | Inr g \<Rightarrow> Inr (g, st1))))"

text \<open>\<^verbatim>\<open>Array.isArray(v) ? v : []\<close>\<close>

definition array_or_empty :: "json option \<Rightarrow> json list" where
  "array_or_empty v = (case as_array v of Some xs \<Rightarrow> xs | None \<Rightarrow> [])"

text \<open>\<^verbatim>\<open>[...inheritedParams, ...(Array.isArray(op.parameters) ? op.parameters : [])]\<close>\<close>

definition mergedParams :: "json \<Rightarrow> json \<Rightarrow> json list" where
  "mergedParams methods op =
     array_or_empty (jprop methods ''parameters'') @ array_or_empty (jprop op ''parameters'')"

text \<open>The loop over \<^verbatim>\<open>mergedParams\<close>.\<close>

fun collect_params ::
  "ctx \<Rightarrow> json list \<Rightarrow> paramGroups \<times> state \<Rightarrow> error + (paramGroups \<times> state)" where
  "collect_params c [] gs = Inr gs"
| "collect_params c (p # ps) gs =
     (case (if truthy (jprop p ''$ref'') then
              (case resolveParameterRef c (case jprop p ''$ref'' of Some r \<Rightarrow> r | None \<Rightarrow> JNull) of
                 Inl e \<Rightarrow> Inl e
               | Inr resolved \<Rightarrow>
                   if truthy resolved then collectParam c resolved gs else Inr gs)
            else collectParam c (Some p) gs) of
        Inl e \<Rightarrow> Inl e
      | Inr gs1 \<Rightarrow> collect_params c ps gs1)"

text \<open>\<^verbatim>\<open>paramType(group)\<close> on the list of the group; it converts the names to strings.\<close>

definition paramType_returns :: "param list \<Rightarrow> bool" where
  "paramType_returns arr = list_all (\<lambda>p. printable_opt (pname p)) arr"

fun paramType_fields :: "param list \<Rightarrow> string" where
  "paramType_fields [] = []"
| "paramType_fields (p # ps) =
     ''    '' @ template (pname p) @ (if truthy (prequired p) then [] else ''?'') @ '': ''
     @ ptype p @ '';'' @ nl @ paramType_fields ps"

definition paramType :: "param list \<Rightarrow> string" where
  "paramType arr = (if arr = [] then ''never'' else ''{'' @ nl @ paramType_fields arr @ ''  }'')"


section \<open>Paths: operations\<close>

definition httpMethods :: "string list" where
  "httpMethods = [''get'', ''put'', ''post'', ''delete'', ''patch'', ''options'', ''head'', ''trace'']"

text \<open>\<^verbatim>\<open>toPascal\<close> after \<^verbatim>\<open>toTypeName\<close>: the parts between underscores, each with its first
  character in upper case, joined; the flag says whether a part begins. The characters
  \<^verbatim>\<open>toTypeName\<close> leaves are word characters.\<close>

fun pascal_parts :: "bool \<Rightarrow> string \<Rightarrow> string" where
  "pascal_parts b [] = []"
| "pascal_parts b (ch # cs) =
     (if ch = CHR ''_'' then pascal_parts True cs
      else (if b then to_upper_char ch else ch) # pascal_parts False cs)"

fun toPascal :: "json \<Rightarrow> error + string" where
  "toPascal (JStr n) = Inr (pascal_parts True (toTypeName n))"
| "toPascal _ = Inl TypeError"

record projection =
  pathsListMap :: "(string \<times> string list) list"
  pathsOut :: string
  operationAliasesOut :: string

text \<open>\<^verbatim>\<open>if (!pathsListMap[m].includes(route)) pathsListMap[m].push(route)\<close>\<close>

fun list_route :: "string \<Rightarrow> string \<Rightarrow> (string \<times> string list) list \<Rightarrow> (string \<times> string list) list" where
  "list_route m route [] = []"
| "list_route m route ((k, rs) # rest) =
     (if k = m then (k, if route \<in> set rs then rs else rs @ [route]) # rest
      else (k, rs) # list_route m route rest)"

text \<open>The loop over \<^verbatim>\<open>Object.entries(op.responses)\<close>: \<^verbatim>\<open>resp.content\<close> is read with no guard,
  and a truthy \<^verbatim>\<open>resp.description\<close> is converted with \<^verbatim>\<open>String\<close>.\<close>

fun responses_fields ::
  "ctx \<Rightarrow> (string \<times> json) list \<Rightarrow> state \<Rightarrow> error + (string \<times> state)" where
  "responses_fields c [] st = Inr ([], st)"
| "responses_fields c ((code, resp) # rest) st =
     (if resp = JNull then Inl TypeError
      else
        (case (if truthy (jprop resp ''content'') then pickContentType c (jprop resp ''content'') st
               else Inr ((''unknown'', ''unknown''), st)) of
           Inl e \<Rightarrow> Inl e
         | Inr ((rType, ct), st1) \<Rightarrow>
             if \<not> printable_opt (as_truthy (jprop resp ''description'')) then Inl TypeError
             else
             (case responses_fields c rest st1 of
                Inl e \<Rightarrow> Inl e
              | Inr (text, st2) \<Rightarrow>
                  Inr (''    ''
                       @ (case as_truthy (jprop resp ''description'') of
                            Some d \<Rightarrow>
                              ''/** '' @ map (\<lambda>ch. if ch = CHR 0x0A then CHR '' '' else ch) (to_str d)
                              @ '' */'' @ nl @ ''    ''
                          | None \<Rightarrow> [])
                       @ quote code @ '': '' @ rType @ '';'' @ nl @ text, st2))))"

definition responses_type :: "ctx \<Rightarrow> json \<Rightarrow> state \<Rightarrow> error + (string \<times> state)" where
  "responses_type c op st =
     (case jprop op ''responses'' of
        Some (JObj rs) \<Rightarrow>
          (case responses_fields c rs st of
             Inl e \<Rightarrow> Inl e
           | Inr (text, st1) \<Rightarrow> Inr (''{'' @ nl @ text @ ''  }'', st1))
      | _ \<Rightarrow> Inr (''{'' @ nl @ ''  }'', st))"

definition request_type :: "ctx \<Rightarrow> json \<Rightarrow> state \<Rightarrow> error + (string \<times> state)" where
  "request_type c op st =
     (case as_truthy (jprop op ''requestBody'') of
        Some rb \<Rightarrow>
          (case pickContentType c (jprop rb ''content'') st of
             Inl e \<Rightarrow> Inl e
           | Inr ((t, ct), st1) \<Rightarrow> Inr (t, st1))
      | None \<Rightarrow> Inr (''undefined'', st))"

text \<open>The three aliases of an operation that has an \<^verbatim>\<open>operationId\<close>.\<close>

definition operation_aliases :: "string \<Rightarrow> string \<Rightarrow> json \<Rightarrow> error + string" where
  "operation_aliases route m op =
     (case as_truthy (jprop op ''operationId'') of
        None \<Rightarrow> Inr []
      | Some opId \<Rightarrow>
          (case toPascal opId of
             Inl e \<Rightarrow> Inl e
           | Inr opTypeName \<Rightarrow>
               (let pathAccessor = ''Paths['' @ quote route @ ''][''  @ quote m @ '']''
                in Inr (''export type '' @ opTypeName @ ''Params = '' @ pathAccessor
                          @ ''['' @ dq @ ''parameters'' @ dq @ ''];'' @ nl
                        @ ''export type '' @ opTypeName @ ''RequestBody = '' @ pathAccessor
                          @ ''['' @ dq @ ''requestBody'' @ dq @ ''];'' @ nl
                        @ ''export type '' @ opTypeName @ ''Responses = '' @ pathAccessor
                          @ ''['' @ dq @ ''responses'' @ dq @ ''];'' @ nl @ nl))))"

text \<open>The comment of an operation, \<^verbatim>\<open>op.summary || op.description\<close>.\<close>

definition operation_doc :: "json \<Rightarrow> error + string" where
  "operation_doc op =
     (case as_truthy (js_or (jprop op ''summary'') (jprop op ''description'')) of
        None \<Rightarrow> Inr []
      | Some d \<Rightarrow>
          (case flatten_doc d of
             Inl e \<Rightarrow> Inl e
           | Inr t \<Rightarrow> Inr (''      /** '' @ t @ '' */'' @ nl)))"

text \<open>One entry of \<^verbatim>\<open>Object.entries(methods)\<close>.\<close>

definition project_operation ::
  "ctx \<Rightarrow> string \<Rightarrow> json \<Rightarrow> string \<Rightarrow> json \<Rightarrow> projection \<times> state \<Rightarrow>
   error + (projection \<times> state)" where
  "project_operation c route methods method op ps =
     (if \<not> is_object_like (Some op) then Inr ps
      else if toLowerCase method \<notin> set httpMethods then Inr ps
      else
        (let m = toLowerCase method; pr = fst ps; st = snd ps in
         case collect_params c (mergedParams methods op) (empty_groups, st) of
           Inl e \<Rightarrow> Inl e
         | Inr (g, st1) \<Rightarrow>
         (case request_type c op st1 of
            Inl e \<Rightarrow> Inl e
          | Inr (requestType, st2) \<Rightarrow>
         (case responses_type c op st2 of
            Inl e \<Rightarrow> Inl e
          | Inr (responses, st3) \<Rightarrow>
         (case operation_aliases route m op of
            Inl e \<Rightarrow> Inl e
          | Inr aliases \<Rightarrow>
         (case operation_doc op of
            Inl e \<Rightarrow> Inl e
          | Inr doc_text \<Rightarrow>
              if \<not> (paramType_returns (path_group g) \<and> paramType_returns (query_group g) \<and>
                     paramType_returns (header_group g) \<and> paramType_returns (cookie_group g))
              then Inl TypeError
              else
              Inr (\<lparr> pathsListMap = list_route m route (pathsListMap pr),
                     pathsOut = pathsOut pr
                       @ ''    '' @ m @ '': {'' @ nl
                       @ doc_text
                       @ ''      parameters: {'' @ nl
                       @ ''        path?: '' @ paramType (path_group g) @ '';'' @ nl
                       @ ''        query?: '' @ paramType (query_group g) @ '';'' @ nl
                       @ ''        header?: '' @ paramType (header_group g) @ '';'' @ nl
                       @ ''        cookie?: '' @ paramType (cookie_group g) @ '';'' @ nl
                       @ ''      };'' @ nl
                       @ ''      requestBody?: '' @ requestType @ '';'' @ nl
                       @ ''      responses: '' @ responses @ '';'' @ nl
                       @ ''    };'' @ nl,
                     operationAliasesOut = operationAliasesOut pr @ aliases \<rparr>,
                   st3)))))))"

fun project_operations ::
  "ctx \<Rightarrow> string \<Rightarrow> json \<Rightarrow> (string \<times> json) list \<Rightarrow> projection \<times> state \<Rightarrow>
   error + (projection \<times> state)" where
  "project_operations c route methods [] ps = Inr ps"
| "project_operations c route methods ((method, op) # rest) ps =
     (case project_operation c route methods method op ps of
        Inl e \<Rightarrow> Inl e
      | Inr ps1 \<Rightarrow> project_operations c route methods rest ps1)"

text \<open>The loop over \<^verbatim>\<open>Object.entries(openapi.paths || {})\<close>; \<^verbatim>\<open>Object.entries(methods)\<close> fails
  on \<^verbatim>\<open>null\<close>.\<close>

fun project_routes ::
  "ctx \<Rightarrow> (string \<times> json) list \<Rightarrow> projection \<times> state \<Rightarrow> error + (projection \<times> state)" where
  "project_routes c [] ps = Inr ps"
| "project_routes c ((route, methods) # rest) ps =
     (if methods = JNull then Inl TypeError
      else
        (case project_operations c route methods (object_entries methods)
                (fst ps\<lparr>pathsOut := pathsOut (fst ps) @ ''  '' @ quote route @ '': {'' @ nl\<rparr>, snd ps) of
           Inl e \<Rightarrow> Inl e
         | Inr (pr, st1) \<Rightarrow>
             project_routes c rest (pr\<lparr>pathsOut := pathsOut pr @ ''  };'' @ nl\<rparr>, st1)))"

text \<open>\<^verbatim>\<open>openapi.paths || {}\<close>\<close>

definition paths_entries :: "json \<Rightarrow> (string \<times> json) list" where
  "paths_entries openapi =
     (case as_truthy (jprop openapi ''paths'') of Some p \<Rightarrow> object_entries p | None \<Rightarrow> [])"

definition init_projection :: projection where
  "init_projection =
     \<lparr> pathsListMap = map (\<lambda>m. (m, [])) httpMethods,
       pathsOut = ''export interface Paths {'' @ nl,
       operationAliasesOut = [] \<rparr>"

text \<open>The lines of \<^verbatim>\<open>pathsList\<close>, for the type module (\<open>frozen = False\<close>) and for the
  JavaScript module.\<close>

fun pathsList_lines :: "bool \<Rightarrow> (string \<times> string list) list \<Rightarrow> string" where
  "pathsList_lines frozen [] = []"
| "pathsList_lines frozen ((m, routes) # rest) =
     (if routes = [] then []
      else ''  '' @ m @ '': ''
           @ (if frozen then pure @ ''Object.freeze(['' @ join '', '' (map quote routes) @ ''])''
              else ''['' @ join '', '' (map quote routes) @ '']'')
           @ '','' @ nl)
     @ pathsList_lines frozen rest"


section \<open>Marking what the paths reach\<close>

text \<open>
  \<^verbatim>\<open>markSchema\<close> follows a reference into \<^verbatim>\<open>components.schemas\<close> and stops at a node it has
  entered before. The recursion is bounded here by a number of steps: \<open>None\<close> says that
  the bound was reached before the walk ended.
\<close>

type_synonym marking = "(error + state) option"

fun for_each :: "(nat \<Rightarrow> 'a \<Rightarrow> state \<Rightarrow> marking) \<Rightarrow> nat \<Rightarrow> 'a list \<Rightarrow> state \<Rightarrow> marking" where
  "for_each f i [] st = Some (Inr st)"
| "for_each f i (x # xs) st =
     (case f i x st of
        Some (Inr st1) \<Rightarrow> for_each f (Suc i) xs st1
      | r \<Rightarrow> r)"

definition and_then :: "marking \<Rightarrow> (state \<Rightarrow> marking) \<Rightarrow> marking" where
  "and_then m f = (case m of Some (Inr st) \<Rightarrow> f st | r \<Rightarrow> r)"

text \<open>\<^verbatim>\<open>if (schema.key) schema.key.forEach(markSchema)\<close>: only an array has \<^verbatim>\<open>forEach\<close>.\<close>

definition mark_each ::
  "(loc \<Rightarrow> json \<Rightarrow> state \<Rightarrow> marking) \<Rightarrow> loc \<Rightarrow> string \<Rightarrow> json \<Rightarrow> state \<Rightarrow> marking" where
  "mark_each mk l key schema st =
     (if truthy (jprop schema key) then
        (case as_array (jprop schema key) of
           Some xs \<Rightarrow> for_each (\<lambda>i x. mk (l @ [key, show_nat i]) x) 0 xs st
         | None \<Rightarrow> Some (Inl TypeError))
      else Some (Inr st))"

text \<open>\<^verbatim>\<open>if (schema.key) markSchema(schema.key)\<close>\<close>

definition mark_child ::
  "(loc \<Rightarrow> json \<Rightarrow> state \<Rightarrow> marking) \<Rightarrow> loc \<Rightarrow> string \<Rightarrow> json \<Rightarrow> state \<Rightarrow> marking" where
  "mark_child mk l key schema st =
     (case as_truthy (jprop schema key) of
        Some v \<Rightarrow> mk (l @ [key]) v st
      | None \<Rightarrow> Some (Inr st))"

text \<open>\<^verbatim>\<open>if (schema.properties) for (const prop of Object.values(schema.properties)) markSchema(prop)\<close>\<close>

definition mark_properties ::
  "(loc \<Rightarrow> json \<Rightarrow> state \<Rightarrow> marking) \<Rightarrow> loc \<Rightarrow> json \<Rightarrow> state \<Rightarrow> marking" where
  "mark_properties mk l schema st =
     (case as_truthy (jprop schema ''properties'') of
        Some ps \<Rightarrow>
          for_each (\<lambda>i kv. mk (l @ [''properties'', fst kv]) (snd kv)) 0 (object_entries ps) st
      | None \<Rightarrow> Some (Inr st))"

text \<open>\<^verbatim>\<open>if (schema.additionalProperties && isObject(schema.additionalProperties)) ...\<close>\<close>

definition mark_additional ::
  "(loc \<Rightarrow> json \<Rightarrow> state \<Rightarrow> marking) \<Rightarrow> loc \<Rightarrow> json \<Rightarrow> state \<Rightarrow> marking" where
  "mark_additional mk l schema st =
     (if isObject (jprop schema ''additionalProperties'') then
        mark_child mk l ''additionalProperties'' schema st
      else Some (Inr st))"

fun markSchema :: "nat \<Rightarrow> ctx \<Rightarrow> loc \<Rightarrow> json \<Rightarrow> state \<Rightarrow> marking" where
  "markSchema 0 c l schema st = None"
| "markSchema (Suc n) c l schema st =
     (if \<not> is_object_like (Some schema) then Some (Inr st)
      else if l \<in> visited st then Some (Inr st)
      else
        (let st0 = st\<lparr>visited := insert l (visited st)\<rparr> in
         case as_truthy (jprop schema ''$ref'') of
           Some r \<Rightarrow>
             (case resolveRef r of
                Inl e \<Rightarrow> Some (Inl e)
              | Inr refName \<Rightarrow>
                  (case as_truthy (oprop (schemas c) refName) of
                     Some target \<Rightarrow>
                       markSchema n c [''components'', ''schemas'', refName] target
                         (markComponent c refName st0)
                   | None \<Rightarrow> Some (Inr (markComponent c refName st0))))
         | None \<Rightarrow>
             and_then (mark_each (\<lambda>l' s' st'. markSchema n c l' s' st') l ''oneOf'' schema st0) (\<lambda>st1.
             and_then (mark_each (\<lambda>l' s' st'. markSchema n c l' s' st') l ''anyOf'' schema st1) (\<lambda>st2.
             and_then (mark_each (\<lambda>l' s' st'. markSchema n c l' s' st') l ''allOf'' schema st2) (\<lambda>st3.
             and_then (mark_child (\<lambda>l' s' st'. markSchema n c l' s' st') l ''items'' schema st3) (\<lambda>st4.
             and_then (mark_properties (\<lambda>l' s' st'. markSchema n c l' s' st') l schema st4) (\<lambda>st5.
             and_then (mark_additional (\<lambda>l' s' st'. markSchema n c l' s' st') l schema st5) (\<lambda>st6.
             and_then (mark_child (\<lambda>l' s' st'. markSchema n c l' s' st') l ''not'' schema st6) (\<lambda>st7.
             and_then (mark_child (\<lambda>l' s' st'. markSchema n c l' s' st') l ''then'' schema st7) (\<lambda>st8.
             mark_child (\<lambda>l' s' st'. markSchema n c l' s' st') l ''else'' schema st8))))))))))"

text \<open>\<^verbatim>\<open>markContent\<close>: the JSON entry alone when it carries a schema, every entry that
  carries one otherwise.\<close>

definition markContent :: "nat \<Rightarrow> ctx \<Rightarrow> loc \<Rightarrow> json option \<Rightarrow> state \<Rightarrow> marking" where
  "markContent fuel c l content st =
     (case content of
        Some (JObj kvs) \<Rightarrow>
          (let key = (if truthy (map_of kvs ''application/json'') then ''application/json''
                      else ''application/merge-patch+json'')
           in case carried_schema (map_of kvs key) of
                Some s \<Rightarrow> markSchema fuel c (l @ [key, ''schema'']) s st
              | None \<Rightarrow>
                  for_each
                    (\<lambda>i kv st'. case carried_schema (Some (snd kv)) of
                                  Some s \<Rightarrow> markSchema fuel c (l @ [fst kv, ''schema'']) s st'
                                | None \<Rightarrow> Some (Inr st'))
                    0 kvs st)
      | _ \<Rightarrow> Some (Inr st))"

text \<open>The body of the loop over the operations of a route. The route-level parameters
  are read as \<^verbatim>\<open>p?.schema\<close>, those of the operation as \<^verbatim>\<open>p.schema\<close>; neither loop resolves
  a parameter given as a \<^verbatim>\<open>$ref\<close>.\<close>

definition mark_operation ::
  "nat \<Rightarrow> ctx \<Rightarrow> loc \<Rightarrow> json list \<Rightarrow> string \<Rightarrow> json \<Rightarrow> state \<Rightarrow> marking" where
  "mark_operation fuel c l pathParams key op st =
     (if \<not> is_object_like (Some op) then Some (Inr st)
      else
        and_then
          (for_each
             (\<lambda>i p st'. case as_truthy (jprop p ''schema'') of
                           Some s \<Rightarrow> markSchema fuel c (l @ [''parameters'', show_nat i, ''schema'']) s st'
                         | None \<Rightarrow> Some (Inr st'))
             0 pathParams st) (\<lambda>st1.
        and_then
          (case as_array (jprop op ''parameters'') of
             Some ps \<Rightarrow>
               for_each
                 (\<lambda>i p st'. if p = JNull then Some (Inl TypeError)
                             else case as_truthy (jprop p ''schema'') of
                               Some s \<Rightarrow>
                                 markSchema fuel c (l @ [key, ''parameters'', show_nat i, ''schema'']) s st'
                             | None \<Rightarrow> Some (Inr st'))
                 0 ps st1
           | None \<Rightarrow> Some (Inr st1)) (\<lambda>st2.
        and_then
          (case as_truthy (jprop op ''requestBody'') of
             Some rb \<Rightarrow>
               if truthy (jprop rb ''content'')
               then markContent fuel c (l @ [key, ''requestBody'', ''content'']) (jprop rb ''content'') st2
               else Some (Inr st2)
           | None \<Rightarrow> Some (Inr st2)) (\<lambda>st3.
          (case jprop op ''responses'' of
             Some (JObj rs) \<Rightarrow>
               for_each
                 (\<lambda>i kv st'. if truthy (jprop (snd kv) ''content'')
                              then markContent fuel c (l @ [key, ''responses'', fst kv, ''content''])
                                     (jprop (snd kv) ''content'') st'
                              else Some (Inr st'))
                 0 rs st3
           | _ \<Rightarrow> Some (Inr st3))))))"

text \<open>The body of the outer loop: \<^verbatim>\<open>Object.values(methods || {})\<close>.\<close>

definition mark_route :: "nat \<Rightarrow> ctx \<Rightarrow> string \<Rightarrow> json \<Rightarrow> state \<Rightarrow> marking" where
  "mark_route fuel c route methods st =
     for_each
       (\<lambda>i kv. mark_operation fuel c [''paths'', route]
                  (array_or_empty (jprop methods ''parameters'')) (fst kv) (snd kv))
       0 (if truthy (Some methods) then object_entries methods else []) st"

definition mark_paths :: "nat \<Rightarrow> ctx \<Rightarrow> json \<Rightarrow> state \<Rightarrow> marking" where
  "mark_paths fuel c openapi st =
     for_each (\<lambda>i kv. mark_route fuel c (fst kv) (snd kv)) 0 (paths_entries openapi) st"


section \<open>Generating the component types and validators\<close>

text \<open>
  What one iteration of the loop over \<^verbatim>\<open>components.schemas\<close> appends to
  \<^verbatim>\<open>componentsOut\<close> and to \<^verbatim>\<open>componentsZodOut\<close>, kept as the list of the pieces appended,
  each with the key of the definition it is for; the text is the concatenation of the
  pieces as \<open>render_ts\<close> and \<open>render_zod\<close> print them.
\<close>

datatype ts_item = TsDoc string | TsExport string string

datatype zod_item = ZodExport string string

fun render_ts :: "ts_item \<Rightarrow> string" where
  "render_ts (TsDoc d) = ''/** '' @ d @ '' */'' @ nl"
| "render_ts (TsExport name t) = ''export type '' @ toTypeName name @ '' = '' @ t @ '';'' @ nl @ nl"

fun render_zod :: "zod_item \<Rightarrow> string" where
  "render_zod (ZodExport name z) =
     ''export const '' @ toTypeName name @ ''Schema = '' @ pure @ z @ '';'' @ nl @ nl"

text \<open>\<^verbatim>\<open>if (doc) componentsOut += `/** ${doc.replace(/\n/g, ' ')} */\n`\<close> for
  \<^verbatim>\<open>doc = schema.description || schema.title || extra\<close>.\<close>

definition component_doc :: "json \<Rightarrow> json option \<Rightarrow> error + ts_item list" where
  "component_doc schema extra =
     (if schema = JNull then Inl TypeError
      else
        (case as_truthy (js_or (js_or (jprop schema ''description'') (jprop schema ''title'')) extra) of
           None \<Rightarrow> Inr []
         | Some d \<Rightarrow>
             (case flatten_doc d of
                Inl e \<Rightarrow> Inl e
              | Inr t \<Rightarrow> Inr [TsDoc t])))"

text \<open>The test that opens the loop body.\<close>

definition component_used :: "string \<Rightarrow> state \<Rightarrow> bool" where
  "component_used name st = (toTypeName name \<in> usedComponents st \<or> name \<in> usedComponents st)"

text \<open>The loop body. When \<^verbatim>\<open>enums[name]\<close> is a member of \<^verbatim>\<open>Object.prototype\<close>, the branch of
  the enumerations is taken and \<^verbatim>\<open>zEnumSchema(e.values)\<close> calls \<^verbatim>\<open>every\<close> on a value that has
  no such method.\<close>

definition gen_component ::
  "ctx \<Rightarrow> string \<Rightarrow> json \<Rightarrow> state \<Rightarrow> error + (ts_item list \<times> zod_item list \<times> state)" where
  "gen_component c name schema st =
     (if \<not> component_used name st then Inr ([], [], st)
      else
        (case enums_at c name of
           Own e \<Rightarrow>
             (case component_doc schema (doc e) of
                Inl err \<Rightarrow> Inl err
              | Inr d \<Rightarrow> Inr (d, [ZodExport name (zEnumSchema (evalues e))], st))
         | Object_function \<Rightarrow> Inl TypeError
         | Prototype_member \<Rightarrow> Inl TypeError
         | Missing \<Rightarrow>
             (case typeFromSchema c schema st of
                Inl err \<Rightarrow> Inl err
              | Inr (tsType, st1) \<Rightarrow>
                  (case zodFromSchema c schema st1 of
                     Inl err \<Rightarrow> Inl err
                   | Inr (zodType, st2) \<Rightarrow>
                       (case component_doc schema None of
                          Inl err \<Rightarrow> Inl err
                        | Inr d \<Rightarrow>
                            Inr (d @ [TsExport name tsType], [ZodExport name zodType], st2))))))"

fun gen_components ::
  "ctx \<Rightarrow> (string \<times> json) list \<Rightarrow> state \<Rightarrow> error + (ts_item list \<times> zod_item list \<times> state)" where
  "gen_components c [] st = Inr ([], [], st)"
| "gen_components c ((name, schema) # rest) st =
     (case gen_component c name schema st of
        Inl err \<Rightarrow> Inl err
      | Inr (ts1, zs1, st1) \<Rightarrow>
          (case gen_components c rest st1 of
             Inl err \<Rightarrow> Inl err
           | Inr (ts2, zs2, st2) \<Rightarrow> Inr (ts1 @ ts2, zs1 @ zs2, st2)))"

section \<open>The whole of \<^verbatim>\<open>build\<close>\<close>

text \<open>\<^verbatim>\<open>s.replaceAll(pat, rep)\<close>; the number counts the characters of a match still to be
  skipped.\<close>

fun replace_from :: "string \<Rightarrow> string \<Rightarrow> nat \<Rightarrow> string \<Rightarrow> string" where
  "replace_from pat rep n [] = []"
| "replace_from pat rep (Suc n) (ch # cs) = replace_from pat rep n cs"
| "replace_from pat rep 0 (ch # cs) =
     (if pat \<noteq> [] \<and> prefix pat (ch # cs) then rep @ replace_from pat rep (length pat - 1) cs
      else ch # replace_from pat rep 0 cs)"

definition replaceAll :: "string \<Rightarrow> string \<Rightarrow> string \<Rightarrow> string" where
  "replaceAll pat rep s = replace_from pat rep 0 s"

text \<open>\<^verbatim>\<open>Object.entries(openapi.components?.schemas ?? {})\<close>\<close>

definition components_entries :: "json \<Rightarrow> (string \<times> json) list" where
  "components_entries openapi =
     (case oprop (jprop openapi ''components'') ''schemas'' of
        None \<Rightarrow> []
      | Some v \<Rightarrow> if v = JNull then [] else object_entries v)"

text \<open>The values every later step reads, once the enumerations are collected.\<close>

definition make_ctx :: "json \<Rightarrow> (string \<times> enum_def) list \<Rightarrow> ctx" where
  "make_ctx openapi es =
     \<lparr> enums = es,
       schemas = oprop (jprop openapi ''components'') ''schemas'',
       parameters = oprop (jprop openapi ''components'') ''parameters'' \<rparr>"

text \<open>What \<^verbatim>\<open>build\<close> has computed when it starts to assemble the files.\<close>

record build_parts =
  ctx_of :: ctx
  final_state :: state
  components_ts :: "ts_item list"
  components_zod :: "zod_item list"
  paths_of :: projection

definition build_parts :: "nat \<Rightarrow> json \<Rightarrow> (error + build_parts) option" where
  "build_parts fuel openapi =
     (if openapi = JNull then Some (Inl TypeError)
      else
        (case collect_enums (components_entries openapi) of
           Inl e \<Rightarrow> Some (Inl e)
         | Inr es \<Rightarrow>
             (let c = make_ctx openapi es in
              case mark_paths fuel c openapi init_state of
                None \<Rightarrow> None
              | Some (Inl e) \<Rightarrow> Some (Inl e)
              | Some (Inr st1) \<Rightarrow>
                  (case gen_components c (components_entries openapi) st1 of
                     Inl e \<Rightarrow> Some (Inl e)
                   | Inr (ts, zs, st2) \<Rightarrow>
                       (case project_routes c (paths_entries openapi) (init_projection, st2) of
                          Inl e \<Rightarrow> Some (Inl e)
                        | Inr (pr, st3) \<Rightarrow>
                            Some (Inr \<lparr> ctx_of = c, final_state = st3, components_ts = ts,
                                        components_zod = zs, paths_of = pr \<rparr>))))))"

abbreviation banner :: string where
  "banner \<equiv> ''/* AUTO-GENERATED. DO NOT EDIT. */'' @ nl @ nl"

text \<open>The three texts handed to \<^verbatim>\<open>Bun.write\<close> (\<open>outputTs\<close> is the variable
  \<^verbatim>\<open>output\<close>); the formatter that runs on the files afterwards is outside the model.\<close>

record build_files =
  outputTs :: string
  outputJs :: string
  outputZod :: string

definition assemble :: "build_parts \<Rightarrow> error + build_files" where
  "assemble p =
     (case assemble_enums (enums (ctx_of p)) (usedEnums (final_state p)) (banner, banner) of
        Inl e \<Rightarrow> Inl e
      | Inr es \<Rightarrow>
     (let pr = paths_of p
      in Inr \<lparr> outputTs =
             fst es @ nl @ ''// Components'' @ nl @ concat (map render_ts (components_ts p)) @ nl
             @ ''// Paths'' @ nl @ pathsOut pr @ ''}'' @ nl @ nl
             @ ''// Paths list'' @ nl
             @ ''export const pathsList = {'' @ nl @ pathsList_lines False (pathsListMap pr)
             @ ''} as const;'' @ nl @ nl
             @ operationAliasesOut pr,
           outputJs =
             snd es @ ''export const pathsList = {'' @ nl @ pathsList_lines True (pathsListMap pr)
             @ ''};'' @ nl @ nl,
           outputZod =
             banner @ ''import * as z from '' @ [CHR 0x27] @ ''zod/mini'' @ [CHR 0x27] @ '';'' @ nl @ nl
             @ replaceAll (pure @ ''/* @__PURE__ */'') ''/* @__PURE__ */''
                 (concat (map render_zod (components_zod p))) \<rparr>))"

definition build :: "nat \<Rightarrow> json \<Rightarrow> (error + build_files) option" where
  "build fuel openapi =
     (case build_parts fuel openapi of
        None \<Rightarrow> None
      | Some (Inl e) \<Rightarrow> Some (Inl e)
      | Some (Inr p) \<Rightarrow> Some (assemble p))"


section \<open>The single-literal lookup\<close>

text \<open>The test \<^verbatim>\<open>idx >= 0\<close> of the lookups: the enumeration holds the literal.\<close>

definition holds_literal :: "enum_def \<Rightarrow> json \<Rightarrow> bool" where
  "holds_literal e val = (find_index (\<lambda>v. strict_eq v val) (evalues e) \<noteq> None)"

definition option_kinds :: enum_def where
  "option_kinds =
     \<lparr> evalues = [JNum ''1'', JNum ''2''],
       varnames = JArr [JStr ''SUB_COMMAND'', JStr ''SUB_COMMAND_GROUP''],
       descriptions = JArr [], etype = Some (JStr ''integer''), doc = None \<rparr>"

definition component_kinds :: enum_def where
  "component_kinds =
     \<lparr> evalues = [JNum ''1'', JNum ''2'', JNum ''3''],
       varnames = JArr [JStr ''ACTION_ROW'', JStr ''BUTTON'', JStr ''STRING_SELECT''],
       descriptions = JArr [], etype = Some (JStr ''integer''), doc = None \<rparr>"

definition generic_only :: ctx where
  "generic_only =
     \<lparr> enums = [(''ApplicationCommandOptionType'', option_kinds)],
       schemas = None, parameters = None \<rparr>"

definition generic_first :: ctx where
  "generic_first =
     \<lparr> enums = [(''ApplicationCommandOptionType'', option_kinds),
                (''MessageComponentTypes'', component_kinds)],
       schemas = None, parameters = None \<rparr>"

lemma find_member_skipping_all_generic:
  "\<forall>(n, e) \<in> set es. holds_literal e val \<longrightarrow> is_generic n \<Longrightarrow>
   find_member_skipping es val = None"
  by (induction es) (auto simp: holds_literal_def split: option.splits)

lemma find_member_skipping_first:
  "\<forall>(n, e') \<in> set pre. holds_literal e' val \<longrightarrow> is_generic n \<Longrightarrow>
   \<not> is_generic name \<Longrightarrow>
   find_index (\<lambda>v. strict_eq v val) (evalues e) = Some idx \<Longrightarrow>
   find_member_skipping (pre @ (name, e) # post) val = Some (name, e, idx)"
  by (induction pre) (auto simp: holds_literal_def split: option.splits)

text \<open>
  C2, as the code has it. In the lookup of a one-value inline \<^verbatim>\<open>enum\<close> that no
  enumeration matches exactly, an enumeration whose name contains
  \<^verbatim>\<open>CommandOptionType\<close> (in any case) is never chosen: when only such enumerations
  hold the literal the lookup gives \<^verbatim>\<open>null\<close> and marks nothing, and when another
  enumeration holds it too, the result is the qualified member of the first enumeration
  of the table that holds the literal and is not of that name, which is marked used.
\<close>

theorem single_literal_enum_skips_generic:
  assumes "find_exact (enums c) [val] = None"
  shows "((\<forall>(n, e) \<in> set (enums c). holds_literal e val \<longrightarrow> is_generic n) \<longrightarrow>
            mapEnumForEnum c [val] st = Inr (None, st)) \<and>
         (enums c = pre @ (name, e) # post \<and>
          (\<forall>(n, e') \<in> set pre. holds_literal e' val \<longrightarrow> is_generic n) \<and>
          \<not> is_generic name \<and>
          find_index (\<lambda>v. strict_eq v val) (evalues e) = Some idx \<and>
          js_index (varnames e) idx = Some (JStr vn) \<longrightarrow>
            mapEnumForEnum c [val] st =
              Inr (Some (toTypeName name @ ''.'' @ toTypeName vn), markEnumUse c name st))"
proof (intro conjI impI)
  assume "\<forall>(n, e) \<in> set (enums c). holds_literal e val \<longrightarrow> is_generic n"
  then have "find_member_skipping (enums c) val = None"
    by (rule find_member_skipping_all_generic)
  with assms show "mapEnumForEnum c [val] st = Inr (None, st)"
    by (simp add: mapEnumForEnum_def)
next
  assume h: "enums c = pre @ (name, e) # post \<and>
          (\<forall>(n, e') \<in> set pre. holds_literal e' val \<longrightarrow> is_generic n) \<and>
          \<not> is_generic name \<and>
          find_index (\<lambda>v. strict_eq v val) (evalues e) = Some idx \<and>
          js_index (varnames e) idx = Some (JStr vn)"
  then have "find_member_skipping (enums c) val = Some (name, e, idx)"
    by (simp add: find_member_skipping_first)
  with assms h show "mapEnumForEnum c [val] st =
      Inr (Some (toTypeName name @ ''.'' @ toTypeName vn), markEnumUse c name st)"
    by (simp add: mapEnumForEnum_def qualified_member_def)
qed

lemma generic_names:
  "is_generic ''ApplicationCommandOptionType''" "\<not> is_generic ''MessageComponentTypes''"
  by code_simp+

theorem single_literal_enum_skips_generic_witness:
  "mapEnumForEnum generic_only [JNum ''2''] init_state = Inr (None, init_state) \<and>
   mapEnumForEnum generic_first [JNum ''2''] init_state =
     Inr (Some ''MessageComponentTypes.BUTTON'',
          init_state\<lparr>usedEnums := {''MessageComponentTypes''}\<rparr>)"
proof -
  have a: "find_exact (enums generic_only) [JNum ''2''] = None"
    by (simp add: generic_only_def option_kinds_def exact_match_def)
  have b: "find_exact (enums generic_first) [JNum ''2''] = None"
    by (simp add: generic_first_def option_kinds_def component_kinds_def exact_match_def)
  have g: "\<forall>(n, e) \<in> set (enums generic_only). holds_literal e (JNum ''2'') \<longrightarrow> is_generic n"
    by (simp add: generic_only_def generic_names)
  have t: "toTypeName ''MessageComponentTypes'' = ''MessageComponentTypes''"
    "toTypeName ''BUTTON'' = ''BUTTON''"
    by code_simp+
  have m: "markEnumUse generic_first ''MessageComponentTypes'' init_state =
      init_state\<lparr>usedEnums := {''MessageComponentTypes''}\<rparr>"
    by (simp add: markEnumUse_def enums_at_def generic_first_def init_state_def)
  from single_literal_enum_skips_generic [OF a, where st = init_state] g
  have 1: "mapEnumForEnum generic_only [JNum ''2''] init_state = Inr (None, init_state)"
    by blast
  have e: "enums generic_first =
      [(''ApplicationCommandOptionType'', option_kinds)] @
      (''MessageComponentTypes'', component_kinds) # []"
    by (simp add: generic_first_def)
  have p: "\<forall>(n, e') \<in> set [(''ApplicationCommandOptionType'', option_kinds)].
             holds_literal e' (JNum ''2'') \<longrightarrow> is_generic n"
    by (simp add: generic_names)
  have i: "find_index (\<lambda>v. strict_eq v (JNum ''2'')) (evalues component_kinds) = Some 1"
    by (simp add: component_kinds_def)
  have v: "js_index (varnames component_kinds) 1 = Some (JStr ''BUTTON'')"
    by (simp add: component_kinds_def)
  from single_literal_enum_skips_generic [OF b, where st = init_state] e p i v generic_names(2)
  have "mapEnumForEnum generic_first [JNum ''2''] init_state =
     Inr (Some (toTypeName ''MessageComponentTypes'' @ ''.'' @ toTypeName ''BUTTON''),
          markEnumUse generic_first ''MessageComponentTypes'' init_state)"
    by blast
  then have 2: "mapEnumForEnum generic_first [JNum ''2''] init_state =
     Inr (Some ''MessageComponentTypes.BUTTON'',
          init_state\<lparr>usedEnums := {''MessageComponentTypes''}\<rparr>)"
    by (simp add: t m)
  from 1 2 show ?thesis by simp
qed

text \<open>
  The claim as the specification words it fails twice. An enumeration of the generic
  name that alone holds the literal is not chosen by the lookup of an inline
  \<^verbatim>\<open>enum\<close>; and the lookup of a \<^verbatim>\<open>const\<close> skips nothing, so a value held by an
  enumeration of the generic name and by a later one resolves to the member of the
  generic one.
\<close>

theorem generic_enum_fallback_counterexample:
  "mapEnumForEnum generic_only [JNum ''2''] init_state = Inr (None, init_state) \<and>
   mapEnumForConst generic_first (JNum ''2'') init_state =
     Inr (Some ''ApplicationCommandOptionType.SUB_COMMAND_GROUP'',
          init_state\<lparr>usedEnums := {''ApplicationCommandOptionType''}\<rparr>)"
  by code_simp



section \<open>The usage sets only grow\<close>

text \<open>The sets of the second state include those of the first.\<close>

definition grows :: "state \<Rightarrow> state \<Rightarrow> bool" where
  "grows st st' = (usedComponents st \<subseteq> usedComponents st' \<and> usedEnums st \<subseteq> usedEnums st')"

lemma grows_refl [simp]: "grows st st"
  by (simp add: grows_def)

lemma grows_trans: "grows a b \<Longrightarrow> grows b c \<Longrightarrow> grows a c"
  by (auto simp: grows_def)



lemma grows_markEnumUse: "grows st (markEnumUse c n st)"
  by (auto simp: grows_def markEnumUse_def)

lemma grows_markComponent: "grows st (markComponent c n st)"
  by (auto simp: grows_def markComponent_def markEnumUse_def)

lemma grows_mapEnumForEnum: "mapEnumForEnum c vs st = Inr (r, st') \<Longrightarrow> grows st st'"
  by (auto simp: mapEnumForEnum_def grows_markEnumUse split: option.splits list.splits sum.splits)

lemma grows_mapEnumForConst: "mapEnumForConst c v st = Inr (r, st') \<Longrightarrow> grows st st'"
  by (auto simp: mapEnumForConst_def grows_markEnumUse split: option.splits list.splits sum.splits)

lemma grows_mapEnumFromAllOf_loop:
  "mapEnumFromAllOf_loop c vs es st = Inr (r, st') \<Longrightarrow> grows st st'"
  by (induction es)
    (auto simp: grows_markEnumUse Let_def
      split: option.splits list.splits sum.splits if_splits candidates.splits enum_slot.splits)

lemma grows_mapEnumFromAllOf: "mapEnumFromAllOf c vs a st = Inr (r, st') \<Longrightarrow> grows st st'"
  by (cases "(c, vs, a, st)" rule: mapEnumFromAllOf.cases) (auto dest: grows_mapEnumFromAllOf_loop)

lemma grows_mapEnumFromRefs_loop:
  "mapEnumFromRefs_loop c es v st = Inr (r, st') \<Longrightarrow> grows st st'"
  by (induction es)
    (auto simp: grows_markEnumUse Let_def
      split: option.splits list.splits sum.splits if_splits enum_slot.splits)

lemma grows_mapEnumFromRefs: "mapEnumFromRefs c a v st = Inr (r, st') \<Longrightarrow> grows st st'"
  by (cases "(c, a, v, st)" rule: mapEnumFromRefs.cases) (auto dest: grows_mapEnumFromRefs_loop)

lemma grows_allOf_lookup: "allOf_lookup c s vs st = Inr (r, st') \<Longrightarrow> grows st st'"
  by (auto simp: allOf_lookup_def dest: grows_mapEnumFromAllOf split: if_splits)

lemma grows_ref_branch: "ref_branch c r st = Inr (t, st') \<Longrightarrow> grows st st'"
  by (auto simp: ref_branch_def grows_markComponent split: sum.splits)

lemmas grows_lookups =
  grows_mapEnumForEnum [unfolded grows_def] grows_mapEnumForConst [unfolded grows_def]
  grows_mapEnumFromAllOf [unfolded grows_def] grows_mapEnumFromRefs [unfolded grows_def]
  grows_allOf_lookup [unfolded grows_def]

lemma grows_enum_branch: "enum_branch c s vs st = Inr (t, st') \<Longrightarrow> grows st st'"
  unfolding grows_def
  by (auto simp: enum_branch_def split: sum.splits option.splits dest!: grows_lookups) blast+

lemma grows_const_branch: "const_branch c s v st = Inr (t, st') \<Longrightarrow> grows st st'"
  unfolding grows_def
  by (auto simp: const_branch_def split: sum.splits option.splits dest!: grows_lookups) blast+

lemma grows_type_like_lookup: "type_like_lookup c p v vs st = Inr (t, st') \<Longrightarrow> grows st st'"
  unfolding grows_def
  by (auto simp: type_like_lookup_def split: sum.splits option.splits dest!: grows_lookups) blast+

lemma grows_prop_mapped: "prop_mapped c n p st = Inr (t, st') \<Longrightarrow> grows st st'"
  by (auto simp: prop_mapped_def split: sum.splits option.splits if_splits
      dest!: grows_type_like_lookup grows_mapEnumFromAllOf)

lemmas grows_branches =
  grows_ref_branch [unfolded grows_def] grows_enum_branch [unfolded grows_def]
  grows_const_branch [unfolded grows_def] grows_prop_mapped [unfolded grows_def]

lemma grows_typeFromSchema:
  "typeFromSchema c s st = Inr (t, st') \<Longrightarrow> grows st st'"
  "typeFromComposition c kvs sep xs st = Inr (t, st') \<Longrightarrow> grows st st'"
  "typeFromKind c kvs st = Inr (t, st') \<Longrightarrow> grows st st'"
  "typeFromObject c kvs st = Inr (t, st') \<Longrightarrow> grows st st'"
  "typeFromSchemas c xs st = Inr (ts, st') \<Longrightarrow> grows st st'"
  "typeFromProps c rq ps st = Inr (b, st') \<Longrightarrow> grows st st'"
  "typeFromTypes c kvs tys st = Inr (ts, st') \<Longrightarrow> grows st st'"
proof (induction c s st and c kvs sep xs st and c kvs st and c kvs st and c xs st
    and c rq ps st and c kvs tys st
    arbitrary: t st' and t st' and t st' and t st' and ts st' and b st' and ts st'
    rule: typeFromSchema_typeFromComposition_typeFromKind_typeFromObject_typeFromSchemas_typeFromProps_typeFromTypes.induct)
  case (1 c kvs st)
  then show ?case
    by (auto split: option.splits dest: grows_ref_branch grows_enum_branch grows_const_branch)
next
  case (4 c kvs sep xs st)
  then show ?case
    by (auto split: option.splits sum.splits if_splits)
next
  case (5 c kvs st)
  then show ?case
    by (auto split: option.splits sum.splits if_splits)
next
  case (6 c kvs st)
  from "6.prems" obtain body st1 where
    a: "typeFromProps c (required_or_empty kvs) (object_entries (properties_or_empty kvs)) st = Inr (body, st1)"
    by (auto split: sum.splits)
  have g1: "grows st st1" using "6.IH"(1) [OF a] .
  show ?case
  proof (cases "\<exists>aps. map_of kvs ''additionalProperties'' = Some (JObj aps)")
    case True
    then obtain aps where m: "map_of kvs ''additionalProperties'' = Some (JObj aps)" by blast
    with "6.prems" a obtain apType where
      b: "typeFromSchema c (JObj aps) st1 = Inr (apType, st')"
      by (auto split: sum.splits)
    from "6.IH"(2) [OF a refl m refl b] g1 show ?thesis by (blast intro: grows_trans)
  next
    case False
    with "6.prems" a have "st' = st1"
      by (auto split: option.splits json.splits bool.splits)
    with g1 show ?thesis by simp
  qed
next
  case (8 c x xs st)
  from "8.prems" obtain t1 st1 ts1 where
    a: "typeFromSchema c x st = Inr (t1, st1)" and b: "typeFromSchemas c xs st1 = Inr (ts1, st')"
    by (auto split: sum.splits)
  from "8.IH"(1) [OF a] "8.IH"(2) [OF a refl b] show ?case by (rule grows_trans)
next
  case (10 c required propName propSchema rest st)
  from "10.prems" obtain mapped st1 tsType st2 line body where
    a: "prop_mapped c propName propSchema st = Inr (mapped, st1)" and
    b: "(case mapped of None \<Rightarrow> typeFromSchema c propSchema st1 | Some t \<Rightarrow> Inr (t, st1)) = Inr (tsType, st2)" and
    l: "prop_line required propName propSchema tsType = Inr line" and
    d: "typeFromProps c required rest st2 = Inr (body, st')"
    by (auto split: sum.splits)
  have g1: "grows st st1" using a by (rule grows_prop_mapped)
  have g2: "grows st1 st2"
  proof (cases mapped)
    case None
    with b have "typeFromSchema c propSchema st1 = Inr (tsType, st2)" by simp
    from "10.IH"(1) [OF a refl None this] show ?thesis .
  next
    case (Some t)
    with b show ?thesis by simp
  qed
  have g3: "grows st2 st'" using "10.IH"(2) [OF a refl b refl l d] .
  from g1 g2 g3 show ?case by (blast intro: grows_trans)
next
  case (12 c kvs t rest st)
  let ?head = "if t = JStr ''string'' then Inr (''string'', st)
            else if t = JStr ''integer'' \<or> t = JStr ''number'' then Inr (''number'', st)
            else if t = JStr ''boolean'' then Inr (''boolean'', st)
            else if t = JStr ''null'' then Inr (''null'', st)
            else if t = JStr ''array'' then
              (case typeFromSchema c (items_or_empty (JObj kvs)) st of
                 Inl e \<Rightarrow> Inl e
               | Inr (itemType, st1) \<Rightarrow> Inr (wrap_array itemType, st1))
            else if t = JStr ''object'' then
              typeFromSchema c (JObj (spread_type kvs (JStr ''object''))) st
            else Inr (''unknown'', st)"
  from "12.prems" obtain x st1 xs where
    a: "?head = Inr (x, st1)" and b: "typeFromTypes c kvs rest st1 = Inr (xs, st')"
    by (auto split: sum.splits)
  have g1: "grows st st1"
    using a "12.IH"(1) "12.IH"(2) by (auto split: if_splits sum.splits)
  have g2: "grows st1 st'" using "12.IH"(3) [OF a refl b] .
  from g1 g2 show ?case by (rule grows_trans)
qed simp_all


lemma grows_zodFromSchema:
  "zodFromSchema c s st = Inr (z, st') \<Longrightarrow> grows st st'"
  "zodFromKind c kvs st = Inr (z, st') \<Longrightarrow> grows st st'"
  "zodFromObject c kvs st = Inr (z, st') \<Longrightarrow> grows st st'"
  "zodFromSchemas c xs st = Inr (zs, st') \<Longrightarrow> grows st st'"
  "zodFromProps c ps st = Inr (zs, st') \<Longrightarrow> grows st st'"
  "zodFromTypes c kvs tys st = Inr (zs, st') \<Longrightarrow> grows st st'"
proof (induction c s st and c kvs st and c kvs st and c xs st and c ps st and c kvs tys st
    arbitrary: z st' and z st' and z st' and zs st' and zs st' and zs st'
    rule: zodFromSchema_zodFromKind_zodFromObject_zodFromSchemas_zodFromProps_zodFromTypes.induct)
  case (1 c kvs st)
  then show ?case
    by (auto simp: grows_markComponent split: option.splits sum.splits if_splits)
next
  case (3 c kvs st)
  then show ?case
    by (auto split: option.splits sum.splits if_splits)
next
  case (4 c kvs st)
  from "4.prems" obtain entries st1 where
    a: "zodFromProps c (object_entries (properties_or_empty kvs)) st = Inr (entries, st1)"
    by (auto split: sum.splits)
  have g1: "grows st st1" using "4.IH"(1) [OF a] .
  show ?case
  proof (cases "\<exists>aps. map_of kvs ''additionalProperties'' = Some (JObj aps)")
    case True
    then obtain aps where m: "map_of kvs ''additionalProperties'' = Some (JObj aps)" by blast
    with "4.prems" a obtain ap where
      b: "zodFromSchema c (JObj aps) st1 = Inr (ap, st')"
      by (auto split: sum.splits)
    from "4.IH"(2) [OF a refl m refl b] g1 show ?thesis by (blast intro: grows_trans)
  next
    case False
    with "4.prems" a have "st' = st1"
      by (auto split: option.splits json.splits bool.splits)
    with g1 show ?thesis by simp
  qed
next
  case (6 c x xs st)
  from "6.prems" obtain z1 st1 zs1 where
    a: "zodFromSchema c x st = Inr (z1, st1)" and b: "zodFromSchemas c xs st1 = Inr (zs1, st')"
    by (auto split: sum.splits)
  from "6.IH"(1) [OF a] "6.IH"(2) [OF a refl b] show ?case by (rule grows_trans)
next
  case (8 c k v rest st)
  from "8.prems" obtain z1 st1 zs1 where
    a: "zodFromSchema c v st = Inr (z1, st1)" and b: "zodFromProps c rest st1 = Inr (zs1, st')"
    by (auto split: sum.splits)
  from "8.IH"(1) [OF a] "8.IH"(2) [OF a refl b] show ?case by (rule grows_trans)
next
  case (10 c kvs t rest st)
  let ?head = "if t = JStr ''null'' then Inr (pure @ ''z.null()'', st)
            else zodFromSchema c (JObj (spread_type kvs t)) st"
  from "10.prems" obtain x st1 xs where
    a: "?head = Inr (x, st1)" and b: "zodFromTypes c kvs rest st1 = Inr (xs, st')"
    by (auto split: sum.splits)
  have g1: "grows st st1"
    using a "10.IH"(1) by (auto split: if_splits)
  have g2: "grows st1 st'" using "10.IH"(2) [OF a refl b] .
  from g1 g2 show ?case by (rule grows_trans)
qed simp_all

lemma grows_pickContentType: "pickContentType c content st = Inr (r, st') \<Longrightarrow> grows st st'"
  by (auto simp: pickContentType_def split: option.splits json.splits sum.splits
      dest: grows_typeFromSchema(1))

lemma grows_collectParam: "collectParam c p (g, st) = Inr (g', st') \<Longrightarrow> grows st st'"
  by (auto simp: collectParam_def split: option.splits sum.splits if_splits
      dest: grows_typeFromSchema(1))

lemma grows_collect_params: "collect_params c ps (g, st) = Inr (g', st') \<Longrightarrow> grows st st'"
proof (induction ps arbitrary: g st)
  case Nil
  then show ?case by simp
next
  case (Cons p ps)
  from Cons.prems obtain g1 st1 where
    a: "(if truthy (jprop p ''$ref'') then
              (case resolveParameterRef c (case jprop p ''$ref'' of Some r \<Rightarrow> r | None \<Rightarrow> JNull) of
                 Inl e \<Rightarrow> Inl e
               | Inr resolved \<Rightarrow>
                   if truthy resolved then collectParam c resolved (g, st) else Inr (g, st))
            else collectParam c (Some p) (g, st)) = Inr (g1, st1)"
    and b: "collect_params c ps (g1, st1) = Inr (g', st')"
    by (auto split: sum.splits)
  from a have "grows st st1"
    by (auto split: if_splits sum.splits dest: grows_collectParam)
  with Cons.IH [OF b] show ?case by (blast intro: grows_trans)
qed

lemma grows_responses_fields: "responses_fields c rs st = Inr (t, st') \<Longrightarrow> grows st st'"
proof (induction rs arbitrary: st t)
  case Nil
  then show ?case by simp
next
  case (Cons r rs)
  obtain code resp where r: "r = (code, resp)" by (cases r)
  from Cons.prems r obtain rt st1 body where
    a: "(if truthy (jprop resp ''content'') then pickContentType c (jprop resp ''content'') st
         else Inr ((''unknown'', ''unknown''), st)) = Inr (rt, st1)"
    and b: "responses_fields c rs st1 = Inr (body, st')"
    by (auto split: if_splits sum.splits)
  from a have "grows st st1"
    by (auto split: if_splits dest: grows_pickContentType)
  with Cons.IH [OF b] show ?case by (blast intro: grows_trans)
qed

lemma grows_responses_type: "responses_type c op st = Inr (t, st') \<Longrightarrow> grows st st'"
  by (auto simp: responses_type_def split: option.splits json.splits sum.splits
      dest: grows_responses_fields)

lemma grows_request_type: "request_type c op st = Inr (t, st') \<Longrightarrow> grows st st'"
  by (auto simp: request_type_def split: option.splits sum.splits dest: grows_pickContentType)

lemma grows_project_operation:
  assumes "project_operation c route methods method op (pr, st) = Inr (pr', st')"
  shows "grows st st'"
proof (cases "\<not> is_object_like (Some op) \<or> toLowerCase method \<notin> set httpMethods")
  case True
  with assms have "st' = st" by (auto simp: project_operation_def split: if_splits)
  then show ?thesis by simp
next
  case False
  then have o: "is_object_like (Some op)" and m: "toLowerCase method \<in> set httpMethods" by auto
  from assms o m obtain g st1 rq st2 rs where
    a: "collect_params c (mergedParams methods op) (empty_groups, st) = Inr (g, st1)" and
    b: "request_type c op st1 = Inr (rq, st2)" and
    d: "responses_type c op st2 = Inr (rs, st')"
    unfolding project_operation_def Let_def
    by (simp split: sum.splits prod.splits if_splits)
  from grows_collect_params [OF a] grows_request_type [OF b] grows_responses_type [OF d]
  show ?thesis by (blast intro: grows_trans)
qed

lemma grows_project_operations:
  "project_operations c route methods ops (pr, st) = Inr (pr', st') \<Longrightarrow> grows st st'"
proof (induction ops arbitrary: pr st)
  case Nil
  then show ?case by simp
next
  case (Cons x ops)
  obtain verb op where x: "x = (verb, op)" by (cases x)
  from Cons.prems x obtain pr1 st1 where
    a: "project_operation c route methods verb op (pr, st) = Inr (pr1, st1)" and
    b: "project_operations c route methods ops (pr1, st1) = Inr (pr', st')"
    by (auto split: sum.splits)
  from grows_project_operation [OF a] Cons.IH [OF b] show ?case by (rule grows_trans)
qed

lemma grows_project_routes:
  "project_routes c rs (pr, st) = Inr (pr', st') \<Longrightarrow> grows st st'"
proof (induction rs arbitrary: pr st)
  case Nil
  then show ?case by simp
next
  case (Cons x rs)
  obtain route methods where x: "x = (route, methods)" by (cases x)
  from Cons.prems x obtain pr1 st1 where
    a: "project_operations c route methods (object_entries methods)
          (pr\<lparr>pathsOut := pathsOut pr @ ''  '' @ quote route @ '': {'' @ nl\<rparr>, st)
        = Inr (pr1, st1)" and
    b: "project_routes c rs (pr1\<lparr>pathsOut := pathsOut pr1 @ ''  };'' @ nl\<rparr>, st1) = Inr (pr', st')"
    by (auto split: if_splits sum.splits)
  from grows_project_operations [OF a] Cons.IH [OF b] show ?case by (rule grows_trans)
qed

lemma grows_gen_component:
  assumes "gen_component c name schema st = Inr (ts, zs, st')"
  shows "grows st st'"
proof (cases "component_used name st \<and> enums_at c name = Missing")
  case False
  with assms have "st' = st"
    by (auto simp: gen_component_def split: if_splits enum_slot.splits sum.splits)
  then show ?thesis by simp
next
  case True
  with assms obtain tsType st1 zodType where
    a: "typeFromSchema c schema st = Inr (tsType, st1)" and
    b: "zodFromSchema c schema st1 = Inr (zodType, st')"
    by (auto simp: gen_component_def split: sum.splits)
  from grows_typeFromSchema(1) [OF a] grows_zodFromSchema(1) [OF b]
  show ?thesis by (rule grows_trans)
qed

lemma grows_gen_components:
  "gen_components c comps st = Inr (ts, zs, st') \<Longrightarrow> grows st st'"
proof (induction comps arbitrary: st ts zs)
  case Nil
  then show ?case by simp
next
  case (Cons x comps)
  obtain name schema where x: "x = (name, schema)" by (cases x)
  from Cons.prems x obtain ts1 zs1 st1 ts2 zs2 where
    a: "gen_component c name schema st = Inr (ts1, zs1, st1)" and
    b: "gen_components c comps st1 = Inr (ts2, zs2, st')"
    by (auto split: sum.splits)
  from grows_gen_component [OF a] Cons.IH [OF b] show ?case by (rule grows_trans)
qed


section \<open>Usage sets during synthesis\<close>

definition no_enums :: ctx where
  "no_enums = \<lparr> enums = [], schemas = None, parameters = None \<rparr>"

definition ref_X :: json where
  "ref_X = JObj [(''$ref'', JStr ''#/components/schemas/X'')]"

definition marked_X :: state where
  "marked_X = init_state\<lparr>usedComponents := {''X''}\<rparr>"

text \<open>
  C3, as the code has it. The usage sets are not frozen when the marking pass ends:
  type synthesis, validator synthesis, the generation of the components and the
  projection of the paths all mark (a reference marks its target, a successful
  enumeration lookup marks the enumeration). What holds is that the sets only grow:
  each of these calls returns sets that include the sets it was given.
\<close>

theorem usage_sets_append_only:
  "(typeFromSchema c s st = Inr (t, st1) \<longrightarrow>
      usedComponents st \<subseteq> usedComponents st1 \<and> usedEnums st \<subseteq> usedEnums st1) \<and>
   (zodFromSchema c s st = Inr (z, st2) \<longrightarrow>
      usedComponents st \<subseteq> usedComponents st2 \<and> usedEnums st \<subseteq> usedEnums st2) \<and>
   (pickContentType c content st = Inr (r, st3) \<longrightarrow>
      usedComponents st \<subseteq> usedComponents st3 \<and> usedEnums st \<subseteq> usedEnums st3) \<and>
   (gen_components c comps st = Inr (ts, zs, st4) \<longrightarrow>
      usedComponents st \<subseteq> usedComponents st4 \<and> usedEnums st \<subseteq> usedEnums st4) \<and>
   (project_routes c rs (pr, st) = Inr (pr', st5) \<longrightarrow>
      usedComponents st \<subseteq> usedComponents st5 \<and> usedEnums st \<subseteq> usedEnums st5)"
  using grows_typeFromSchema(1) [of c s st t st1] grows_zodFromSchema(1) [of c s st z st2]
    grows_pickContentType [of c content st r st3] grows_gen_components [of c comps st ts zs st4]
    grows_project_routes [of c rs pr st pr' st5]
  unfolding grows_def by blast

theorem usage_sets_append_only_witness:
  "typeFromSchema no_enums ref_X init_state = Inr (''X'', marked_X) \<and>
   zodFromSchema no_enums ref_X init_state = Inr (pure @ ''z.lazy(() => XSchema)'', marked_X) \<and>
   pickContentType no_enums (Some (JObj [(''application/json'', JObj [(''schema'', ref_X)])])) init_state
     = Inr ((''X'', ''application/json''), marked_X) \<and>
   gen_components no_enums [(''X'', JObj [(''type'', JStr ''string'')])] marked_X
     = Inr ([TsExport ''X'' ''string''], [ZodExport ''X'' (pure @ ''z.string()'')], marked_X) \<and>
   project_routes no_enums [] (init_projection, marked_X) = Inr (init_projection, marked_X) \<and>
   usedComponents init_state \<subseteq> usedComponents marked_X \<and>
   usedEnums init_state \<subseteq> usedEnums marked_X"
  using usage_sets_append_only [where c = no_enums and s = ref_X and st = init_state
      and t = "''X''" and ?st1.0 = marked_X]
  by code_simp

text \<open>
  The claim as stated fails: rendering a reference to \<open>X\<close> with empty usage sets returns
  the set of used components with \<open>X\<close> in it, and rendering an inline \<^verbatim>\<open>enum\<close> that equals
  a named enumeration returns the set of used enumerations with that name in it.
\<close>

theorem synthesis_marks_counterexample:
  "typeFromSchema no_enums ref_X init_state = Inr (''X'', init_state\<lparr>usedComponents := {''X''}\<rparr>) \<and>
   typeFromSchema generic_first (JObj [(''enum'', JArr [JNum ''1'', JNum ''2'', JNum ''3''])]) init_state
     = Inr (''MessageComponentTypes'', init_state\<lparr>usedEnums := {''MessageComponentTypes''}\<rparr>)"
  by code_simp


section \<open>References are rendered by name\<close>


text \<open>A registry in which \<open>A\<close> refers to itself and to \<open>B\<close>, and \<open>B\<close> back to \<open>A\<close>.\<close>

definition body_A :: json where
  "body_A = JObj [(''type'', JStr ''object''),
                  (''properties'', JObj [(''next'', JObj [(''$ref'', JStr ''#/components/schemas/A'')]),
                                         (''other'', JObj [(''$ref'', JStr ''#/components/schemas/B'')])])]"

definition body_B :: json where
  "body_B = JObj [(''type'', JStr ''array''), (''items'', JObj [(''$ref'', JStr ''#/components/schemas/A'')])]"

definition cyclic :: ctx where
  "cyclic = \<lparr> enums = [], schemas = Some (JObj [(''A'', body_A), (''B'', body_B)]), parameters = None \<rparr>"



text \<open>The bodies of the two definitions render with the names at the reference sites.\<close>

lemma cyclic_definitions_render:
  "typeFromSchema cyclic body_A init_state
     = Inr (''{'' @ nl @ ''  next?: A;'' @ nl @ ''  other?: B;'' @ nl @ ''}'',
            init_state\<lparr>usedComponents := {''A'', ''B''}\<rparr>)"
  "typeFromSchema cyclic body_B init_state
     = Inr (''A[]'', init_state\<lparr>usedComponents := {''A''}\<rparr>)"
  "zodFromSchema cyclic body_B init_state
     = Inr (pure @ ''z.array('' @ pure @ ''z.lazy(() => ASchema))'',
            init_state\<lparr>usedComponents := {''A''}\<rparr>)"
  by code_simp+


section \<open>The parameters of an operation\<close>

definition locations :: "string list" where
  "locations = [''path'', ''query'', ''header'', ''cookie'']"

text \<open>\<^verbatim>\<open>paramGroups[group]\<close>, as \<^verbatim>\<open>paramType\<close> reads it.\<close>

definition group_of :: "string \<Rightarrow> paramGroups \<Rightarrow> param list" where
  "group_of loc g =
     (if loc = ''path'' then path_group g
      else if loc = ''query'' then query_group g
      else if loc = ''header'' then header_group g
      else if loc = ''cookie'' then cookie_group g
      else [])"

text \<open>The parameter object the loop hands to \<^verbatim>\<open>collectParam\<close> for an entry of the
  merged list: the entry itself, or what its \<^verbatim>\<open>$ref\<close> resolves to in
  \<^verbatim>\<open>components.parameters\<close>; nothing when that is missing or falsy.\<close>

definition effective_param :: "ctx \<Rightarrow> json \<Rightarrow> json option" where
  "effective_param c p =
     (if truthy (jprop p ''$ref'') then
        (case resolveParameterRef c (case jprop p ''$ref'' of Some r \<Rightarrow> r | None \<Rightarrow> JNull) of
           Inl e \<Rightarrow> None
         | Inr resolved \<Rightarrow> as_truthy resolved)
      else as_truthy (Some p))"

text \<open>The name and the flag of an entry of a group, and of a parameter object.\<close>

definition entry_key :: "param \<Rightarrow> json option \<times> json option" where
  "entry_key e = (pname e, prequired e)"

definition param_key :: "json \<Rightarrow> json option \<times> json option" where
  "param_key pv = (jprop pv ''name'', jprop pv ''required'')"

lemma group_of_push:
  "push_param key e g = Inr g' \<Longrightarrow> loc \<in> set locations \<Longrightarrow>
   group_of loc g' = group_of loc g @ (if key = loc then [e] else [])"
proof -
  assume p: "push_param key e g = Inr g'" and l: "loc \<in> set locations"
  from p have g': "g' = (if key = ''path'' then g\<lparr>path_group := path_group g @ [e]\<rparr>
                         else if key = ''query'' then g\<lparr>query_group := query_group g @ [e]\<rparr>
                         else if key = ''header'' then g\<lparr>header_group := header_group g @ [e]\<rparr>
                         else if key = ''cookie'' then g\<lparr>cookie_group := cookie_group g @ [e]\<rparr>
                         else g)"
    unfolding push_param_def by (simp split: if_splits)
  from l consider "loc = ''path''" | "loc = ''query''" | "loc = ''header''" | "loc = ''cookie''"
    unfolding locations_def by auto
  then show ?thesis
  proof cases
    case 1 then show ?thesis unfolding g' group_of_def by simp
  next
    case 2 then show ?thesis unfolding g' group_of_def by simp
  next
    case 3 then show ?thesis unfolding g' group_of_def by simp
  next
    case 4 then show ?thesis unfolding g' group_of_def by simp
  qed
qed

lemma group_of_collectParam:
  assumes "collectParam c (Some pv) (g, st) = Inr (g', st')" and "truthy (Some pv)"
    and "loc \<in> set locations"
  shows "map entry_key (group_of loc g') =
         map entry_key (group_of loc g) @ (if param_location pv = loc then [param_key pv] else [])"
proof -
  from assms(1,2) obtain t where
    "push_param (param_location pv)
       \<lparr> pname = jprop pv ''name'', ptype = t, prequired = jprop pv ''required'' \<rparr> g = Inr g'"
    by (auto simp: collectParam_def as_truthy_def split: sum.splits if_splits)
  from group_of_push [OF this assms(3)] show ?thesis
    by (simp add: entry_key_def param_key_def)
qed

lemma collectParam_falsy:
  "\<not> truthy p \<Longrightarrow> collectParam c p gs = Inr gs"
  by (simp add: collectParam_def as_truthy_def)

lemma collect_params_step:
  assumes "(if truthy (jprop p ''$ref'') then
              (case resolveParameterRef c (case jprop p ''$ref'' of Some r \<Rightarrow> r | None \<Rightarrow> JNull) of
                 Inl e \<Rightarrow> Inl e
               | Inr resolved \<Rightarrow>
                   if truthy resolved then collectParam c resolved (g, st) else Inr (g, st))
            else collectParam c (Some p) (g, st)) = Inr (g1, st1)"
    and "loc \<in> set locations"
  shows "map entry_key (group_of loc g1) =
         map entry_key (group_of loc g) @
         map param_key (filter (\<lambda>pv. param_location pv = loc)
                          (case effective_param c p of None \<Rightarrow> [] | Some pv \<Rightarrow> [pv]))"
proof (cases "effective_param c p")
  case None
  with assms(1) have "g1 = g"
    by (auto simp: effective_param_def as_truthy_def collectParam_falsy
        split: if_splits sum.splits)
  with None show ?thesis by simp
next
  case (Some pv)
  then have t: "truthy (Some pv)"
    by (auto simp: effective_param_def as_truthy_def split: if_splits sum.splits)
  from Some assms(1) have "collectParam c (Some pv) (g, st) = Inr (g1, st1)"
    by (auto simp: effective_param_def as_truthy_def split: if_splits sum.splits)
  from group_of_collectParam [OF this t assms(2)] Some show ?thesis by simp
qed

lemma collect_params_groups:
  "collect_params c ps (g, st) = Inr (g', st') \<Longrightarrow> loc \<in> set locations \<Longrightarrow>
   map entry_key (group_of loc g') =
   map entry_key (group_of loc g) @
   map param_key (filter (\<lambda>pv. param_location pv = loc) (List.map_filter (effective_param c) ps))"
proof (induction ps arbitrary: g st)
  case Nil
  then show ?case by (simp add: List.map_filter_simps)
next
  case (Cons p ps)
  from Cons.prems(1) obtain g1 st1 where
    a: "(if truthy (jprop p ''$ref'') then
              (case resolveParameterRef c (case jprop p ''$ref'' of Some r \<Rightarrow> r | None \<Rightarrow> JNull) of
                 Inl e \<Rightarrow> Inl e
               | Inr resolved \<Rightarrow>
                   if truthy resolved then collectParam c resolved (g, st) else Inr (g, st))
            else collectParam c (Some p) (g, st)) = Inr (g1, st1)"
    and b: "collect_params c ps (g1, st1) = Inr (g', st')"
    by (auto split: sum.splits)
  from collect_params_step [OF a Cons.prems(2)] Cons.IH [OF b Cons.prems(2)]
  show ?case
    by (cases "effective_param c p") (simp_all add: List.map_filter_simps)
qed

lemma collect_params_append:
  "collect_params c (ps @ qs) gs =
     (case collect_params c ps gs of Inl e \<Rightarrow> Inl e | Inr gs1 \<Rightarrow> collect_params c qs gs1)"
  by (induction ps arbitrary: gs) (auto split: sum.splits)

definition route_with_id :: json where
  "route_with_id = JObj
     [(''parameters'', JArr [JObj [(''name'', JStr ''id''), (''in'', JStr ''path''),
                                   (''required'', JBool True),
                                   (''schema'', JObj [(''type'', JStr ''string'')])]]),
      (''get'', JObj [(''parameters'',
                       JArr [JObj [(''name'', JStr ''id''), (''in'', JStr ''path''),
                                   (''required'', JBool True),
                                   (''schema'', JObj [(''type'', JStr ''integer'')])]])])]"

definition get_of_route :: json where
  "get_of_route = JObj [(''parameters'',
                       JArr [JObj [(''name'', JStr ''id''), (''in'', JStr ''path''),
                                   (''required'', JBool True),
                                   (''schema'', JObj [(''type'', JStr ''integer'')])]])]"

text \<open>
  C8, as the code has it. The parameters of an operation are the route-level parameters
  followed by the method-level ones, collected in that order (the method-level loop
  continues from the groups the route-level loop has filled). Nothing is overridden:
  each group holds, in that order, one entry for every parameter of the merged list
  that is collected (an entry given by \<^verbatim>\<open>$ref\<close> counts as the parameter it resolves to)
  and whose location is that group, with the parameter's name and \<^verbatim>\<open>required\<close> flag; a
  parameter with no location goes to \<^verbatim>\<open>path\<close>. So a route-level parameter appears in the
  record of every method, re-declared or not, and a re-declared one appears twice.
\<close>

theorem parameters_merged_by_concatenation:
  assumes "collect_params c (mergedParams methods op) (empty_groups, st) = Inr (g, st')"
    and "loc \<in> set locations"
  shows "map entry_key (group_of loc g) =
           map param_key (filter (\<lambda>pv. param_location pv = loc)
             (List.map_filter (effective_param c)
                (array_or_empty (jprop methods ''parameters'') @
                 array_or_empty (jprop op ''parameters'')))) \<and>
         collect_params c (mergedParams methods op) (empty_groups, st) =
           (case collect_params c (array_or_empty (jprop methods ''parameters'')) (empty_groups, st) of
              Inl e \<Rightarrow> Inl e
            | Inr gs1 \<Rightarrow> collect_params c (array_or_empty (jprop op ''parameters'')) gs1)"
proof
  from collect_params_groups [OF assms]
  show "map entry_key (group_of loc g) =
           map param_key (filter (\<lambda>pv. param_location pv = loc)
             (List.map_filter (effective_param c)
                (array_or_empty (jprop methods ''parameters'') @
                 array_or_empty (jprop op ''parameters''))))"
    by (simp add: mergedParams_def group_of_def empty_groups_def)
next
  show "collect_params c (mergedParams methods op) (empty_groups, st) =
           (case collect_params c (array_or_empty (jprop methods ''parameters'')) (empty_groups, st) of
              Inl e \<Rightarrow> Inl e
            | Inr gs1 \<Rightarrow> collect_params c (array_or_empty (jprop op ''parameters'')) gs1)"
    unfolding mergedParams_def by (rule collect_params_append)
qed

lemma route_with_id_collected:
  "collect_params no_enums (mergedParams route_with_id get_of_route) (empty_groups, init_state) =
     Inr (empty_groups \<lparr> path_group :=
              [\<lparr> pname = Some (JStr ''id''), ptype = ''string'', prequired = Some (JBool True) \<rparr>,
               \<lparr> pname = Some (JStr ''id''), ptype = ''number'', prequired = Some (JBool True) \<rparr>] \<rparr>,
          init_state)"
  by code_simp

theorem parameters_merged_by_concatenation_witness:
  "collect_params no_enums (mergedParams route_with_id get_of_route) (empty_groups, init_state) =
     Inr (empty_groups \<lparr> path_group :=
              [\<lparr> pname = Some (JStr ''id''), ptype = ''string'', prequired = Some (JBool True) \<rparr>,
               \<lparr> pname = Some (JStr ''id''), ptype = ''number'', prequired = Some (JBool True) \<rparr>] \<rparr>,
          init_state) \<and>
   ''path'' \<in> set locations \<and>
   map entry_key (group_of ''path'' (empty_groups \<lparr> path_group :=
              [\<lparr> pname = Some (JStr ''id''), ptype = ''string'', prequired = Some (JBool True) \<rparr>,
               \<lparr> pname = Some (JStr ''id''), ptype = ''number'', prequired = Some (JBool True) \<rparr>] \<rparr>)) =
     map param_key (filter (\<lambda>pv. param_location pv = ''path'')
       (List.map_filter (effective_param no_enums)
          (array_or_empty (jprop route_with_id ''parameters'') @
           array_or_empty (jprop get_of_route ''parameters''))))"
proof -
  have l: "''path'' \<in> set locations" by (simp add: locations_def)
  from parameters_merged_by_concatenation [OF route_with_id_collected l] route_with_id_collected l
  show ?thesis by blast
qed

text \<open>
  The claim as stated fails where it says that the method level overrides the route
  level: with \<open>id\<close> declared as a string on the route and as an integer on \<^verbatim>\<open>get\<close>, the
  parameter record of \<^verbatim>\<open>get\<close> has both fields, the route-level one first.
\<close>

theorem method_level_override_counterexample:
  "map_sum id (\<lambda>gs. paramType (path_group (fst gs)))
     (collect_params no_enums (mergedParams route_with_id get_of_route) (empty_groups, init_state))
   = Inr (''{'' @ nl @ ''    id: string;'' @ nl @ ''    id: number;'' @ nl @ ''  }'')"
proof -
  have "paramType
          [\<lparr> pname = Some (JStr ''id''), ptype = ''string'', prequired = Some (JBool True) \<rparr>,
           \<lparr> pname = Some (JStr ''id''), ptype = ''number'', prequired = Some (JBool True) \<rparr>]
        = ''{'' @ nl @ ''    id: string;'' @ nl @ ''    id: number;'' @ nl @ ''  }''"
    by code_simp
  then show ?thesis
    unfolding route_with_id_collected by simp
qed


section \<open>Parameters given by reference\<close>

text \<open>A document whose only operation takes the parameter \<^verbatim>\<open>P\<close> of
  \<^verbatim>\<open>components.parameters\<close> by reference; the schema of \<^verbatim>\<open>P\<close> is a reference to the
  definition \<^verbatim>\<open>X\<close>.\<close>

definition doc_param_ref :: json where
  "doc_param_ref = JObj
     [(''components'', JObj
         [(''schemas'', JObj [(''X'', JObj [(''type'', JStr ''string'')])]),
          (''parameters'', JObj
             [(''P'', JObj [(''name'', JStr ''id''), (''in'', JStr ''path''),
                            (''required'', JBool True),
                            (''schema'', JObj [(''$ref'', JStr ''#/components/schemas/X'')])])])]),
      (''paths'', JObj
         [(''/a'', JObj
             [(''get'', JObj
                 [(''parameters'',
                   JArr [JObj [(''$ref'', JStr ''#/components/parameters/P'')]])])])])]"

definition route_a :: json where
  "route_a = JObj [(''get'', JObj [(''parameters'',
                      JArr [JObj [(''$ref'', JStr ''#/components/parameters/P'')]])])]"

definition get_a :: json where
  "get_a = JObj [(''parameters'', JArr [JObj [(''$ref'', JStr ''#/components/parameters/P'')]])]"

text \<open>
  C4 fails on \<open>doc_param_ref\<close>. The marking pass reads \<^verbatim>\<open>p.schema\<close> on each entry of a
  parameter list and does not resolve an entry given as a \<^verbatim>\<open>$ref\<close>, so it ends with both
  usage sets empty although \<^verbatim>\<open>X\<close> is reachable from the parameter of \<^verbatim>\<open>get /a\<close>. The
  projection of the same operation does resolve the entry: it renders the parameter as
  \<^verbatim>\<open>id: X\<close> and marks \<^verbatim>\<open>X\<close>, but only after the loop over the definitions has run, so the
  type module names \<^verbatim>\<open>X\<close> without declaring it.
\<close>

theorem referenced_parameter_not_marked:
  "mark_paths 5 (make_ctx doc_param_ref []) doc_param_ref init_state = Some (Inr init_state) \<and>
   collect_params (make_ctx doc_param_ref []) (mergedParams route_a get_a) (empty_groups, init_state) =
     Inr (empty_groups \<lparr> path_group :=
            [\<lparr> pname = Some (JStr ''id''), ptype = ''X'', prequired = Some (JBool True) \<rparr>] \<rparr>,
          init_state \<lparr> usedComponents := {''X''} \<rparr>) \<and>
   map_option (map_sum id (\<lambda>p. (components_ts p, components_zod p, usedComponents (final_state p))))
     (build_parts 5 doc_param_ref) = Some (Inr ([], [], {''X''}))"
  by code_simp

section \<open>Schemas that match no rule\<close>

text \<open>The values of \<^verbatim>\<open>schema.type\<close> that a rule of the synthesizers names.\<close>

definition recognized_types :: "json option list" where
  "recognized_types =
     map (\<lambda>t. Some (JStr t))
       [''array'', ''object'', ''string'', ''integer'', ''number'', ''boolean'', ''null'']"

text \<open>An object none of whose keywords selects a rule: the tests on \<^verbatim>\<open>$ref\<close>, \<^verbatim>\<open>enum\<close>,
  \<^verbatim>\<open>const\<close>, \<^verbatim>\<open>oneOf\<close>, \<^verbatim>\<open>anyOf\<close>, \<^verbatim>\<open>allOf\<close>, \<^verbatim>\<open>properties\<close> and \<^verbatim>\<open>type\<close> all fail.\<close>

definition unrecognized :: "(string \<times> json) list \<Rightarrow> bool" where
  "unrecognized kvs =
     (\<not> truthy (map_of kvs ''$ref'') \<and> as_array (map_of kvs ''enum'') = None \<and>
      map_of kvs ''const'' = None \<and> as_array (map_of kvs ''oneOf'') = None \<and>
      as_array (map_of kvs ''anyOf'') = None \<and> as_array (map_of kvs ''allOf'') = None \<and>
      \<not> truthy (map_of kvs ''properties'') \<and> as_array (map_of kvs ''type'') = None \<and>
      map_of kvs ''type'' \<notin> set recognized_types)"

text \<open>Every \<^verbatim>\<open>$ref\<close> of the value, at any depth, is a string or is falsy.\<close>

fun string_refs :: "json \<Rightarrow> bool" where
  "string_refs (JObj kvs) =
     list_all (\<lambda>kv. (fst kv = ''$ref'' \<longrightarrow> is_string (snd kv) \<or> \<not> truthy (Some (snd kv)))
                    \<and> string_refs (snd kv)) kvs"
| "string_refs (JArr xs) = list_all string_refs xs"
| "string_refs v = True"

lemma string_refs_member:
  "string_refs (JObj kvs) \<Longrightarrow> map_of kvs k = Some v \<Longrightarrow> string_refs v"
  by (auto simp: list_all_iff dest!: map_of_SomeD)

lemma string_refs_resolve:
  assumes "string_refs (JObj kvs)" and "as_truthy (map_of kvs ''$ref'') = Some r"
  shows "\<exists>t. resolveRef r = Inr t"
proof -
  from assms(2) have m: "map_of kvs ''$ref'' = Some r" and t: "truthy (Some r)"
    by (auto simp: as_truthy_def split: if_splits)
  from assms(1) map_of_SomeD [OF m] t have "is_string r"
    by (auto simp: list_all_iff)
  then show ?thesis by (cases r) simp_all
qed

lemma string_refs_array:
  assumes "string_refs (JObj kvs)" and "as_array (map_of kvs k) = Some xs"
  shows "list_all string_refs xs"
proof -
  from assms(2) have "map_of kvs k = Some (JArr xs)"
    by (cases "map_of kvs k" rule: as_array.cases) simp_all
  from string_refs_member [OF assms(1) this] show ?thesis by simp
qed

lemma string_refs_truthy_member:
  assumes "string_refs (JObj kvs)"
  shows "string_refs (case as_truthy (map_of kvs k) of Some i \<Rightarrow> i | None \<Rightarrow> JObj [])"
proof (cases "as_truthy (map_of kvs k)")
  case None
  then show ?thesis by simp
next
  case (Some i)
  then have "map_of kvs k = Some i" by (simp add: as_truthy_def split: if_splits)
  from string_refs_member [OF assms this] Some show ?thesis by simp
qed

lemma string_refs_items: "string_refs (JObj kvs) \<Longrightarrow> string_refs (items_or_empty (JObj kvs))"
  unfolding items_or_empty_def jprop.simps by (rule string_refs_truthy_member)

lemma string_refs_entries:
  "string_refs v \<Longrightarrow> list_all (\<lambda>kv. string_refs (snd kv)) (object_entries v)"
proof (cases v)
  case (JStr s)
  then show ?thesis by (auto simp: list_all_iff dest!: set_zip_rightD)
next
  case (JArr xs)
  assume "string_refs v"
  with JArr show ?thesis by (auto simp: list_all_iff dest!: set_zip_rightD)
next
  case (JObj kvs)
  assume "string_refs v"
  with JObj show ?thesis by (auto simp: list_all_iff)
qed simp_all

lemma string_refs_properties:
  "string_refs (JObj kvs) \<Longrightarrow>
   list_all (\<lambda>kv. string_refs (snd kv)) (object_entries (properties_or_empty kvs))"
  unfolding properties_or_empty_def
  by (rule string_refs_entries) (rule string_refs_truthy_member)

lemma string_refs_spread:
  "string_refs (JObj kvs) \<Longrightarrow> string_refs t \<Longrightarrow> string_refs (JObj (spread_type kvs t))"
  by (induction kvs t rule: spread_type.induct) auto

lemma string_refs_zod:
  "string_refs s \<Longrightarrow> \<exists>r. zodFromSchema c s st = Inr r"
  "string_refs (JObj kvs) \<Longrightarrow> \<exists>r. zodFromKind c kvs st = Inr r"
  "string_refs (JObj kvs) \<Longrightarrow> \<exists>r. zodFromObject c kvs st = Inr r"
  "list_all string_refs xs \<Longrightarrow> \<exists>r. zodFromSchemas c xs st = Inr r"
  "list_all (\<lambda>kv. string_refs (snd kv)) ps \<Longrightarrow> \<exists>r. zodFromProps c ps st = Inr r"
  "string_refs (JObj kvs) \<Longrightarrow> list_all string_refs tys \<Longrightarrow> \<exists>r. zodFromTypes c kvs tys st = Inr r"
proof (induction c s st and c kvs st and c kvs st and c xs st and c ps st and c kvs tys st
    rule: zodFromSchema_zodFromKind_zodFromObject_zodFromSchemas_zodFromProps_zodFromTypes.induct)
  case (1 c kvs st)
  note sr = "1.prems"
  show ?case
  proof (cases "as_truthy (map_of kvs ''$ref'')")
    case (Some r)
    from string_refs_resolve [OF sr Some] obtain t where "resolveRef r = Inr t" by blast
    with Some show ?thesis by simp
  next
    case ref: None
    show ?thesis
    proof (cases "as_array (map_of kvs ''enum'')")
      case (Some vs)
      with ref show ?thesis by simp
    next
      case enum: None
      show ?thesis
      proof (cases "map_of kvs ''const''")
        case (Some v)
        with ref enum show ?thesis by simp
      next
        case const: None
        show ?thesis
        proof (cases "as_array (map_of kvs ''oneOf'')")
          case (Some xs)
          show ?thesis
          proof (cases "xs = []")
            case True
            with ref enum const Some show ?thesis by simp
          next
            case False
            from "1.IH"(5) [OF ref enum const Some False string_refs_array [OF sr Some]]
            obtain r where "zodFromSchemas c xs st = Inr r" by blast
            with ref enum const Some False show ?thesis by (cases r) simp
          qed
        next
          case oneOf: None
          show ?thesis
          proof (cases "as_array (map_of kvs ''anyOf'')")
            case (Some xs)
            show ?thesis
            proof (cases "xs = []")
              case True
              with ref enum const oneOf Some show ?thesis by simp
            next
              case False
              from "1.IH"(4) [OF ref enum const oneOf Some False string_refs_array [OF sr Some]]
              obtain r where "zodFromSchemas c xs st = Inr r" by blast
              with ref enum const oneOf Some False show ?thesis by (cases r) simp
            qed
          next
            case anyOf: None
            show ?thesis
            proof (cases "as_array (map_of kvs ''allOf'')")
              case (Some xs)
              show ?thesis
              proof (cases "xs = []")
                case True
                with ref enum const oneOf anyOf Some show ?thesis by simp
              next
                case False
                from "1.IH"(3) [OF ref enum const oneOf anyOf Some False string_refs_array [OF sr Some]]
                obtain r where "zodFromSchemas c xs st = Inr r" by blast
                with ref enum const oneOf anyOf Some False show ?thesis by (cases r) simp
              qed
            next
              case allOf: None
              show ?thesis
              proof (cases "as_array (map_of kvs ''type'')")
                case (Some ts)
                from "1.IH"(2) [OF ref enum const oneOf anyOf allOf Some sr string_refs_array [OF sr Some]]
                obtain r where "zodFromTypes c kvs ts st = Inr r" by blast
                with ref enum const oneOf anyOf allOf Some show ?thesis by (cases r) simp
              next
                case None
                from "1.IH"(1) [OF ref enum const oneOf anyOf allOf None sr]
                obtain r where "zodFromKind c kvs st = Inr r" by blast
                with ref enum const oneOf anyOf allOf None show ?thesis
                  by (simp del: zodFromKind.simps)
              qed
            qed
          qed
        qed
      qed
    qed
  qed
next
  case (3 c kvs st)
  note sr = "3.prems"
  show ?case
  proof (cases "map_of kvs ''type'' = Some (JStr ''array'')")
    case True
    from "3.IH"(1) [OF True string_refs_items [OF sr]]
    obtain r where "zodFromSchema c (items_or_empty (JObj kvs)) st = Inr r" by blast
    with True show ?thesis by (cases r) simp
  next
    case False
    show ?thesis
    proof (cases "map_of kvs ''type'' = Some (JStr ''object'') \<or> truthy (map_of kvs ''properties'')")
      case True
      from "3.IH"(2) [OF False True sr]
      obtain r where "zodFromObject c kvs st = Inr r" by blast
      with False True show ?thesis by (simp del: zodFromObject.simps)
    next
      case nobj: False
      with False show ?thesis by simp
    qed
  qed
next
  case (4 c kvs st)
  note sr = "4.prems"
  from "4.IH"(1) [OF string_refs_properties [OF sr]]
  obtain entries st1 where
    a: "zodFromProps c (object_entries (properties_or_empty kvs)) st = Inr (entries, st1)"
    by auto
  show ?case
  proof (cases "\<exists>aps. map_of kvs ''additionalProperties'' = Some (JObj aps)")
    case True
    then obtain aps where m: "map_of kvs ''additionalProperties'' = Some (JObj aps)" by blast
    from "4.IH"(2) [OF a refl m refl string_refs_member [OF sr m]]
    obtain r where "zodFromSchema c (JObj aps) st1 = Inr r" by blast
    with a m show ?thesis by (cases r) simp
  next
    case False
    with a show ?thesis
      by (auto split: option.splits json.splits bool.splits)
  qed
next
  case (6 c x xs st)
  from "6.prems" have x: "string_refs x" and xs: "list_all string_refs xs" by simp_all
  from "6.IH"(1) [OF x] obtain z st1 where a: "zodFromSchema c x st = Inr (z, st1)" by auto
  from "6.IH"(2) [OF a refl xs] obtain r where "zodFromSchemas c xs st1 = Inr r" by blast
  with a show ?case by (cases r) simp
next
  case (8 c k v rest st)
  from "8.prems" have v: "string_refs v" and rest: "list_all (\<lambda>kv. string_refs (snd kv)) rest"
    by simp_all
  from "8.IH"(1) [OF v] obtain z st1 where a: "zodFromSchema c v st = Inr (z, st1)" by auto
  from "8.IH"(2) [OF a refl rest] obtain r where "zodFromProps c rest st1 = Inr r" by blast
  with a show ?case by (cases r) simp
next
  case (10 c kvs t rest st)
  note sr = "10.prems"(1)
  from "10.prems"(2) have t: "string_refs t" and rest: "list_all string_refs rest" by simp_all
  let ?head = "if t = JStr ''null'' then Inr (pure @ ''z.null()'', st)
            else zodFromSchema c (JObj (spread_type kvs t)) st"
  have "\<exists>r. ?head = Inr r"
    using "10.IH"(1) [OF _ string_refs_spread [OF sr t]] by (cases "t = JStr ''null''") simp_all
  then obtain z st1 where a: "?head = Inr (z, st1)" by auto
  from "10.IH"(2) [OF a refl sr rest] obtain r where "zodFromTypes c kvs rest st1 = Inr r" by blast
  with a show ?case by (cases r) (simp del: zodFromSchema.simps)
qed simp_all

lemma unrecognized_type:
  assumes "unrecognized kvs"
  shows "typeFromSchema c (JObj kvs) st = Inr (''unknown'', st)"
proof -
  from assms have k: "typeFromKind c kvs st = Inr (''unknown'', st)"
    by (simp add: unrecognized_def recognized_types_def primitive_type_def)
  from assms show ?thesis
    unfolding typeFromSchema.simps k
    by (simp add: unrecognized_def as_truthy_def)
qed

lemma unrecognized_zod:
  assumes "unrecognized kvs"
  shows "zodFromSchema c (JObj kvs) st = Inr (pure @ ''z.unknown()'', st)"
proof -
  from assms have k: "zodFromKind c kvs st = Inr (pure @ ''z.unknown()'', st)"
    by (simp add: unrecognized_def recognized_types_def zPrimitive_def)
  from assms show ?thesis
    unfolding zodFromSchema.simps k
    by (simp add: unrecognized_def as_truthy_def)
qed

text \<open>
  C9, as the code has it. A value that is not an object (\<^verbatim>\<open>null\<close>, a boolean, a number or
  a string) renders as \<^verbatim>\<open>any\<close> and as \<^verbatim>\<open>z.unknown()\<close>; an array, and an object none of
  whose keywords selects a rule, render as \<^verbatim>\<open>unknown\<close> and as \<^verbatim>\<open>z.unknown()\<close>; in all these
  cases the usage sets are left as they were. The validator synthesizer returns on
  every schema whose \<^verbatim>\<open>$ref\<close> members, at any depth, are strings or falsy. Neither
  synthesizer is total: \<^verbatim>\<open>resolveRef\<close> assumes a string.
\<close>

theorem unmatched_schema_is_unconstrained:
  "(\<not> is_object_like (Some s) \<longrightarrow>
      typeFromSchema c s st = Inr (''any'', st) \<and>
      zodFromSchema c s st = Inr (pure @ ''z.unknown()'', st)) \<and>
   typeFromSchema c (JArr xs) st = Inr (''unknown'', st) \<and>
   zodFromSchema c (JArr xs) st = Inr (pure @ ''z.unknown()'', st) \<and>
   (unrecognized kvs \<longrightarrow>
      typeFromSchema c (JObj kvs) st = Inr (''unknown'', st) \<and>
      zodFromSchema c (JObj kvs) st = Inr (pure @ ''z.unknown()'', st)) \<and>
   (string_refs s' \<longrightarrow> (\<exists>z st'. zodFromSchema c s' st = Inr (z, st')))"
proof (intro conjI impI)
  assume "\<not> is_object_like (Some s)"
  then show "typeFromSchema c s st = Inr (''any'', st)" by (cases s) simp_all
next
  assume "\<not> is_object_like (Some s)"
  then show "zodFromSchema c s st = Inr (pure @ ''z.unknown()'', st)" by (cases s) simp_all
next
  show "typeFromSchema c (JArr xs) st = Inr (''unknown'', st)" by simp
next
  show "zodFromSchema c (JArr xs) st = Inr (pure @ ''z.unknown()'', st)" by simp
next
  assume "unrecognized kvs"
  then show "typeFromSchema c (JObj kvs) st = Inr (''unknown'', st)" by (rule unrecognized_type)
next
  assume "unrecognized kvs"
  then show "zodFromSchema c (JObj kvs) st = Inr (pure @ ''z.unknown()'', st)"
    by (rule unrecognized_zod)
next
  assume "string_refs s'"
  from string_refs_zod(1) [OF this, of c st] show "\<exists>z st'. zodFromSchema c s' st = Inr (z, st')"
    by auto
qed

definition file_schema :: "(string \<times> json) list" where
  "file_schema = [(''type'', JStr ''file''), (''format'', JStr ''binary'')]"

definition object_with_ref :: json where
  "object_with_ref = JObj
     [(''type'', JStr ''object''),
      (''properties'', JObj [(''a'', JObj [(''$ref'', JStr ''#/components/schemas/X'')])])]"

theorem unmatched_schema_is_unconstrained_witness:
  "\<not> is_object_like (Some (JNum ''3'')) \<and>
   typeFromSchema no_enums (JNum ''3'') init_state = Inr (''any'', init_state) \<and>
   zodFromSchema no_enums (JNum ''3'') init_state = Inr (pure @ ''z.unknown()'', init_state) \<and>
   typeFromSchema no_enums (JArr []) init_state = Inr (''unknown'', init_state) \<and>
   zodFromSchema no_enums (JArr []) init_state = Inr (pure @ ''z.unknown()'', init_state) \<and>
   unrecognized file_schema \<and>
   typeFromSchema no_enums (JObj file_schema) init_state = Inr (''unknown'', init_state) \<and>
   zodFromSchema no_enums (JObj file_schema) init_state = Inr (pure @ ''z.unknown()'', init_state) \<and>
   string_refs object_with_ref \<and>
   (\<exists>z st'. zodFromSchema no_enums object_with_ref init_state = Inr (z, st'))"
proof -
  have a: "\<not> is_object_like (Some (JNum ''3''))" by simp
  have b: "unrecognized file_schema" by code_simp
  have d: "string_refs object_with_ref" by code_simp
  from unmatched_schema_is_unconstrained
         [where s = "JNum ''3''" and xs = "[]" and kvs = file_schema and s' = object_with_ref
            and c = no_enums and st = init_state] a b d
  show ?thesis by blast
qed

text \<open>
  The claim as stated fails where it says that the synthesizers never raise: on the
  schema \<^verbatim>\<open>{"$ref": 3}\<close> both call \<^verbatim>\<open>resolveRef(3)\<close>, and a number has no \<^verbatim>\<open>split\<close>.
\<close>

theorem non_string_ref_counterexample:
  "typeFromSchema no_enums (JObj [(''$ref'', JNum ''3'')]) init_state = Inl TypeError \<and>
   zodFromSchema no_enums (JObj [(''$ref'', JNum ''3'')]) init_state = Inl TypeError"
  by code_simp

section \<open>The assembly of the enumerations\<close>

text \<open>The assembly loop returns when the member names of every enumeration convert to
  strings, and the comments of every enumeration that passes the usage filter do; it
  then has appended the declarations that pass the filter to the type module and the
  mirror of every enumeration to the runtime module.\<close>

definition enum_prints :: "string set \<Rightarrow> string \<times> enum_def \<Rightarrow> bool" where
  "enum_prints used ke =
     (jsEnum_returns (snd ke) \<and> ((used = {} \<or> fst ke \<in> used) \<longrightarrow> printEnum_returns (snd ke)))"

lemma assemble_enums_eq:
  "assemble_enums es used (out, outJs) =
     (if list_all (enum_prints used) es
      then Inr (out @ concat (map (\<lambda>(k, e). if used = {} \<or> k \<in> used then printEnum k e @ nl else []) es),
                outJs @ concat (map (\<lambda>(k, e). jsEnum k e) es))
      else Inl TypeError)"
proof (induction es arbitrary: out outJs)
  case Nil
  then show ?case by simp
next
  case (Cons ke es)
  obtain k e where ke: "ke = (k, e)" by (cases ke)
  show ?case unfolding ke
    by (simp add: Cons.IH enum_prints_def)
qed


section \<open>The runtime mirror of the enumerations\<close>

lemma jsEnum_members_text:
  "jsEnum_members e i vs =
     concat (map (\<lambda>j. ''  '' @ safeKey (js_index (varnames e) (i + j)) @ '': ''
                        @ json_stringify (vs ! j) @ '','' @ nl) [0..<length vs])"
proof (induction vs arbitrary: i)
  case Nil
  then show ?case by simp
next
  case (Cons v vs)
  have "[0..<length (v # vs)] = 0 # map Suc [0..<length vs]"
    by (simp add: upt_conv_Cons map_Suc_upt del: upt_Suc)
  then show ?case
    by (simp add: Cons.IH [of "Suc i"] comp_def del: upt_Suc)
qed

lemma build_parts_enums:
  assumes "build_parts fuel openapi = Some (Inr p)"
  shows "collect_enums (components_entries openapi) = Inr (enums (ctx_of p))"
proof (cases "collect_enums (components_entries openapi)")
  case (Inl e)
  with assms show ?thesis
    by (simp add: build_parts_def split: if_splits)
next
  case (Inr es)
  with assms have "ctx_of p = make_ctx openapi es"
    by (auto simp: build_parts_def Let_def split: if_splits option.splits sum.splits)
  with Inr show ?thesis by (simp add: make_ctx_def)
qed

text \<open>A document with the enumerations \<^verbatim>\<open>E\<close> and \<^verbatim>\<open>F\<close>, whose only operation refers to
  \<^verbatim>\<open>E\<close>.\<close>

definition doc_E_F :: json where
  "doc_E_F = JObj
     [(''components'', JObj [(''schemas'', JObj
         [(''E'', JObj [(''type'', JStr ''string''), (''enum'', JArr [JStr ''a'', JStr ''b''])]),
          (''F'', JObj [(''type'', JStr ''integer''), (''enum'', JArr [JNum ''1''])])])]),
      (''paths'', JObj
         [(''/a'', JObj
             [(''get'', JObj
                 [(''responses'', JObj
                     [(''200'', JObj
                         [(''content'', JObj
                             [(''application/json'', JObj
                                 [(''schema'', JObj [(''$ref'', JStr ''#/components/schemas/E'')])])])])])])])])]"

text \<open>A document whose enumeration \<^verbatim>\<open>G\<close> names its member with an object that has a
  property \<^verbatim>\<open>toString\<close>.\<close>

definition doc_G :: json where
  "doc_G = JObj
     [(''components'', JObj [(''schemas'', JObj
         [(''G'', JObj [(''enum'', JArr [JNum ''1'']),
                        (''x-enum-varnames'', JArr [JObj [(''toString'', JStr ''x'')]])])])])]"

text \<open>
  C10. Whenever \<^verbatim>\<open>build\<close> reaches the assembly of its files, it returns them when the
  assembly loop can print the enumerations and raises otherwise. The text it returns
  for the runtime JavaScript module is the banner, then for every enumeration
  collected from the document, in the order of the table, the exported object
  \<^verbatim>\<open>export const Name = { key: value, ... };\<close> with one member for each value, then the
  list of the paths. The set of used enumerations, which filters the declarations of
  the type module, does not occur in this text.
\<close>

theorem runtime_enum_mirror_unfiltered:
  assumes "build_parts fuel openapi = Some (Inr p)"
  shows "collect_enums (components_entries openapi) = Inr (enums (ctx_of p)) \<and>
         map_option (map_sum id outputJs) (build fuel openapi) =
           Some (if list_all (enum_prints (usedEnums (final_state p))) (enums (ctx_of p))
                 then Inr (banner
                   @ concat (map (\<lambda>(k, e).
                       ''export const '' @ toTypeName k @ '' = {'' @ nl
                       @ concat (map (\<lambda>i. ''  '' @ safeKey (js_index (varnames e) i) @ '': ''
                                          @ json_stringify (evalues e ! i) @ '','' @ nl)
                                   [0..<length (evalues e)])
                       @ ''};'' @ nl @ nl) (enums (ctx_of p)))
                   @ ''export const pathsList = {'' @ nl
                   @ pathsList_lines True (pathsListMap (paths_of p))
                   @ ''};'' @ nl @ nl)
                 else Inl TypeError)"
proof (intro conjI)
  from assms show "collect_enums (components_entries openapi) = Inr (enums (ctx_of p))"
    by (rule build_parts_enums)
next
  have "(\<lambda>(k, e). jsEnum k e) =
        (\<lambda>(k, e). ''export const '' @ toTypeName k @ '' = {'' @ nl
               @ concat (map (\<lambda>i. ''  '' @ safeKey (js_index (varnames e) i) @ '': ''
                                  @ json_stringify (evalues e ! i) @ '','' @ nl)
                           [0..<length (evalues e)])
               @ ''};'' @ nl @ nl)"
    by (simp add: jsEnum_def jsEnum_members_text fun_eq_iff)
  with assms show "map_option (map_sum id outputJs) (build fuel openapi) =
           Some (if list_all (enum_prints (usedEnums (final_state p))) (enums (ctx_of p))
                 then Inr (banner
                   @ concat (map (\<lambda>(k, e).
                       ''export const '' @ toTypeName k @ '' = {'' @ nl
                       @ concat (map (\<lambda>i. ''  '' @ safeKey (js_index (varnames e) i) @ '': ''
                                          @ json_stringify (evalues e ! i) @ '','' @ nl)
                                   [0..<length (evalues e)])
                       @ ''};'' @ nl @ nl) (enums (ctx_of p)))
                   @ ''export const pathsList = {'' @ nl
                   @ pathsList_lines True (pathsListMap (paths_of p))
                   @ ''};'' @ nl @ nl)
                 else Inl TypeError)"
    by (simp add: build_def assemble_def Let_def assemble_enums_eq)
qed

text \<open>On \<open>doc_E_F\<close> the marking leaves \<^verbatim>\<open>E\<close> as the only used enumeration: the type module
  declares \<^verbatim>\<open>E\<close> alone, and the runtime module has the objects of \<^verbatim>\<open>E\<close> and of \<^verbatim>\<open>F\<close>. On
  \<open>doc_G\<close> the member name cannot be printed.\<close>

theorem runtime_enum_mirror_unfiltered_witness:
  "(\<exists>p. build_parts 5 doc_E_F = Some (Inr p) \<and>
        usedEnums (final_state p) = {''E''} \<and>
        map_option (map_sum id outputJs) (build 5 doc_E_F) =
          Some (Inr (banner
          @ ''export const E = {'' @ nl
          @ ''  A: '' @ dq @ ''a'' @ dq @ '','' @ nl
          @ ''  B: '' @ dq @ ''b'' @ dq @ '','' @ nl
          @ ''};'' @ nl @ nl
          @ ''export const F = {'' @ nl
          @ ''  '' @ dq @ ''1'' @ dq @ '': 1,'' @ nl
          @ ''};'' @ nl @ nl
          @ ''export const pathsList = {'' @ nl
          @ ''  get: /* @__PURE__ */ Object.freeze(['' @ dq @ ''/a'' @ dq @ '']),'' @ nl
          @ ''};'' @ nl @ nl))) \<and>
   (\<exists>p. build_parts 5 doc_G = Some (Inr p)) \<and>
   map_option (map_sum id outputJs) (build 5 doc_G) = Some (Inl TypeError)"
proof -
  have "map_option (map_sum id (\<lambda>p. (usedEnums (final_state p), pathsListMap (paths_of p))))
          (build_parts 5 doc_E_F)
        = Some (Inr ({''E''}, [(''get'', [''/a'']), (''put'', []), (''post'', []), (''delete'', []),
                              (''patch'', []), (''options'', []), (''head'', []), (''trace'', [])]))"
    by code_simp
  then obtain p where p: "build_parts 5 doc_E_F = Some (Inr p)"
    and u: "usedEnums (final_state p) = {''E''}"
    and l: "pathsListMap (paths_of p) =
              [(''get'', [''/a'']), (''put'', []), (''post'', []), (''delete'', []),
               (''patch'', []), (''options'', []), (''head'', []), (''trace'', [])]"
    by (cases "build_parts 5 doc_E_F"; cases "the (build_parts 5 doc_E_F)") auto
  have c: "collect_enums (components_entries doc_E_F) =
             Inr [(''E'', \<lparr> evalues = [JStr ''a'', JStr ''b''], varnames = JArr [JStr ''A'', JStr ''B''],
                            descriptions = JArr [], etype = Some (JStr ''string''), doc = None \<rparr>),
                  (''F'', \<lparr> evalues = [JNum ''1''], varnames = JArr [JStr ''1''],
                            descriptions = JArr [], etype = Some (JStr ''integer''), doc = None \<rparr>)]"
    by code_simp
  have k: "toTypeName ''E'' = ''E''" "toTypeName ''F'' = ''F''"
    "safeKey (Some (JStr ''A'')) = ''A''" "safeKey (Some (JStr ''B'')) = ''B''"
    "safeKey (Some (JStr ''1'')) = dq @ ''1'' @ dq"
    "json_stringify (JStr ''a'') = dq @ ''a'' @ dq" "json_stringify (JStr ''b'') = dq @ ''b'' @ dq"
    "json_stringify (JNum ''1'') = ''1''"
    "pathsList_lines True [(''get'', [''/a'']), (''put'', []), (''post'', []), (''delete'', []),
               (''patch'', []), (''options'', []), (''head'', []), (''trace'', [])]
       = ''  get: /* @__PURE__ */ Object.freeze(['' @ dq @ ''/a'' @ dq @ '']),'' @ nl"
    by code_simp+
  from runtime_enum_mirror_unfiltered [OF p] c
  have e: "enums (ctx_of p) =
             [(''E'', \<lparr> evalues = [JStr ''a'', JStr ''b''], varnames = JArr [JStr ''A'', JStr ''B''],
                            descriptions = JArr [], etype = Some (JStr ''string''), doc = None \<rparr>),
              (''F'', \<lparr> evalues = [JNum ''1''], varnames = JArr [JStr ''1''],
                            descriptions = JArr [], etype = Some (JStr ''integer''), doc = None \<rparr>)]"
    by simp
  have pr: "enum_prints {''E''}
             (''E'', \<lparr> evalues = [JStr ''a'', JStr ''b''], varnames = JArr [JStr ''A'', JStr ''B''],
                            descriptions = JArr [], etype = Some (JStr ''string''), doc = None \<rparr>)"
    "enum_prints {''E''}
              (''F'', \<lparr> evalues = [JNum ''1''], varnames = JArr [JStr ''1''],
                            descriptions = JArr [], etype = Some (JStr ''integer''), doc = None \<rparr>)"
    by code_simp+
  from runtime_enum_mirror_unfiltered [OF p, THEN conjunct2] have
    "map_option (map_sum id outputJs) (build 5 doc_E_F) =
          Some (Inr (banner
          @ ''export const E = {'' @ nl
          @ ''  A: '' @ dq @ ''a'' @ dq @ '','' @ nl
          @ ''  B: '' @ dq @ ''b'' @ dq @ '','' @ nl
          @ ''};'' @ nl @ nl
          @ ''export const F = {'' @ nl
          @ ''  '' @ dq @ ''1'' @ dq @ '': 1,'' @ nl
          @ ''};'' @ nl @ nl
          @ ''export const pathsList = {'' @ nl
          @ ''  get: /* @__PURE__ */ Object.freeze(['' @ dq @ ''/a'' @ dq @ '']),'' @ nl
          @ ''};'' @ nl @ nl))"
    unfolding e l u
    by (simp add: k pr upt_conv_Cons
        del: safeKey.simps json_stringify.simps pathsList_lines.simps upt_Suc)
  with p u have first: "\<exists>p. build_parts 5 doc_E_F = Some (Inr p) \<and>
        usedEnums (final_state p) = {''E''} \<and>
        map_option (map_sum id outputJs) (build 5 doc_E_F) =
          Some (Inr (banner
          @ ''export const E = {'' @ nl
          @ ''  A: '' @ dq @ ''a'' @ dq @ '','' @ nl
          @ ''  B: '' @ dq @ ''b'' @ dq @ '','' @ nl
          @ ''};'' @ nl @ nl
          @ ''export const F = {'' @ nl
          @ ''  '' @ dq @ ''1'' @ dq @ '': 1,'' @ nl
          @ ''};'' @ nl @ nl
          @ ''export const pathsList = {'' @ nl
          @ ''  get: /* @__PURE__ */ Object.freeze(['' @ dq @ ''/a'' @ dq @ '']),'' @ nl
          @ ''};'' @ nl @ nl))"
    by blast
  have "map_option (map_sum id (\<lambda>p. usedEnums (final_state p))) (build_parts 5 doc_G)
        = Some (Inr {})"
    by code_simp
  then obtain q where q: "build_parts 5 doc_G = Some (Inr q)"
    and uq: "usedEnums (final_state q) = {}"
    by (cases "build_parts 5 doc_G"; cases "the (build_parts 5 doc_G)") auto
  have cq: "collect_enums (components_entries doc_G) =
             Inr [(''G'', \<lparr> evalues = [JNum ''1''], varnames = JArr [JObj [(''toString'', JStr ''x'')]],
                            descriptions = JArr [], etype = None, doc = None \<rparr>)]"
    by code_simp
  have nq: "\<not> enum_prints {}
             (''G'', \<lparr> evalues = [JNum ''1''], varnames = JArr [JObj [(''toString'', JStr ''x'')]],
                            descriptions = JArr [], etype = None, doc = None \<rparr>)"
    by code_simp
  from runtime_enum_mirror_unfiltered [OF q] cq
  have eq: "enums (ctx_of q) =
             [(''G'', \<lparr> evalues = [JNum ''1''], varnames = JArr [JObj [(''toString'', JStr ''x'')]],
                            descriptions = JArr [], etype = None, doc = None \<rparr>)]"
    by simp
  from runtime_enum_mirror_unfiltered [OF q, THEN conjunct2]
  have "map_option (map_sum id outputJs) (build 5 doc_G) = Some (Inl TypeError)"
    unfolding eq uq by (simp add: nq)
  with first q show ?thesis by blast
qed


section \<open>The content type that is rendered\<close>

lemma first_by_order_at:
  "i < length cts \<Longrightarrow> carried_schema (map_of kvs (cts ! i)) = Some s \<Longrightarrow>
   \<forall>j<i. carried_schema (map_of kvs (cts ! j)) = None \<Longrightarrow>
   first_by_order kvs cts = Some (cts ! i, s)"
proof (induction cts arbitrary: i)
  case Nil
  then show ?case by simp
next
  case (Cons ct cts)
  show ?case
  proof (cases i)
    case 0
    with Cons.prems show ?thesis by simp
  next
    case (Suc k)
    with Cons.prems have "carried_schema (map_of kvs ct) = None" by auto
    moreover from Suc Cons.prems have "first_by_order kvs cts = Some (cts ! k, s)"
      by (intro Cons.IH) auto
    ultimately show ?thesis using Suc by simp
  qed
qed

lemma first_by_order_none:
  "\<forall>ct \<in> set cts. carried_schema (map_of kvs ct) = None \<Longrightarrow> first_by_order kvs cts = None"
  by (induction cts) auto

lemma first_by_order_some:
  "\<exists>ct \<in> set cts. carried_schema (map_of kvs ct) \<noteq> None \<Longrightarrow> first_by_order kvs cts \<noteq> None"
  by (induction cts) (auto split: option.splits)

lemma first_by_order_map_of:
  "map_of kvs' = map_of kvs \<Longrightarrow> first_by_order kvs' cts = first_by_order kvs cts"
  by (induction cts) (auto split: option.splits)

lemma first_available_at:
  "\<forall>(k, v) \<in> set pre. carried_schema (Some v) = None \<Longrightarrow>
   carried_schema (Some entry) = Some s \<Longrightarrow>
   first_available (pre @ (ct, entry) # post) = Some (ct, s)"
  by (induction pre) auto

lemma first_available_none:
  "\<forall>(k, v) \<in> set kvs. carried_schema (Some v) = None \<Longrightarrow> first_available kvs = None"
  by (induction kvs) auto

lemma carried_schema_none:
  assumes "\<forall>(k, v) \<in> set kvs. carried_schema (Some v) = None"
  shows "carried_schema (map_of kvs ct) = None"
proof (cases "map_of kvs ct")
  case None
  then show ?thesis by (simp add: carried_schema_def)
next
  case (Some v)
  from map_of_SomeD [OF this] assms show ?thesis using Some by auto
qed

definition binary_then_json :: "(string \<times> json) list" where
  "binary_then_json =
     [(''application/octet-stream'', JObj [(''schema'', JObj [(''type'', JStr ''string'')])]),
      (''application/json'', JObj [(''schema'', JObj [(''type'', JStr ''integer'')])])]"

definition plain_then_jpeg :: "(string \<times> json) list" where
  "plain_then_jpeg =
     [(''text/plain'', JObj [(''schema'', JObj [(''type'', JStr ''string'')])]),
      (''image/jpeg'', JObj [(''schema'', JObj [(''type'', JStr ''integer'')])])]"

definition plain_then_png :: "(string \<times> json) list" where
  "plain_then_png =
     [(''text/plain'', JObj [(''schema'', JObj [(''type'', JStr ''string'')])]),
      (''image/png'', JObj [(''schema'', JObj [(''type'', JStr ''integer'')])])]"

definition example_only :: "(string \<times> json) list" where
  "example_only = [(''text/plain'', JObj [(''example'', JStr ''hello'')])]"

text \<open>
  C7, as the code has it. The fixed list is \<^verbatim>\<open>application/json\<close>,
  \<^verbatim>\<open>application/merge-patch+json\<close>, \<^verbatim>\<open>multipart/form-data\<close>,
  \<^verbatim>\<open>application/x-www-form-urlencoded\<close>, \<^verbatim>\<open>image/png\<close>: of the image types only this one is
  in it. For a content map, \<^verbatim>\<open>pickContentType\<close> renders the schema of the first entry of
  the list that carries a schema in the map, and returns that content type; when no
  entry of the list carries one, it renders the schema of the first entry of the map,
  in the order of the document, that carries one; when no entry of the map carries a
  schema, the result is \<^verbatim>\<open>unknown\<close> for both. Two maps with the same entries in different
  orders give the same result as soon as an entry of the list carries a schema.
\<close>

theorem content_type_priority:
  "content_order =
     [''application/json'', ''application/merge-patch+json'', ''multipart/form-data'',
      ''application/x-www-form-urlencoded'', ''image/png''] \<and>
   (i < length content_order \<and> carried_schema (map_of kvs (content_order ! i)) = Some s \<and>
    (\<forall>j<i. carried_schema (map_of kvs (content_order ! j)) = None) \<longrightarrow>
      pickContentType c (Some (JObj kvs)) st =
        (case typeFromSchema c s st of
           Inl e \<Rightarrow> Inl e
         | Inr (t, st1) \<Rightarrow> Inr ((t, content_order ! i), st1))) \<and>
   ((\<forall>ct \<in> set content_order. carried_schema (map_of (pre @ (ct', entry) # post) ct) = None) \<and>
    (\<forall>(k, v) \<in> set pre. carried_schema (Some v) = None) \<and>
    carried_schema (Some entry) = Some s' \<longrightarrow>
      pickContentType c (Some (JObj (pre @ (ct', entry) # post))) st =
        (case typeFromSchema c s' st of
           Inl e \<Rightarrow> Inl e
         | Inr (t, st1) \<Rightarrow> Inr ((t, ct'), st1))) \<and>
   ((\<forall>(k, v) \<in> set kvs. carried_schema (Some v) = None) \<longrightarrow>
      pickContentType c (Some (JObj kvs)) st = Inr ((''unknown'', ''unknown''), st)) \<and>
   (map_of kvs' = map_of kvs \<and>
    (\<exists>ct \<in> set content_order. carried_schema (map_of kvs ct) \<noteq> None) \<longrightarrow>
      pickContentType c (Some (JObj kvs')) st = pickContentType c (Some (JObj kvs)) st)"
proof (intro conjI impI)
  show "content_order =
     [''application/json'', ''application/merge-patch+json'', ''multipart/form-data'',
      ''application/x-www-form-urlencoded'', ''image/png'']"
    by (simp add: content_order_def)
next
  assume "i < length content_order \<and> carried_schema (map_of kvs (content_order ! i)) = Some s \<and>
    (\<forall>j<i. carried_schema (map_of kvs (content_order ! j)) = None)"
  then have "first_by_order kvs content_order = Some (content_order ! i, s)"
    by (intro first_by_order_at) auto
  then show "pickContentType c (Some (JObj kvs)) st =
        (case typeFromSchema c s st of
           Inl e \<Rightarrow> Inl e
         | Inr (t, st1) \<Rightarrow> Inr ((t, content_order ! i), st1))"
    by (simp add: pickContentType_def chosen_content_def)
next
  assume h: "(\<forall>ct \<in> set content_order.
                carried_schema (map_of (pre @ (ct', entry) # post) ct) = None) \<and>
    (\<forall>(k, v) \<in> set pre. carried_schema (Some v) = None) \<and>
    carried_schema (Some entry) = Some s'"
  then have "first_by_order (pre @ (ct', entry) # post) content_order = None"
    by (intro first_by_order_none) auto
  moreover from h have "first_available (pre @ (ct', entry) # post) = Some (ct', s')"
    by (intro first_available_at) auto
  ultimately show "pickContentType c (Some (JObj (pre @ (ct', entry) # post))) st =
        (case typeFromSchema c s' st of
           Inl e \<Rightarrow> Inl e
         | Inr (t, st1) \<Rightarrow> Inr ((t, ct'), st1))"
    by (simp add: pickContentType_def chosen_content_def)
next
  assume n: "\<forall>(k, v) \<in> set kvs. carried_schema (Some v) = None"
  then have "\<forall>ct \<in> set content_order. carried_schema (map_of kvs ct) = None"
    by (simp add: carried_schema_none)
  then have "first_by_order kvs content_order = None"
    by (rule first_by_order_none)
  moreover from n have "first_available kvs = None" by (rule first_available_none)
  ultimately show "pickContentType c (Some (JObj kvs)) st = Inr ((''unknown'', ''unknown''), st)"
    by (simp add: pickContentType_def chosen_content_def)
next
  assume h: "map_of kvs' = map_of kvs \<and>
    (\<exists>ct \<in> set content_order. carried_schema (map_of kvs ct) \<noteq> None)"
  then have "first_by_order kvs content_order \<noteq> None" by (intro first_by_order_some) auto
  moreover from h have "first_by_order kvs' content_order = first_by_order kvs content_order"
    by (intro first_by_order_map_of) auto
  ultimately have "chosen_content kvs' = chosen_content kvs"
    by (auto simp: chosen_content_def)
  then show "pickContentType c (Some (JObj kvs')) st = pickContentType c (Some (JObj kvs)) st"
    by (simp add: pickContentType_def)
qed

text \<open>A map that declares a binary type and then JSON renders the JSON schema, in either
  order; a map none of whose types is in the list renders its first entry; a map with
  no schema renders \<^verbatim>\<open>unknown\<close>.\<close>

theorem content_type_priority_witness:
  "pickContentType no_enums (Some (JObj binary_then_json)) init_state
     = Inr ((''number'', ''application/json''), init_state) \<and>
   pickContentType no_enums (Some (JObj (rev binary_then_json))) init_state
     = Inr ((''number'', ''application/json''), init_state) \<and>
   pickContentType no_enums (Some (JObj plain_then_jpeg)) init_state
     = Inr ((''string'', ''text/plain''), init_state) \<and>
   pickContentType no_enums (Some (JObj example_only)) init_state
     = Inr ((''unknown'', ''unknown''), init_state)"
proof -
  note inst = content_type_priority [where c = no_enums and st = init_state]
  have t: "typeFromSchema no_enums (JObj [(''type'', JStr ''integer'')]) init_state
             = Inr (''number'', init_state)"
    "typeFromSchema no_enums (JObj [(''type'', JStr ''string'')]) init_state
             = Inr (''string'', init_state)"
    by code_simp+
  have o: "content_order ! 0 = ''application/json''" by (simp add: content_order_def)
  have h: "0 < length content_order \<and>
      carried_schema (map_of binary_then_json (content_order ! 0))
        = Some (JObj [(''type'', JStr ''integer'')]) \<and>
      (\<forall>j<0. carried_schema (map_of binary_then_json (content_order ! j)) = None)"
    by (simp add: content_order_def binary_then_json_def carried_schema_def as_truthy_def)
  from inst [where i = 0 and kvs = binary_then_json and s = "JObj [(''type'', JStr ''integer'')]"] h
  have "pickContentType no_enums (Some (JObj binary_then_json)) init_state =
        (case typeFromSchema no_enums (JObj [(''type'', JStr ''integer'')]) init_state of
           Inl e \<Rightarrow> Inl e
         | Inr (t, st1) \<Rightarrow> Inr ((t, content_order ! 0), st1))"
    by blast
  then have 1: "pickContentType no_enums (Some (JObj binary_then_json)) init_state
     = Inr ((''number'', ''application/json''), init_state)"
    unfolding t o by simp
  have m: "map_of (rev binary_then_json) = map_of binary_then_json"
    by (rule ext) (simp add: binary_then_json_def)
  have e: "\<exists>ct \<in> set content_order. carried_schema (map_of binary_then_json ct) \<noteq> None"
    by (simp add: content_order_def binary_then_json_def carried_schema_def as_truthy_def)
  have 2: "pickContentType no_enums (Some (JObj (rev binary_then_json))) init_state
     = pickContentType no_enums (Some (JObj binary_then_json)) init_state"
    using inst [where kvs = binary_then_json and kvs' = "rev binary_then_json"] m e
    by blast
  let ?e = "JObj [(''schema'', JObj [(''type'', JStr ''string'')])]"
  let ?post = "[(''image/jpeg'', JObj [(''schema'', JObj [(''type'', JStr ''integer'')])])]"
  have f: "(\<forall>ct \<in> set content_order.
              carried_schema (map_of ([] @ (''text/plain'', ?e) # ?post) ct) = None) \<and>
      (\<forall>(k, v) \<in> set []. carried_schema (Some v) = None) \<and>
      carried_schema (Some ?e) = Some (JObj [(''type'', JStr ''string'')])"
    by (simp add: content_order_def carried_schema_def as_truthy_def)
  from inst [where pre = "[]" and ct' = "''text/plain''" and entry = ?e and post = ?post
        and s' = "JObj [(''type'', JStr ''string'')]", THEN conjunct2, THEN conjunct2,
        THEN conjunct1] f
  have "pickContentType no_enums (Some (JObj ([] @ (''text/plain'', ?e) # ?post))) init_state =
        (case typeFromSchema no_enums (JObj [(''type'', JStr ''string'')]) init_state of
           Inl e \<Rightarrow> Inl e
         | Inr (t, st1) \<Rightarrow> Inr ((t, ''text/plain''), st1))"
    by (rule mp)
  then have 3: "pickContentType no_enums (Some (JObj plain_then_jpeg)) init_state
     = Inr ((''string'', ''text/plain''), init_state)"
    unfolding t by (simp add: plain_then_jpeg_def)
  have n: "\<forall>(k, v) \<in> set example_only. carried_schema (Some v) = None"
    by (simp add: example_only_def carried_schema_def as_truthy_def)
  have 4: "pickContentType no_enums (Some (JObj example_only)) init_state
     = Inr ((''unknown'', ''unknown''), init_state)"
    using inst [where kvs = example_only] n by blast
  from 1 2 3 4 show ?thesis by simp
qed

text \<open>
  The claim as stated fails where it gives the image types a rank: only \<^verbatim>\<open>image/png\<close> is
  in the list. A map that declares \<^verbatim>\<open>text/plain\<close> and then \<^verbatim>\<open>image/jpeg\<close> renders the schema
  of \<^verbatim>\<open>text/plain\<close>, the first entry of the map, where the same map with \<^verbatim>\<open>image/png\<close>
  renders the schema of the image.
\<close>

theorem image_type_rank_counterexample:
  "pickContentType no_enums (Some (JObj plain_then_jpeg)) init_state
     = Inr ((''string'', ''text/plain''), init_state) \<and>
   pickContentType no_enums (Some (JObj plain_then_png)) init_state
     = Inr ((''number'', ''image/png''), init_state)"
  by code_simp


section \<open>A document without operations\<close>

lemma gen_components_none_used:
  "usedComponents st = {} \<Longrightarrow> gen_components c comps st = Inr ([], [], st)"
  by (induction comps) (auto simp: gen_component_def component_used_def)

lemma pathsList_lines_initial:
  "pathsList_lines frozen (pathsListMap init_projection) = []"
  by (simp add: init_projection_def httpMethods_def)

lemma build_parts_no_paths:
  assumes "openapi \<noteq> JNull" and "paths_entries openapi = []"
    and "collect_enums (components_entries openapi) = Inr es"
  shows "build_parts fuel openapi =
           Some (Inr \<lparr> ctx_of = make_ctx openapi es, final_state = init_state,
                       components_ts = [], components_zod = [], paths_of = init_projection \<rparr>)"
proof -
  have m: "mark_paths fuel (make_ctx openapi es) openapi init_state = Some (Inr init_state)"
    by (simp add: mark_paths_def assms(2))
  have g: "gen_components (make_ctx openapi es) (components_entries openapi) init_state =
             Inr ([], [], init_state)"
    by (rule gen_components_none_used) (simp add: init_state_def)
  show ?thesis
    unfolding build_parts_def by (simp add: assms m g)
qed

text \<open>A document with the definition \<^verbatim>\<open>X\<close> and the enumeration \<^verbatim>\<open>E\<close> and no route, and one
  whose definition \<^verbatim>\<open>X\<close> is \<^verbatim>\<open>null\<close>.\<close>

definition doc_no_paths :: json where
  "doc_no_paths = JObj
     [(''components'', JObj [(''schemas'', JObj
         [(''X'', JObj [(''type'', JStr ''string'')]),
          (''E'', JObj [(''type'', JStr ''string''), (''enum'', JArr [JStr ''a'', JStr ''b''])])])]),
      (''paths'', JObj [])]"

definition doc_null_definition :: json where
  "doc_null_definition = JObj [(''components'', JObj [(''schemas'', JObj [(''X'', JNull)])])]"

text \<open>
  C1, as the code has it. When the document has no route (\<^verbatim>\<open>paths\<close> missing or empty), the
  build does one of two things, whatever the bound on the marking pass. It raises,
  while it collects the enumerations (the document is \<^verbatim>\<open>null\<close>, or a definition is
  \<^verbatim>\<open>null\<close>, or an entry of a \<^verbatim>\<open>oneOf\<close> is) or while it prints them (a member name or a
  comment is an object with a property \<^verbatim>\<open>toString\<close>). Or it writes its three files: the marking pass
  and the projection have done nothing, both usage sets are empty, so the filter of the
  enumerations lets every enumeration through (\<^verbatim>\<open>!usedEnums.size\<close>) and the type module
  declares all of them, in the order of the table, each as
  \<^verbatim>\<open>export const enum Name { ... }\<close> under its comment; but the loop over
  \<^verbatim>\<open>components.schemas\<close> has no such fallback and skips every definition, so the Components
  section of the type module is empty and the validator module holds only its header.
\<close>

theorem no_paths_all_enums_no_components:
  assumes "paths_entries openapi = []"
  shows "build fuel openapi =
     (if openapi = JNull then Some (Inl TypeError)
      else
        (case collect_enums (components_entries openapi) of
           Inl err \<Rightarrow> Some (Inl err)
         | Inr es \<Rightarrow>
             if \<not> list_all (enum_prints {}) es then Some (Inl TypeError)
             else
             Some (Inr
               \<lparr> outputTs =
                   banner
                   @ concat (map (\<lambda>(k, e).
                       ''/**'' @ nl
                       @ '' * '' @ (if truthy (doc e) then template (doc e) else k) @ nl
                       @ '' */'' @ nl
                       @ ''export const enum '' @ toTypeName k @ '' {'' @ nl
                       @ printEnum_members e 0 (evalues e)
                       @ ''}'' @ nl @ nl) es)
                   @ nl @ ''// Components'' @ nl @ nl
                   @ ''// Paths'' @ nl @ ''export interface Paths {'' @ nl @ ''}'' @ nl @ nl
                   @ ''// Paths list'' @ nl @ ''export const pathsList = {'' @ nl
                   @ ''} as const;'' @ nl @ nl,
                 outputJs =
                   banner @ concat (map (\<lambda>(k, e). jsEnum k e) es)
                   @ ''export const pathsList = {'' @ nl @ ''};'' @ nl @ nl,
                 outputZod =
                   banner @ ''import * as z from '' @ [CHR 0x27] @ ''zod/mini'' @ [CHR 0x27]
                   @ '';'' @ nl @ nl \<rparr>)))"
proof (cases "openapi = JNull")
  case True
  then show ?thesis by (simp add: build_def build_parts_def)
next
  case False
  show ?thesis
  proof (cases "collect_enums (components_entries openapi)")
    case (Inl err)
    with False show ?thesis by (simp add: build_def build_parts_def)
  next
    case (Inr es)
    have ts: "usedEnums init_state = {}" by (simp add: init_state_def)
    have po: "pathsOut init_projection = ''export interface Paths {'' @ nl"
      and al: "operationAliasesOut init_projection = []"
      by (simp_all add: init_projection_def)
    have pe: "(\<lambda>(k, e). printEnum k e @ nl) =
        (\<lambda>(k, e). ''/**'' @ nl
                       @ '' * '' @ (if truthy (doc e) then template (doc e) else k) @ nl
                       @ '' */'' @ nl
                       @ ''export const enum '' @ toTypeName k @ '' {'' @ nl
                       @ printEnum_members e 0 (evalues e)
                       @ ''}'' @ nl @ nl)"
      by (simp add: printEnum_def fun_eq_iff)
    have "assemble \<lparr> ctx_of = make_ctx openapi es, final_state = init_state,
                     components_ts = [], components_zod = [], paths_of = init_projection \<rparr> =
            (if \<not> list_all (enum_prints {}) es then Inl TypeError
             else Inr \<lparr> outputTs =
                   banner
                   @ concat (map (\<lambda>(k, e). printEnum k e @ nl) es)
                   @ nl @ ''// Components'' @ nl @ nl
                   @ ''// Paths'' @ nl @ ''export interface Paths {'' @ nl @ ''}'' @ nl @ nl
                   @ ''// Paths list'' @ nl @ ''export const pathsList = {'' @ nl
                   @ ''} as const;'' @ nl @ nl,
                 outputJs =
                   banner @ concat (map (\<lambda>(k, e). jsEnum k e) es)
                   @ ''export const pathsList = {'' @ nl @ ''};'' @ nl @ nl,
                 outputZod =
                   banner @ ''import * as z from '' @ [CHR 0x27] @ ''zod/mini'' @ [CHR 0x27]
                   @ '';'' @ nl @ nl \<rparr>)"
      by (simp add: assemble_def Let_def make_ctx_def ts assemble_enums_eq
          pathsList_lines_initial po al replaceAll_def)
    with False Inr show ?thesis
      unfolding build_def build_parts_no_paths [OF False assms Inr] pe by simp
  qed
qed

theorem no_paths_all_enums_no_components_witness:
  "paths_entries doc_no_paths = [] \<and>
   build 0 doc_no_paths =
     Some (Inr
       \<lparr> outputTs =
           banner
           @ ''/**'' @ nl @ '' * E'' @ nl @ '' */'' @ nl
           @ ''export const enum E {'' @ nl
           @ ''  A = '' @ dq @ ''a'' @ dq @ '','' @ nl
           @ ''  B = '' @ dq @ ''b'' @ dq @ '','' @ nl
           @ ''}'' @ nl @ nl
           @ nl @ ''// Components'' @ nl @ nl
           @ ''// Paths'' @ nl @ ''export interface Paths {'' @ nl @ ''}'' @ nl @ nl
           @ ''// Paths list'' @ nl @ ''export const pathsList = {'' @ nl
           @ ''} as const;'' @ nl @ nl,
         outputJs =
           banner
           @ ''export const E = {'' @ nl
           @ ''  A: '' @ dq @ ''a'' @ dq @ '','' @ nl
           @ ''  B: '' @ dq @ ''b'' @ dq @ '','' @ nl
           @ ''};'' @ nl @ nl
           @ ''export const pathsList = {'' @ nl @ ''};'' @ nl @ nl,
         outputZod =
           banner @ ''import * as z from '' @ [CHR 0x27] @ ''zod/mini'' @ [CHR 0x27]
           @ '';'' @ nl @ nl \<rparr>) \<and>
   paths_entries doc_null_definition = [] \<and>
   build 0 doc_null_definition = Some (Inl TypeError)"
proof -
  have a: "paths_entries doc_no_paths = []" by code_simp
  have b: "paths_entries doc_null_definition = []" by code_simp
  from no_paths_all_enums_no_components [OF a, of 0]
       no_paths_all_enums_no_components [OF b, of 0]
  show ?thesis by code_simp
qed

text \<open>
  The claim as stated fails for the definitions: \<open>doc_no_paths\<close> defines \<^verbatim>\<open>X\<close> and the
  enumeration \<^verbatim>\<open>E\<close> and has no route; the build declares \<^verbatim>\<open>E\<close> and emits no type and no
  validator for \<^verbatim>\<open>X\<close>.
\<close>

theorem no_paths_components_counterexample:
  "map_option (map_sum id (\<lambda>p. (components_ts p, components_zod p))) (build_parts 0 doc_no_paths)
     = Some (Inr ([], [])) \<and>
   map_option (map_sum id outputTs) (build 0 doc_no_paths)
     = Some (Inr (banner
                  @ ''/**'' @ nl @ '' * E'' @ nl @ '' */'' @ nl
                  @ ''export const enum E {'' @ nl
                  @ ''  A = '' @ dq @ ''a'' @ dq @ '','' @ nl
                  @ ''  B = '' @ dq @ ''b'' @ dq @ '','' @ nl
                  @ ''}'' @ nl @ nl
                  @ nl @ ''// Components'' @ nl @ nl
                  @ ''// Paths'' @ nl @ ''export interface Paths {'' @ nl @ ''}'' @ nl @ nl
                  @ ''// Paths list'' @ nl @ ''export const pathsList = {'' @ nl
                  @ ''} as const;'' @ nl @ nl))"
  by code_simp


section \<open>The entries of the type module and of the validator module\<close>


















end
